(* ===== verification/Prelude.thy ===== *)
theory Prelude
  imports Complex_Main "HOL-Library.Word" "HOL-Library.Char_ord"
    "HOL-Library.List_Lexorder" "HOL-Library.Sublist"
begin

text \<open>
  The shared layer of the development. It names the machine types of the Rust sources, gives the
  operations of the Rust standard library on \<open>str\<close>, \<open>Vec\<close>, \<open>Option\<close> and \<open>Result\<close> that the
  components call, and proves the generic facts about them that the component theories use.

  \<^item> A Rust \<open>String\<close>, \<open>&str\<close> or \<open>Bytes\<close> is its sequence of bytes, a HOL \<open>string\<close>; a text that the
    program has validated as UTF-8 is one for which \<open>utf8_valid\<close> holds.
  \<^item> An unsigned integer of width w is a \<open>w word\<close>. The sources set no Cargo profile, so the shipped
    (release) build wraps on overflow, which is what word arithmetic does.
    A signed integer has the same type and is read with \<open>sint\<close>.
  \<^item> A \<open>Duration\<close> and an \<open>Instant\<close> are counts of nanoseconds. The clock is never read inside a
    definition: an operation that calls \<open>Instant::now()\<close> takes the reading as an argument.
  \<^item> \<open>Result<T, E>\<close> is \<open>E + T\<close> with \<open>Inl\<close> for \<open>Err\<close>; \<open>?\<close> is \<open>res_bind\<close>.
\<close>

named_theorems ctx_simps "rewriting for the connection context and its extension map"
named_theorems mw_defs "the hooks of the middlewares, to unfold"
named_theorems health_intros "facts about channel health used by the selection proofs"

type_synonym u8 = "8 word"
type_synonym u16 = "16 word"
type_synonym u32 = "32 word"
type_synonym u64 = "64 word"
type_synonym i64 = "64 word"
type_synonym bytes = string
type_synonym instant = nat
type_synonym duration = nat
type_synonym 'v hashmap = "string \<rightharpoonup> 'v"

text \<open>Values of words are read with \<open>unat\<close> and \<open>sint\<close> throughout.\<close>

declare of_nat_unat [simp del]

section \<open>Result and Option\<close>

definition res_bind :: "'e + 'a \<Rightarrow> ('a \<Rightarrow> 'e + 'b) \<Rightarrow> 'e + 'b" where
  "res_bind r f = (case r of Inl e \<Rightarrow> Inl e | Inr x \<Rightarrow> f x)"

definition ok_or :: "'e \<Rightarrow> 'a option \<Rightarrow> 'e + 'a" where
  "ok_or e x = (case x of None \<Rightarrow> Inl e | Some y \<Rightarrow> Inr y)"

definition unwrap_or :: "'a \<Rightarrow> 'a option \<Rightarrow> 'a" where
  "unwrap_or d x = (case x of None \<Rightarrow> d | Some y \<Rightarrow> y)"

definition is_none_or :: "('a \<Rightarrow> bool) \<Rightarrow> 'a option \<Rightarrow> bool" where
  "is_none_or p x = (case x of None \<Rightarrow> True | Some y \<Rightarrow> p y)"

definition is_some_and :: "('a \<Rightarrow> bool) \<Rightarrow> 'a option \<Rightarrow> bool" where
  "is_some_and p x = (case x of None \<Rightarrow> False | Some y \<Rightarrow> p y)"

lemma res_bind_simps [simp]:
  "res_bind (Inl e) f = Inl e"
  "res_bind (Inr x) f = f x"
  by (simp_all add: res_bind_def)

lemma res_bind_Inr_iff:
  "res_bind r f = Inr y \<longleftrightarrow> (\<exists>x. r = Inr x \<and> f x = Inr y)"
  by (cases r) auto

lemma res_bind_Inl_iff:
  "res_bind r f = Inl e \<longleftrightarrow> r = Inl e \<or> (\<exists>x. r = Inr x \<and> f x = Inl e)"
  by (cases r) auto

lemma ok_or_simps [simp]:
  "ok_or e None = Inl e"
  "ok_or e (Some y) = Inr y"
  by (simp_all add: ok_or_def)

lemma ok_or_Inr_iff [simp]: "ok_or e x = Inr y \<longleftrightarrow> x = Some y"
  by (cases x) auto

lemma unwrap_or_simps [simp]:
  "unwrap_or d None = d"
  "unwrap_or d (Some y) = y"
  by (simp_all add: unwrap_or_def)

lemma is_none_or_simps [simp]:
  "is_none_or p None"
  "is_none_or p (Some y) = p y"
  by (simp_all add: is_none_or_def)

lemma is_some_and_simps [simp]:
  "\<not> is_some_and p None"
  "is_some_and p (Some y) = p y"
  by (simp_all add: is_some_and_def)

section \<open>Strings\<close>

definition starts_with :: "string \<Rightarrow> string \<Rightarrow> bool" where
  "starts_with p s = (take (length p) s = p)"

definition ends_with :: "string \<Rightarrow> string \<Rightarrow> bool" where
  "ends_with p s = (length p \<le> length s \<and> drop (length s - length p) s = p)"

fun contains :: "string \<Rightarrow> string \<Rightarrow> bool" where
  "contains p [] = (p = [])"
| "contains p (c # cs) = (starts_with p (c # cs) \<or> contains p cs)"

text \<open>\<open>PathBuf::join\<close>\<close>

definition path_join :: "string \<Rightarrow> string \<Rightarrow> string" where
  "path_join base p =
     (if starts_with ''/'' p then p
      else if base = [] \<or> last base = CHR ''/'' then base @ p
      else base @ ''/'' @ p)"

definition strip_prefix :: "string \<Rightarrow> string \<Rightarrow> string option" where
  "strip_prefix p s = (if starts_with p s then Some (drop (length p) s) else None)"

definition strip_suffix :: "string \<Rightarrow> string \<Rightarrow> string option" where
  "strip_suffix p s = (if ends_with p s then Some (take (length s - length p) s) else None)"

text \<open>\<open>str::trim_end_matches(c)\<close> for a single character.\<close>

definition trim_end_char :: "char \<Rightarrow> string \<Rightarrow> string" where
  "trim_end_char c s = rev (dropWhile (\<lambda>x. x = c) (rev s))"

text \<open>
  \<open>to_lowercase\<close> is used on header names and on header values that passed \<open>HeaderValue::to_str\<close>,
  which are visible ASCII, and there it is the ASCII mapping.
\<close>

definition ascii_lower :: "char \<Rightarrow> char" where
  "ascii_lower c =
     (let n = (of_char c :: nat) in if 65 \<le> n \<and> n \<le> 90 then char_of (n + 32) else c)"

definition to_lowercase :: "string \<Rightarrow> string" where
  "to_lowercase = map ascii_lower"

fun join :: "string \<Rightarrow> string list \<Rightarrow> string" where
  "join sep [] = []"
| "join sep [x] = x"
| "join sep (x # y # ys) = x @ sep @ join sep (y # ys)"

text \<open>
  \<open>str::lines\<close>: the segments between line feeds, without a final empty segment, each without one
  trailing carriage return. \<open>lines_pos\<close> also gives the byte offset at which each line starts.
\<close>

abbreviation LF :: char where
  "LF \<equiv> char_of (10::nat)"

abbreviation CR :: char where
  "CR \<equiv> char_of (13::nat)"

fun split_lf :: "string \<Rightarrow> string list" where
  "split_lf [] = [[]]"
| "split_lf (c # cs) =
     (if c = LF then [] # split_lf cs
      else (case split_lf cs of [] \<Rightarrow> [[c]] | l # ls \<Rightarrow> (c # l) # ls))"

definition strip_cr :: "string \<Rightarrow> string" where
  "strip_cr l = (if l \<noteq> [] \<and> last l = CR then butlast l else l)"

definition drop_last_empty :: "string list \<Rightarrow> string list" where
  "drop_last_empty ls = (if ls \<noteq> [] \<and> last ls = [] then butlast ls else ls)"

text \<open>
  A line that ends at the end of the text (not at a line feed) keeps its carriage return.
\<close>

definition lines :: "string \<Rightarrow> string list" where
  "lines s = (let ls = split_lf s in
     map strip_cr (butlast ls) @ drop_last_empty [last ls])"

text \<open>
  \<open>str::trim\<close>: the UTF-8 encodings of the characters with the Unicode property White_Space are
  removed from both ends.
\<close>

definition ws_codes :: "nat list list" where
  "ws_codes =
     [[9], [10], [11], [12], [13], [32], [194, 133], [194, 160], [225, 154, 128]] @
     map (\<lambda>n. [226, 128, n]) ([128..<139] @ [168, 169, 175]) @
     [[226, 129, 159], [227, 128, 128]]"

definition ws_seqs :: "string list" where
  "ws_seqs = map (map char_of) ws_codes"

function trim_start :: "string \<Rightarrow> string" where
  "trim_start s =
     (case find (\<lambda>w. starts_with w s \<and> w \<noteq> []) ws_seqs of
        None \<Rightarrow> s
      | Some w \<Rightarrow> trim_start (drop (length w) s))"
  by pat_completeness auto

function trim_end :: "string \<Rightarrow> string" where
  "trim_end s =
     (case find (\<lambda>w. ends_with w s \<and> w \<noteq> []) ws_seqs of
        None \<Rightarrow> s
      | Some w \<Rightarrow> trim_end (take (length s - length w) s))"
  by pat_completeness auto

definition trim :: "string \<Rightarrow> string" where
  "trim s = trim_end (trim_start s)"

text \<open>Decimal printing of an unsigned integer.\<close>

fun show_nat :: "nat \<Rightarrow> string" where
  "show_nat n =
     (if n < 10 then [char_of (48 + n)] else show_nat (n div 10) @ [char_of (48 + n mod 10)])"

declare show_nat.simps [simp del]

text \<open>\<open>str::parse\<close> to an unsigned integer below \<open>bound\<close>; a leading plus sign is allowed.\<close>

fun parse_digits :: "nat \<Rightarrow> nat \<Rightarrow> string \<Rightarrow> nat option" where
  "parse_digits bound acc [] = Some acc"
| "parse_digits bound acc (c # cs) =
     (let n = (of_char c :: nat) in
      if 48 \<le> n \<and> n \<le> 57 \<and> acc * 10 + (n - 48) < bound
      then parse_digits bound (acc * 10 + (n - 48)) cs else None)"

definition parse_unsigned :: "nat \<Rightarrow> string \<Rightarrow> nat option" where
  "parse_unsigned bound s =
     (let ds = (if starts_with ''+'' s \<and> 1 < length s then tl s else s)
      in if ds = [] then None else parse_digits bound 0 ds)"

abbreviation parse_usize :: "string \<Rightarrow> nat option" where
  "parse_usize \<equiv> parse_unsigned (2 ^ 64)"

definition parse_u32 :: "string \<Rightarrow> u32 option" where
  "parse_u32 s = map_option of_nat (parse_unsigned (2 ^ 32) s)"

lemma LF_CR_literal: "LF = CHR 0x0A" "CR = CHR 0x0D"
  by (simp_all add: char_of_def bit_Suc_0_iff)

lemma find_ws:
  "find (\<lambda>w. p w \<and> w \<noteq> []) ws = Some w \<Longrightarrow> p w \<and> w \<noteq> []"
  by (induction ws) (auto split: if_splits)

termination trim_start
proof (relation "measure length")
  fix s w
  assume "find (\<lambda>w. starts_with w s \<and> w \<noteq> []) ws_seqs = Some w"
  from find_ws [OF this] have "starts_with w s" "w \<noteq> []" by auto
  then show "(drop (length w) s, s) \<in> measure length" by (cases s; cases w) (auto simp: starts_with_def)
qed simp

termination trim_end
proof (relation "measure length")
  fix s w
  assume "find (\<lambda>w. ends_with w s \<and> w \<noteq> []) ws_seqs = Some w"
  from find_ws [OF this] have "ends_with w s" "w \<noteq> []" by auto
  then show "(take (length s - length w) s, s) \<in> measure length"
    by (cases s; cases w) (auto simp: ends_with_def)
qed simp

declare trim_start.simps [simp del] trim_end.simps [simp del]

text \<open>A text that begins and ends with a printable ASCII character is not trimmed.\<close>

definition graphic :: "char \<Rightarrow> bool" where
  "graphic c = (let n = (of_char c :: nat) in 33 \<le> n \<and> n < 127)"

lemma ws_seqs_edges: "\<forall>w\<in>set ws_seqs. w \<noteq> [] \<and> \<not> graphic (hd w) \<and> \<not> graphic (last w)"
  by (simp add: ws_seqs_def ws_codes_def graphic_def upt_rec)

lemma trim_start_id:
  assumes "s \<noteq> []" "graphic (hd s)"
  shows "trim_start s = s"
proof -
  have "\<not> starts_with w s" if "w \<in> set ws_seqs" for w
  proof
    assume "starts_with w s"
    moreover have w: "w \<noteq> []" "\<not> graphic (hd w)" using ws_seqs_edges that by auto
    ultimately have "hd s = hd w"
      unfolding starts_with_def by (metis hd_take length_greater_0_conv)
    with w(2) assms(2) show False by simp
  qed
  then have "find (\<lambda>w. starts_with w s \<and> w \<noteq> []) ws_seqs = None" by (auto simp: find_None_iff)
  then show ?thesis by (simp add: trim_start.simps [of s])
qed

lemma trim_end_id:
  assumes "s \<noteq> []" "graphic (last s)"
  shows "trim_end s = s"
proof -
  have "\<not> ends_with w s" if "w \<in> set ws_seqs" for w
  proof
    assume "ends_with w s"
    moreover have w: "w \<noteq> []" "\<not> graphic (last w)" using ws_seqs_edges that by auto
    ultimately have "last s = last w"
      unfolding ends_with_def by (metis diff_less drop_eq_Nil2 last_drop length_greater_0_conv linorder_not_le)
    with w(2) assms(2) show False by simp
  qed
  then have "find (\<lambda>w. ends_with w s \<and> w \<noteq> []) ws_seqs = None" by (auto simp: find_None_iff)
  then show ?thesis by (simp add: trim_end.simps [of s])
qed

lemma trim_id: "s \<noteq> [] \<Longrightarrow> graphic (hd s) \<Longrightarrow> graphic (last s) \<Longrightarrow> trim s = s"
  by (simp add: trim_def trim_start_id trim_end_id)

lemma split_lf_nonempty [simp]: "split_lf s \<noteq> []"
  by (induction s) (auto split: list.splits)

lemma starts_with_Nil [simp]: "starts_with [] s"
  by (simp add: starts_with_def)

lemma starts_with_Cons [simp]:
  "starts_with (p # ps) (c # cs) \<longleftrightarrow> p = c \<and> starts_with ps cs"
  "\<not> starts_with (p # ps) []"
  by (auto simp: starts_with_def)

lemma starts_with_iff: "starts_with p s \<longleftrightarrow> (\<exists>r. s = p @ r)"
  by (metis append_eq_conv_conj append_take_drop_id starts_with_def)

lemma starts_with_append [simp]: "starts_with p (p @ r)"
  by (auto simp: starts_with_iff)

lemma strip_prefix_Some_iff: "strip_prefix p s = Some r \<longleftrightarrow> s = p @ r"
  by (auto simp: strip_prefix_def starts_with_iff)

lemma strip_prefix_append [simp]: "strip_prefix p (p @ r) = Some r"
  by (simp add: strip_prefix_Some_iff)

lemma ends_with_iff: "ends_with p s \<longleftrightarrow> (\<exists>r. s = r @ p)"
proof
  assume "ends_with p s"
  then show "\<exists>r. s = r @ p"
    by (metis append_take_drop_id ends_with_def)
next
  assume "\<exists>r. s = r @ p"
  then show "ends_with p s" by (auto simp: ends_with_def)
qed

lemma ends_with_refl [simp]: "ends_with s s"
  by (simp add: ends_with_def)

lemma contains_iff: "contains p s \<longleftrightarrow> (\<exists>l r. s = l @ p @ r)"
proof (induction s)
  case Nil
  then show ?case by auto
next
  case (Cons c cs)
  show ?case
  proof
    assume "contains p (c # cs)"
    then consider "starts_with p (c # cs)" | "contains p cs" by auto
    then show "\<exists>l r. c # cs = l @ p @ r"
    proof cases
      case 1
      then show ?thesis by (metis append_Nil starts_with_iff)
    next
      case 2
      then show ?thesis using Cons by (metis append_Cons)
    qed
  next
    assume "\<exists>l r. c # cs = l @ p @ r"
    then obtain l r where eq: "c # cs = l @ p @ r" by blast
    show "contains p (c # cs)"
    proof (cases l)
      case Nil
      with eq have "starts_with p (c # cs)" by (auto simp: starts_with_iff)
      then show ?thesis by simp
    next
      case (Cons a l')
      with eq have "cs = l' @ p @ r" by simp
      with Cons.IH show ?thesis by auto
    qed
  qed
qed

lemma trim_end_char_Nil [simp]: "trim_end_char c [] = []"
  by (simp add: trim_end_char_def)

lemma trim_end_char_no_suffix: "trim_end_char c s = [] \<or> last (trim_end_char c s) \<noteq> c"
proof (cases "dropWhile (\<lambda>x. x = c) (rev s)")
  case Nil
  then show ?thesis by (simp add: trim_end_char_def)
next
  case (Cons a as)
  then have "a \<noteq> c" by (metis (mono_tags, lifting) dropWhile_eq_Cons_conv)
  with Cons show ?thesis by (simp add: trim_end_char_def)
qed

lemma trim_end_char_split: "\<exists>n. s = trim_end_char c s @ replicate n c"
proof -
  have "takeWhile (\<lambda>x. x = c) (rev s) = replicate (length (takeWhile (\<lambda>x. x = c) (rev s))) c"
    by (intro replicate_eqI [symmetric, THEN sym]) (auto dest: set_takeWhileD)
  then have "\<exists>n. takeWhile (\<lambda>x. x = c) (rev s) = replicate n c" by blast
  then obtain n where "rev s = replicate n c @ dropWhile (\<lambda>x. x = c) (rev s)"
    by (metis takeWhile_dropWhile_id)
  then have "s = trim_end_char c s @ replicate n c"
    unfolding trim_end_char_def by (metis rev_append rev_replicate rev_rev_ident)
  then show ?thesis by blast
qed

lemma trim_end_char_id: "s = [] \<or> last s \<noteq> c \<Longrightarrow> trim_end_char c s = s"
  by (cases s rule: rev_cases) (auto simp: trim_end_char_def)

lemma trim_end_char_idem [simp]: "trim_end_char c (trim_end_char c s) = trim_end_char c s"
  by (rule trim_end_char_id) (rule trim_end_char_no_suffix)

lemma ascii_lower_idem [simp]: "ascii_lower (ascii_lower c) = ascii_lower c"
  by (auto simp: ascii_lower_def Let_def)

lemma to_lowercase_idem [simp]: "to_lowercase (to_lowercase s) = to_lowercase s"
  by (simp add: to_lowercase_def)

lemma to_lowercase_Nil [simp]: "to_lowercase [] = []"
  by (simp add: to_lowercase_def)

section \<open>Lists\<close>

text \<open>
  \<open>slice::sort_by_key(|x| Reverse(k(x)))\<close> is a stable sort with the greatest key first;
  \<open>sort_key\<close> is a stable sort.
\<close>

definition sort_desc :: "('a \<Rightarrow> nat) \<Rightarrow> 'a list \<Rightarrow> 'a list" where
  "sort_desc k xs = sort_key (\<lambda>x. - int (k x)) xs"

lemma set_sort_desc [simp]: "set (sort_desc k xs) = set xs"
  by (simp add: sort_desc_def)

lemma sort_desc_sorted: "sorted (map (\<lambda>x. - int (k x)) (sort_desc k xs))"
  by (simp add: sort_desc_def)

lemma sort_desc_stable: "filter (\<lambda>y. k y = n) (sort_desc k xs) = filter (\<lambda>y. k y = n) xs"
proof -
  have "filter (\<lambda>y. - int (k y) = - int n) (sort_desc k xs)
      = filter (\<lambda>y. - int (k y) = - int n) xs"
    unfolding sort_desc_def by (rule sort_key_stable)
  then show ?thesis by simp
qed

lemma find_Some_in: "find p xs = Some x \<Longrightarrow> x \<in> set xs \<and> p x"
  by (induction xs) (auto split: if_splits)

lemma find_split:
  "find p xs = Some x \<longleftrightarrow> (\<exists>ys zs. xs = ys @ x # zs \<and> p x \<and> (\<forall>y\<in>set ys. \<not> p y))"
proof (induction xs)
  case Nil
  then show ?case by simp
next
  case (Cons a xs)
  show ?case
  proof (cases "p a")
    case True
    have "ys = []" if "a # xs = ys @ x # zs" "\<forall>y\<in>set ys. \<not> p y" for ys zs
      using that True by (cases ys) auto
    with True show ?thesis by fastforce
  next
    case False
    show ?thesis
    proof
      assume "find p (a # xs) = Some x"
      with False Cons obtain ys zs where
        "xs = ys @ x # zs" "p x" "\<forall>y\<in>set ys. \<not> p y" by auto
      with False have "a # xs = (a # ys) @ x # zs \<and> p x \<and> (\<forall>y\<in>set (a # ys). \<not> p y)" by simp
      then show "\<exists>ys zs. a # xs = ys @ x # zs \<and> p x \<and> (\<forall>y\<in>set ys. \<not> p y)" by blast
    next
      assume "\<exists>ys zs. a # xs = ys @ x # zs \<and> p x \<and> (\<forall>y\<in>set ys. \<not> p y)"
      then obtain ys zs where eq: "a # xs = ys @ x # zs" "p x" "\<forall>y\<in>set ys. \<not> p y" by blast
      with False obtain ys' where "ys = a # ys'" by (cases ys) auto
      with eq have "find p xs = Some x" using Cons by auto
      with False show "find p (a # xs) = Some x" by simp
    qed
  qed
qed

lemma find_None_filter: "find p xs = None \<longleftrightarrow> filter p xs = []"
  by (induction xs) auto

lemma find_hd_filter: "find p xs = (case filter p xs of [] \<Rightarrow> None | y # ys \<Rightarrow> Some y)"
  by (induction xs) auto

text \<open>
  The first hit in a list sorted with the greatest key first has the greatest key among all hits,
  and is the first such hit of the unsorted list.
\<close>

lemma find_sort_desc_max:
  assumes "find p (sort_desc k xs) = Some x"
  shows "x \<in> set xs \<and> p x \<and> (\<forall>y\<in>set xs. p y \<longrightarrow> k y \<le> k x)"
proof -
  obtain ys zs where s: "sort_desc k xs = ys @ x # zs" "p x" "\<forall>y\<in>set ys. \<not> p y"
    using assms by (auto simp: find_split)
  have "k y \<le> k x" if y: "y \<in> set xs" "p y" for y
  proof -
    have "y \<in> set (ys @ x # zs)" using y(1) s(1) by (metis set_sort_desc)
    then have "y = x \<or> y \<in> set zs" using s(3) y(2) by auto
    moreover have "\<forall>z\<in>set zs. k z \<le> k x"
      using sort_desc_sorted [of k xs] s(1) by (auto simp: sorted_append)
    ultimately show ?thesis by auto
  qed
  moreover have "x \<in> set xs" using s(1) set_sort_desc [of k xs] by auto
  ultimately show ?thesis using s(2) by blast
qed

lemma filter_filter_key:
  "filter (\<lambda>y. p y \<and> k y = n) (sort_desc k xs) = filter (\<lambda>y. p y \<and> k y = n) xs"
proof -
  have "filter p (filter (\<lambda>y. k y = n) (sort_desc k xs)) = filter p (filter (\<lambda>y. k y = n) xs)"
    by (simp add: sort_desc_stable)
  then show ?thesis by (simp add: conj_commute)
qed

lemma find_sort_desc_first:
  assumes "find p (sort_desc k xs) = Some x"
  shows "find (\<lambda>y. p y \<and> k y = k x) xs = Some x"
proof -
  have "find (\<lambda>y. p y \<and> k y = k x) (sort_desc k xs) = Some x"
    using assms by (fastforce simp: find_split)
  then show ?thesis unfolding find_hd_filter filter_filter_key .
qed

lemma find_sort_desc_None: "find p (sort_desc k xs) = None \<longleftrightarrow> (\<forall>y\<in>set xs. \<not> p y)"
  by (simp add: find_None_iff2 find_None_filter filter_empty_conv)

lemma find_sort_desc_hit: "x \<in> set xs \<Longrightarrow> p x \<Longrightarrow> find p (sort_desc k xs) \<noteq> None"
  unfolding find_sort_desc_None by blast

section \<open>Printing and reading of numbers\<close>

lemma parse_digits_append:
  "parse_digits b acc (xs @ ys) = Option.bind (parse_digits b acc xs) (\<lambda>a. parse_digits b a ys)"
  by (induction xs arbitrary: acc) (auto simp: Let_def)

lemma digit_value: "n < 10 \<Longrightarrow> (of_char (char_of (48 + n)) :: nat) = 48 + n"
  by simp

lemma parse_digits_show_nat: "n < b \<Longrightarrow> parse_digits b 0 (show_nat n) = Some n"
proof (induction n rule: show_nat.induct)
  case (1 n)
  show ?case
  proof (cases "n < 10")
    case True
    with 1 show ?thesis by (simp add: show_nat.simps [of n] digit_value)
  next
    case False
    with 1 have "parse_digits b 0 (show_nat (n div 10)) = Some (n div 10)" by simp
    with False 1(2) show ?thesis
      by (simp add: show_nat.simps [of n] parse_digits_append digit_value)
  qed
qed

lemma show_nat_head: "show_nat n \<noteq> [] \<and> (\<exists>d < 10. hd (show_nat n) = char_of (48 + d :: nat))"
proof (induction n rule: show_nat.induct)
  case (1 n)
  show ?case
    by (cases "n < 10") (use 1 in \<open>auto simp: show_nat.simps [of n]\<close>)
qed

lemma show_nat_no_sign: "\<not> starts_with ''+'' (show_nat n)"
proof
  assume "starts_with ''+'' (show_nat n)"
  then have "hd (show_nat n) = CHR ''+''" by (cases "show_nat n") (auto simp: starts_with_def)
  moreover obtain d :: nat where "d < 10" "hd (show_nat n) = char_of (48 + d)" using show_nat_head by blast
  ultimately have "(of_char (CHR ''+'') :: nat) = 48 + d" by (metis digit_value)
  then show False by simp
qed

text \<open>A number printed in decimal is read back.\<close>

lemma parse_unsigned_show_nat: "n < b \<Longrightarrow> parse_unsigned b (show_nat n) = Some n"
  using show_nat_head [of n] show_nat_no_sign [of n]
  by (simp add: parse_unsigned_def parse_digits_show_nat Let_def)

lemma parse_u32_show_nat [simp]: "parse_u32 (show_nat (unat v)) = Some v"
  using unsigned_less [of v, where 'a = nat] by (simp add: parse_u32_def parse_unsigned_show_nat of_nat_unat)

end
