(* ===== verification/F64.thy ===== *)
theory F64
  imports Prelude
begin

text \<open>
  Rust's \<open>f64\<close>: IEEE 754 binary64 with round-half-to-even. A finite result is the exact real
  result rounded to the 53-bit significand grid (with gradual underflow at exponent -1074); a
  rounded result of magnitude at least \<open>2 ^ 1024\<close> is an infinity. The sign of a zero is not kept:
  no operation of the sources can observe it. The lemmas give what the token bucket and the cost
  formulas rely on: rounding is monotone, keeps signs, and is exact on integers below \<open>2 ^ 53\<close>.
\<close>

datatype f64 = Fin real | PosInf | NegInf | NaN

section \<open>Rounding\<close>

definition rint_even :: "real \<Rightarrow> int" where
  "rint_even x =
     (let n = \<lfloor>x\<rfloor>; d = x - of_int n in
      if d < 1 / 2 then n else if 1 / 2 < d then n + 1 else if even n then n else n + 1)"

definition ulp_exp :: "real \<Rightarrow> int" where
  "ulp_exp x = (if x = 0 then - 1074 else max (\<lfloor>log 2 \<bar>x\<bar>\<rfloor> - 52) (- 1074))"

definition f64_rnd :: "real \<Rightarrow> real" where
  "f64_rnd x = of_int (rint_even (x / 2 powi ulp_exp x)) * 2 powi ulp_exp x"

definition f64_of_real :: "real \<Rightarrow> f64" where
  "f64_of_real x =
     (let r = f64_rnd x in
      if 2 ^ 1024 \<le> r then PosInf else if r \<le> - (2 ^ 1024) then NegInf else Fin r)"

lemma rint_even_of_int [simp]: "rint_even (of_int n) = n"
  by (simp add: rint_even_def)

lemma rint_even_lower:
  assumes "of_int n \<le> x"
  shows "n \<le> rint_even x"
proof -
  have "n \<le> \<lfloor>x\<rfloor>" using assms by (simp add: le_floor_iff)
  then show ?thesis by (auto simp: rint_even_def Let_def)
qed

lemma rint_even_upper:
  assumes "x \<le> of_int n"
  shows "rint_even x \<le> n"
proof (cases "x = of_int n")
  case True
  then show ?thesis by simp
next
  case False
  with assms have "\<lfloor>x\<rfloor> < n" by (simp add: floor_less_iff)
  then show ?thesis by (auto simp: rint_even_def Let_def)
qed

lemma rint_even_mono:
  assumes "x \<le> y"
  shows "rint_even x \<le> rint_even y"
proof -
  have "\<lfloor>x\<rfloor> \<le> \<lfloor>y\<rfloor>" using assms by (rule floor_mono)
  then consider "\<lfloor>x\<rfloor> = \<lfloor>y\<rfloor>" | "\<lfloor>x\<rfloor> + 1 \<le> \<lfloor>y\<rfloor>" by linarith
  then show ?thesis
  proof cases
    case 1
    with assms show ?thesis by (auto simp: rint_even_def Let_def)
  next
    case 2
    have "rint_even x \<le> \<lfloor>x\<rfloor> + 1" by (auto simp: rint_even_def Let_def)
    moreover have "\<lfloor>y\<rfloor> \<le> rint_even y" by (auto simp: rint_even_def Let_def)
    ultimately show ?thesis using 2 by linarith
  qed
qed

lemma f64_rnd_0 [simp]: "f64_rnd 0 = 0"
  using rint_even_of_int [of 0] by (simp add: f64_rnd_def)

lemma f64_rnd_nonneg:
  assumes "0 \<le> x"
  shows "0 \<le> f64_rnd x"
proof -
  have "0 \<le> rint_even (x / 2 powi ulp_exp x)"
    using assms by (intro rint_even_lower) simp
  then show ?thesis by (simp add: f64_rnd_def)
qed

lemma powi_2_split: "(2::real) powi (a + int n) = 2 powi a * 2 ^ n"
  by (simp add: power_int_add)

lemma ulp_exp_mono:
  assumes "0 \<le> x" "x \<le> y"
  shows "ulp_exp x \<le> ulp_exp y"
proof (cases "x = 0")
  case True
  then show ?thesis by (simp add: ulp_exp_def)
next
  case False
  with assms have "log 2 x \<le> log 2 y" by simp
  then have "\<lfloor>log 2 x\<rfloor> \<le> \<lfloor>log 2 y\<rfloor>" by (rule floor_mono)
  with False assms show ?thesis by (auto simp: ulp_exp_def)
qed

lemma powr_floor_log:
  assumes "0 < x"
  shows "2 powi \<lfloor>log 2 x\<rfloor> \<le> x" "x < 2 powi (\<lfloor>log 2 x\<rfloor> + 1)"
proof -
  have x: "2 powr log 2 x = x" using assms by simp
  have "2 powr real_of_int \<lfloor>log 2 x\<rfloor> \<le> 2 powr log 2 x" by simp
  then show "2 powi \<lfloor>log 2 x\<rfloor> \<le> x" using x by (simp add: powr_real_of_int')
  have "log 2 x < real_of_int (\<lfloor>log 2 x\<rfloor> + 1)" by linarith
  then have "2 powr log 2 x < 2 powr real_of_int (\<lfloor>log 2 x\<rfloor> + 1)" by simp
  then have "x < 2 powr real_of_int (\<lfloor>log 2 x\<rfloor> + 1)" using x by simp
  then show "x < 2 powi (\<lfloor>log 2 x\<rfloor> + 1)" by (simp add: powr_real_of_int' del: of_int_add)
qed

lemma below_binade:
  assumes "0 \<le> x"
  shows "x / 2 powi ulp_exp x \<le> 2 ^ 53"
proof (cases "x = 0")
  case True
  then show ?thesis by simp
next
  case False
  with assms have pos: "0 < x" by simp
  let ?k = "\<lfloor>log 2 x\<rfloor>"
  have "x \<le> 2 powi (?k + 1)" using powr_floor_log(2) [OF pos] by simp
  also have "\<dots> \<le> 2 powi (ulp_exp x + int 53)"
    using pos by (intro power_int_increasing) (auto simp: ulp_exp_def)
  also have "\<dots> = 2 powi ulp_exp x * 2 ^ 53" by (rule powi_2_split)
  finally show ?thesis by (simp add: divide_le_eq mult.commute)
qed

lemma above_binade:
  assumes "0 < x" "- 1074 < ulp_exp x"
  shows "2 ^ 52 \<le> x / 2 powi ulp_exp x"
proof -
  have "ulp_exp x + int 52 = \<lfloor>log 2 x\<rfloor>" using assms by (auto simp: ulp_exp_def max_def split: if_splits)
  then have "2 powi (ulp_exp x + int 52) \<le> x" using powr_floor_log(1) [OF assms(1)] by simp
  then have "2 powi ulp_exp x * 2 ^ 52 \<le> x" by (simp only: powi_2_split)
  then show ?thesis by (simp add: le_divide_eq mult.commute)
qed

lemma f64_rnd_mono:
  assumes "0 \<le> x" "x \<le> y"
  shows "f64_rnd x \<le> f64_rnd y"
proof (cases "ulp_exp x = ulp_exp y")
  case True
  have "rint_even (x / 2 powi ulp_exp x) \<le> rint_even (y / 2 powi ulp_exp x)"
    using assms by (intro rint_even_mono divide_right_mono) auto
  then show ?thesis by (simp add: f64_rnd_def True)
next
  case False
  with ulp_exp_mono [OF assms] have less: "ulp_exp x < ulp_exp y" by simp
  have "- 1074 \<le> ulp_exp x" by (simp add: ulp_exp_def)
  with less have y: "- 1074 < ulp_exp y" by simp
  have "0 < y" using assms less by (cases "y = 0") auto
  have "rint_even (x / 2 powi ulp_exp x) \<le> 2 ^ 53"
    using below_binade [OF assms(1)] by (intro rint_even_upper) simp
  then have "of_int (rint_even (x / 2 powi ulp_exp x)) \<le> (2::real) ^ 53"
    by (metis of_int_le_iff of_int_numeral of_int_power)
  then have "f64_rnd x \<le> 2 ^ 53 * 2 powi ulp_exp x"
    unfolding f64_rnd_def by (intro mult_right_mono) auto
  also have "\<dots> = 2 ^ 52 * 2 powi (ulp_exp x + 1)" by (simp add: power_int_add)
  also have "\<dots> \<le> 2 ^ 52 * 2 powi ulp_exp y"
    using less by (intro mult_left_mono power_int_increasing) auto
  also have "\<dots> \<le> of_int (rint_even (y / 2 powi ulp_exp y)) * 2 powi ulp_exp y"
  proof (intro mult_right_mono)
    have "2 ^ 52 \<le> rint_even (y / 2 powi ulp_exp y)"
      using above_binade [OF \<open>0 < y\<close> y] by (intro rint_even_lower) simp
    then show "(2::real) ^ 52 \<le> of_int (rint_even (y / 2 powi ulp_exp y))"
      by (metis of_int_le_iff of_int_numeral of_int_power)
  qed simp
  finally show ?thesis by (simp add: f64_rnd_def)
qed

lemma f64_rnd_of_nat:
  assumes "n \<le> 2 ^ 53"
  shows "f64_rnd (of_nat n) = of_nat n"
proof (cases "n = 0 \<or> n = 2 ^ 53")
  case True
  then show ?thesis
  proof
    assume n: "n = 2 ^ 53"
    have "log 2 (2 ^ 53 :: real) = 53" using log_pow_cancel [of 2 53] by simp
    then have e: "ulp_exp (real n) = 1" unfolding n ulp_exp_def by simp
    have "real n / 2 powi 1 = of_int (2 ^ 52)" unfolding n by simp
    then show ?thesis unfolding f64_rnd_def e by (simp only: rint_even_of_int) (simp add: n)
  qed simp
next
  case False
  then have pos: "0 < n" and lt: "n < 2 ^ 53" using assms by auto
  have "log 2 (real n) < 53" using pos lt by (simp add: log_less_iff)
  then have "ulp_exp (real n) \<le> 0" using pos by (auto simp: ulp_exp_def floor_le_iff)
  then obtain k where k: "ulp_exp (real n) = - int k" by (metis nonpos_int_cases)
  have "real n / 2 powi (- int k) = of_int (int n * 2 ^ k)"
    by (simp add: power_int_minus field_simps)
  then show ?thesis unfolding f64_rnd_def k
    by (simp only: rint_even_of_int) (simp add: power_int_minus field_simps)
qed

section \<open>Operations\<close>

fun f64_neg :: "f64 \<Rightarrow> f64" where
  "f64_neg (Fin a) = Fin (- a)"
| "f64_neg PosInf = NegInf"
| "f64_neg NegInf = PosInf"
| "f64_neg NaN = NaN"

fun f64_add :: "f64 \<Rightarrow> f64 \<Rightarrow> f64" where
  "f64_add (Fin a) (Fin b) = f64_of_real (a + b)"
| "f64_add NaN _ = NaN"
| "f64_add _ NaN = NaN"
| "f64_add PosInf NegInf = NaN"
| "f64_add NegInf PosInf = NaN"
| "f64_add PosInf _ = PosInf"
| "f64_add _ PosInf = PosInf"
| "f64_add NegInf _ = NegInf"
| "f64_add _ NegInf = NegInf"

definition f64_sub :: "f64 \<Rightarrow> f64 \<Rightarrow> f64" where
  "f64_sub x y = f64_add x (f64_neg y)"

fun f64_sgn :: "f64 \<Rightarrow> real" where
  "f64_sgn (Fin a) = sgn a"
| "f64_sgn PosInf = 1"
| "f64_sgn NegInf = - 1"
| "f64_sgn NaN = 0"

definition f64_signed_inf :: "real \<Rightarrow> f64" where
  "f64_signed_inf s = (if 0 < s then PosInf else if s < 0 then NegInf else NaN)"

fun f64_mul :: "f64 \<Rightarrow> f64 \<Rightarrow> f64" where
  "f64_mul (Fin a) (Fin b) = f64_of_real (a * b)"
| "f64_mul x y = f64_signed_inf (f64_sgn x * f64_sgn y)"

fun f64_div :: "f64 \<Rightarrow> f64 \<Rightarrow> f64" where
  "f64_div (Fin a) (Fin b) = (if b = 0 then f64_signed_inf (sgn a) else f64_of_real (a / b))"
| "f64_div NaN _ = NaN"
| "f64_div _ NaN = NaN"
| "f64_div (Fin a) _ = Fin 0"
| "f64_div x (Fin b) = (if b < 0 then f64_neg x else x)"
| "f64_div _ _ = NaN"

fun f64_le :: "f64 \<Rightarrow> f64 \<Rightarrow> bool" where
  "f64_le NaN _ = False"
| "f64_le _ NaN = False"
| "f64_le (Fin a) (Fin b) = (a \<le> b)"
| "f64_le NegInf _ = True"
| "f64_le _ PosInf = True"
| "f64_le _ _ = False"

fun f64_lt :: "f64 \<Rightarrow> f64 \<Rightarrow> bool" where
  "f64_lt (Fin a) (Fin b) = (a < b)"
| "f64_lt NegInf (Fin b) = True"
| "f64_lt NegInf PosInf = True"
| "f64_lt (Fin a) PosInf = True"
| "f64_lt _ _ = False"

text \<open>\<open>f64::min\<close> returns the other operand when one is a NaN.\<close>

definition f64_min :: "f64 \<Rightarrow> f64 \<Rightarrow> f64" where
  "f64_min x y = (if x = NaN then y else if y = NaN then x else if f64_le x y then x else y)"

text \<open>The casts \<open>u64 as f64\<close> and \<open>f64::from(u32)\<close>.\<close>

definition f64_of_u64 :: "u64 \<Rightarrow> f64" where
  "f64_of_u64 w = f64_of_real (of_nat (unat w))"

definition f64_of_u32 :: "u32 \<Rightarrow> f64" where
  "f64_of_u32 w = f64_of_real (of_nat (unat w))"

text \<open>\<open>Duration::as_secs_f64\<close>.\<close>

definition as_secs_f64 :: "duration \<Rightarrow> f64" where
  "as_secs_f64 d =
     f64_add (f64_of_real (of_nat (d div 1000000000)))
       (f64_div (f64_of_real (of_nat (d mod 1000000000))) (Fin 1000000000))"

text \<open>\<open>{:.0}\<close> and \<open>{:.1}\<close> of a non-negative number: half-even rounding of the decimal expansion.\<close>

fun f64_fmt0 :: "f64 \<Rightarrow> string" where
  "f64_fmt0 (Fin a) = show_nat (nat (rint_even a))"
| "f64_fmt0 PosInf = ''inf''"
| "f64_fmt0 NegInf = ''-inf''"
| "f64_fmt0 NaN = ''NaN''"

fun f64_fmt1 :: "f64 \<Rightarrow> string" where
  "f64_fmt1 (Fin a) =
     (let n = nat (rint_even (a * 10)) in show_nat (n div 10) @ ''.'' @ show_nat (n mod 10))"
| "f64_fmt1 x = f64_fmt0 x"

definition f64_nonneg :: "f64 \<Rightarrow> bool" where
  "f64_nonneg x = f64_le (Fin 0) x"

lemma f64_nonneg_simps [simp]:
  "f64_nonneg (Fin a) \<longleftrightarrow> 0 \<le> a"
  "f64_nonneg PosInf"
  "\<not> f64_nonneg NegInf"
  "\<not> f64_nonneg NaN"
  by (simp_all add: f64_nonneg_def)

lemma f64_of_real_0 [simp]: "f64_of_real 0 = Fin 0"
  by (simp add: f64_of_real_def)

lemma f64_of_real_nonneg:
  assumes "0 \<le> x"
  shows "f64_nonneg (f64_of_real x)"
proof -
  have "0 \<le> f64_rnd x" using assms by (rule f64_rnd_nonneg)
  moreover have "- ((2::real) ^ 1024) < 0" by simp
  ultimately show ?thesis by (auto simp: f64_of_real_def Let_def simp del: power_numeral)
qed

lemma f64_of_real_mono:
  assumes "0 \<le> x" "x \<le> y"
  shows "f64_le (f64_of_real x) (f64_of_real y)"
proof -
  have r: "f64_rnd x \<le> f64_rnd y" "0 \<le> f64_rnd x" "0 \<le> f64_rnd y"
    using assms f64_rnd_mono f64_rnd_nonneg by auto
  have "- ((2::real) ^ 1024) < 0" by simp
  with r show ?thesis
    by (auto simp: f64_of_real_def Let_def simp del: power_numeral)
qed

lemma f64_of_real_of_nat [simp]:
  assumes "n \<le> 2 ^ 53"
  shows "f64_of_real (of_nat n) = Fin (of_nat n)"
proof -
  have "real n \<le> 2 ^ 53" using assms by (metis of_nat_le_iff of_nat_numeral of_nat_power)
  also have "(2::real) ^ 53 < 2 ^ 1024" by (rule power_strict_increasing) auto
  finally have "real n < 2 ^ 1024" .
  moreover have "- ((2::real) ^ 1024) < real n"
    by (rule less_le_trans [of _ 0]) auto
  ultimately show ?thesis
    by (simp add: f64_of_real_def f64_rnd_of_nat [OF assms] del: power_numeral)
qed

lemma f64_of_u32_exact [simp]: "f64_of_u32 w = Fin (of_nat (unat w))"
proof -
  have "unat w < 2 ^ 32" using unsigned_less [of w] by simp
  then have "unat w \<le> 2 ^ 53" by simp
  then show ?thesis by (simp add: f64_of_u32_def)
qed

lemma f64_of_u64_finite: "\<exists>a. f64_of_u64 w = Fin a \<and> 0 \<le> a"
proof -
  have "unat w < 2 ^ 64" using unsigned_less [of w] by simp
  then have "real (unat w) \<le> real (2 ^ 64)" by (simp only: of_nat_le_iff)
  then have le: "f64_rnd (real (unat w)) \<le> f64_rnd (real (2 ^ 64))"
    by (intro f64_rnd_mono) simp_all
  have "log 2 (2 ^ 64 :: real) = 64" using log_pow_cancel [of 2 64] by simp
  then have e: "ulp_exp (real (2 ^ 64)) = 12" by (simp add: ulp_exp_def)
  have "real (2 ^ 64) / 2 powi 12 = of_int (2 ^ 52)" by (simp add: power_int_def)
  then have "f64_rnd (real (2 ^ 64)) = of_int (2 ^ 52) * 2 powi 12"
    unfolding f64_rnd_def e by (simp only: rint_even_of_int)
  also have "\<dots> = (2::real) ^ 64" by (simp add: power_int_def)
  also have "\<dots> < 2 ^ 1024" by (rule power_strict_increasing) auto
  finally have "f64_rnd (real (unat w)) < 2 ^ 1024" using le by (rule le_less_trans [rotated])
  moreover have nn: "0 \<le> f64_rnd (real (unat w))" by (rule f64_rnd_nonneg) simp
  moreover have "- ((2::real) ^ 1024) < f64_rnd (real (unat w))"
    using nn by (rule less_le_trans [rotated]) simp
  ultimately show ?thesis by (simp add: f64_of_u64_def f64_of_real_def del: power_numeral)
qed

lemma f64_add_nonneg: "f64_nonneg x \<Longrightarrow> f64_nonneg y \<Longrightarrow> f64_nonneg (f64_add x y)"
  by (cases x; cases y) (auto simp: f64_of_real_nonneg)

lemma f64_mul_Fin_nonneg: "0 \<le> a \<Longrightarrow> 0 \<le> b \<Longrightarrow> f64_nonneg (f64_mul (Fin a) (Fin b))"
  by (simp add: f64_of_real_nonneg)

lemma f64_le_refl: "x \<noteq> NaN \<Longrightarrow> f64_le x x"
  by (cases x) auto

lemma f64_le_trans: "f64_le x y \<Longrightarrow> f64_le y z \<Longrightarrow> f64_le x z"
  by (cases x; cases y; cases z) auto

lemma f64_le_PosInf: "f64_nonneg x \<Longrightarrow> f64_le x PosInf"
  by (cases x) auto

lemma f64_add_mono:
  "f64_nonneg a \<Longrightarrow> f64_nonneg c \<Longrightarrow> f64_le a b \<Longrightarrow> f64_le c d \<Longrightarrow>
   f64_le (f64_add a c) (f64_add b d)"
  by (cases a; cases b; cases c; cases d)
    (auto intro!: f64_of_real_mono f64_le_PosInf f64_of_real_nonneg)

lemma f64_le_nonneg: "f64_nonneg a \<Longrightarrow> f64_le a b \<Longrightarrow> f64_nonneg b"
  unfolding f64_nonneg_def by (rule f64_le_trans)

lemma f64_rnd_powi:
  assumes "- 1022 \<le> k"
  shows "f64_rnd (2 powi k) = 2 powi k"
proof -
  have "(2::real) powi k = 2 powr of_int k" by (simp add: powr_real_of_int')
  then have "log 2 (2 powi k) = of_int k" by simp
  then have e: "ulp_exp (2 powi k) = k - 52" using assms by (simp add: ulp_exp_def)
  have k: "k = (k - 52) + int 52" by simp
  have p: "(2::real) powi k = 2 powi (k - 52) * 2 ^ 52" by (subst k) (rule powi_2_split)
  then have "(2::real) powi k / 2 powi (k - 52) = of_int (2 ^ 52)" by simp
  then have "f64_rnd (2 powi k) = of_int (2 ^ 52) * 2 powi (k - 52)"
    unfolding f64_rnd_def e by (simp only: rint_even_of_int)
  also have "\<dots> = 2 powi k" using p by simp
  finally show ?thesis .
qed

lemma f64_of_real_Fin:
  assumes "0 \<le> x" "x \<le> 2 ^ 1023"
  shows "\<exists>a. f64_of_real x = Fin a \<and> 0 \<le> a"
proof -
  have "f64_rnd x \<le> f64_rnd (2 powi 1023)" using assms by (intro f64_rnd_mono) (simp_all add: power_int_def)
  also have "\<dots> = (2::real) ^ 1023" by (subst f64_rnd_powi) (simp_all add: power_int_def)
  also have "\<dots> < 2 ^ 1024" by (rule power_strict_increasing) auto
  finally have lt: "f64_rnd x < 2 ^ 1024" .
  have nn: "0 \<le> f64_rnd x" using assms(1) by (rule f64_rnd_nonneg)
  then have "- ((2::real) ^ 1024) < f64_rnd x" by (rule less_le_trans [rotated]) simp
  with lt nn show ?thesis by (simp add: f64_of_real_def del: power_numeral)
qed

lemma as_secs_f64_0 [simp]: "as_secs_f64 0 = Fin 0"
  by (simp add: as_secs_f64_def)

lemma as_secs_f64_nonneg: "f64_nonneg (as_secs_f64 d)"
proof -
  have "f64_nonneg (f64_of_real (real (d div 1000000000)))" by (rule f64_of_real_nonneg) simp
  moreover have "d mod 1000000000 \<le> 2 ^ 53"
    by (rule order.trans [of _ 1000000000]) (simp_all add: less_imp_le)
  then have "f64_nonneg (f64_div (f64_of_real (real (d mod 1000000000))) (Fin 1000000000))"
    by (simp add: f64_of_real_nonneg)
  ultimately show ?thesis unfolding as_secs_f64_def by (rule f64_add_nonneg)
qed

lemma f64_of_real_powi:
  assumes "- 1022 \<le> k" "k \<le> 0"
  shows "f64_of_real (2 powi k) = Fin (2 powi k)"
proof -
  have "(2::real) powi k \<le> 2 powi 0" using assms by (intro power_int_increasing) auto
  then have "(2::real) powi k \<le> 1" by simp
  also have "(1::real) < 2 ^ 1024" by (rule one_less_power) auto
  finally have "(2::real) powi k < 2 ^ 1024" .
  moreover have "- ((2::real) ^ 1024) < 2 powi k" by (rule less_le_trans [of _ 0]) auto
  ultimately show ?thesis
    by (simp add: f64_of_real_def f64_rnd_powi [OF assms(1)] del: power_numeral)
qed

text \<open>A positive duration is a positive number of seconds: one nanosecond does not underflow.\<close>

lemma as_secs_f64_pos:
  assumes "0 < d"
  shows "f64_le (Fin (2 powi - 30)) (as_secs_f64 d)"
proof -
  let ?s = "f64_of_real (real (d div 1000000000))"
  let ?n = "f64_div (f64_of_real (real (d mod 1000000000))) (Fin 1000000000)"
  have m: "d mod 1000000000 \<le> 2 ^ 53"
    by (rule order.trans [of _ 1000000000]) (simp_all add: less_imp_le)
  have n: "?n = f64_of_real (real (d mod 1000000000) / 1000000000)" using m by simp
  have tiny: "f64_of_real (2 powi - 30) = Fin (2 powi - 30)" by (rule f64_of_real_powi) auto
  have small: "(2::real) powi - 30 \<le> 1 / 1000000000" by (simp add: power_int_minus)
  show ?thesis
  proof (cases "d div 1000000000 = 0")
    case True
    with assms have "1 \<le> d mod 1000000000" by (simp add: div_eq_0_iff)
    then have "1 \<le> real (d mod 1000000000)" by linarith
    with small have "2 powi - 30 \<le> real (d mod 1000000000) / 1000000000"
      by (simp add: divide_simps)
    then have "f64_le (Fin (2 powi - 30)) ?n"
      unfolding n tiny [symmetric] by (intro f64_of_real_mono) auto
    moreover have "f64_le (Fin 0) ?s" using f64_of_real_nonneg by (simp add: f64_nonneg_def)
    ultimately have "f64_le (f64_add (Fin 0) (Fin (2 powi - 30))) (f64_add ?s ?n)"
      by (intro f64_add_mono) auto
    then show ?thesis
      unfolding as_secs_f64_def by (simp only: f64_add.simps add_0 add_0_right tiny)
  next
    case False
    then have "1 \<le> real (d div 1000000000)" by linarith
    with small have "2 powi - 30 \<le> real (d div 1000000000)" by (simp add: power_int_minus)
    then have "f64_le (Fin (2 powi - 30)) ?s"
      unfolding tiny [symmetric] by (intro f64_of_real_mono) auto
    moreover have "f64_le (Fin 0) ?n" unfolding n using f64_of_real_nonneg by (simp add: f64_nonneg_def)
    ultimately have "f64_le (f64_add (Fin (2 powi - 30)) (Fin 0)) (f64_add ?s ?n)"
      by (intro f64_add_mono) auto
    then show ?thesis
      unfolding as_secs_f64_def by (simp only: f64_add.simps add_0 add_0_right tiny)
  qed
qed

section \<open>Bounded values\<close>

text \<open>
  \<open>f64_upto k x\<close>: a finite number between zero and \<open>2 ^ k\<close>. Sums, products and quotients of such
  numbers do not overflow as long as the exponents stay small.
\<close>

definition f64_upto :: "nat \<Rightarrow> f64 \<Rightarrow> bool" where
  "f64_upto k x \<longleftrightarrow> (\<exists>a. x = Fin a \<and> 0 \<le> a \<and> a \<le> 2 ^ k)"

lemma f64_upto_Fin [simp]: "f64_upto k (Fin a) \<longleftrightarrow> 0 \<le> a \<and> a \<le> 2 ^ k"
  by (simp add: f64_upto_def)

lemma f64_upto_nonneg: "f64_upto k x \<Longrightarrow> f64_nonneg x"
  by (auto simp: f64_upto_def)

lemma f64_upto_mono:
  assumes "f64_upto j x" "j \<le> k"
  shows "f64_upto k x"
proof -
  have "(2::real) ^ j \<le> 2 ^ k" using assms(2) by (intro power_increasing) auto
  moreover obtain a where a: "x = Fin a" "0 \<le> a" "a \<le> 2 ^ j" using assms(1) by (auto simp: f64_upto_def)
  ultimately have "a \<le> 2 ^ k" by (meson order.trans)
  with a show ?thesis by simp
qed

lemma f64_upto_of_real:
  assumes "0 \<le> x" "x \<le> 2 ^ k" "k \<le> 1023"
  shows "f64_upto k (f64_of_real x)"
proof -
  have "x \<le> 2 powi int k" using assms(2) by (simp add: power_int_def)
  then have "f64_rnd x \<le> f64_rnd (2 powi int k)" using assms(1) by (intro f64_rnd_mono) auto
  also have "\<dots> = 2 ^ k" by (subst f64_rnd_powi) (simp_all add: power_int_def)
  finally have le: "f64_rnd x \<le> 2 ^ k" .
  also have "(2::real) ^ k < 2 ^ 1024" using assms(3) by (intro power_strict_increasing) auto
  finally have lt: "f64_rnd x < 2 ^ 1024" .
  have nn: "0 \<le> f64_rnd x" using assms(1) by (rule f64_rnd_nonneg)
  then have "- ((2::real) ^ 1024) < f64_rnd x" by (rule less_le_trans [rotated]) simp
  with lt nn le show ?thesis
    by (simp add: f64_upto_def f64_of_real_def del: power_numeral)
qed

lemma f64_upto_add:
  assumes "f64_upto k x" "f64_upto k y" "k < 1023"
  shows "f64_upto (Suc k) (f64_add x y)"
proof -
  obtain a b where x: "x = Fin a" "0 \<le> a" "a \<le> 2 ^ k" and y: "y = Fin b" "0 \<le> b" "b \<le> 2 ^ k"
    using assms(1,2) by (auto simp: f64_upto_def)
  have "f64_upto (Suc k) (f64_of_real (a + b))"
    using x y assms(3) by (intro f64_upto_of_real) auto
  then show ?thesis by (simp add: x y)
qed

lemma f64_upto_mul:
  assumes "f64_upto j x" "f64_upto k y" "j + k \<le> 1023"
  shows "f64_upto (j + k) (f64_mul x y)"
proof -
  obtain a b where x: "x = Fin a" "0 \<le> a" "a \<le> 2 ^ j" and y: "y = Fin b" "0 \<le> b" "b \<le> 2 ^ k"
    using assms(1,2) by (auto simp: f64_upto_def)
  have "a * b \<le> 2 ^ j * 2 ^ k" using x y by (intro mult_mono) auto
  then have "f64_upto (j + k) (f64_of_real (a * b))"
    using x y assms(3) by (intro f64_upto_of_real) (auto simp: power_add)
  then show ?thesis by (simp add: x y)
qed

lemma f64_upto_div:
  assumes "f64_upto k x" "1 \<le> c" "k \<le> 1023"
  shows "f64_upto k (f64_div x (Fin c))"
proof -
  obtain a where x: "x = Fin a" "0 \<le> a" "a \<le> 2 ^ k" using assms(1) by (auto simp: f64_upto_def)
  have "a / c \<le> a" using x(2) assms(2) mult_left_mono [of 1 c a] by (simp add: divide_le_eq)
  then have "f64_upto k (f64_of_real (a / c))"
    using x assms by (intro f64_upto_of_real) auto
  with assms(2) show ?thesis by (simp add: x)
qed

lemma f64_upto_u64: "f64_upto 64 (f64_of_u64 w)"
proof -
  have "unat w < 2 ^ 64" using unsigned_less [of w] by simp
  then have "real (unat w) \<le> 2 ^ 64" by (metis less_imp_le of_nat_le_iff of_nat_numeral of_nat_power)
  then show ?thesis unfolding f64_of_u64_def by (intro f64_upto_of_real) auto
qed

lemma f64_of_u64_mono: "unat v \<le> unat w \<Longrightarrow> f64_le (f64_of_u64 v) (f64_of_u64 w)"
  unfolding f64_of_u64_def by (intro f64_of_real_mono) auto

lemma f64_mul_Fin_mono:
  "f64_upto j x \<Longrightarrow> f64_upto k y \<Longrightarrow> f64_le x y \<Longrightarrow> 0 \<le> r \<Longrightarrow>
     f64_le (f64_mul x (Fin r)) (f64_mul y (Fin r))"
  by (auto simp: f64_upto_def intro!: f64_of_real_mono mult_right_mono)

lemma f64_div_Fin_mono:
  "f64_upto j x \<Longrightarrow> f64_upto k y \<Longrightarrow> f64_le x y \<Longrightarrow> 0 < c \<Longrightarrow>
     f64_le (f64_div x (Fin c)) (f64_div y (Fin c))"
  by (auto simp: f64_upto_def intro!: f64_of_real_mono divide_right_mono)

end
