(* ===== verification/Json.thy ===== *)
theory Json
  imports F64
begin

text \<open>
  The data of \<open>serde_json\<close> that the sources take apart: the public enum \<open>Value\<close> and the projections
  the sources call on it, each a match on the enum. A JSON object is a \<open>BTreeMap\<close> (the
  \<open>preserve_order\<close> feature is off), so it is an association list with strictly increasing keys;
  \<open>obj_insert\<close> keeps that order. Reading and writing JSON text is the package's own code and is a
  parameter, the record \<open>json_lib\<close>.
\<close>

datatype jnum = PosInt u64 | NegInt int | JFloat f64

datatype json =
    JNull
  | JBool bool
  | JNumber jnum
  | JString string
  | JArray "json list"
  | JObject "(string \<times> json) list"

type_synonym jobject = "(string \<times> json) list"

text \<open>\<open>from_slice\<close> and \<open>to_vec\<close>, with the error's text on the left.\<close>

record json_lib =
  from_slice :: "bytes \<Rightarrow> string + json"
  to_vec :: "json \<Rightarrow> string + bytes"

fun obj_insert :: "string \<Rightarrow> json \<Rightarrow> jobject \<Rightarrow> jobject" where
  "obj_insert k v [] = [(k, v)]"
| "obj_insert k v ((k', v') # kvs) =
     (if k < k' then (k, v) # (k', v') # kvs
      else if k = k' then (k, v) # kvs
      else (k', v') # obj_insert k v kvs)"

fun jget :: "string \<Rightarrow> json \<Rightarrow> json option" where
  "jget k (JObject kvs) = map_of kvs k"
| "jget k _ = None"

fun as_str :: "json \<Rightarrow> string option" where
  "as_str (JString s) = Some s"
| "as_str _ = None"

fun as_bool :: "json \<Rightarrow> bool option" where
  "as_bool (JBool b) = Some b"
| "as_bool _ = None"

fun as_u64 :: "json \<Rightarrow> u64 option" where
  "as_u64 (JNumber (PosInt n)) = Some n"
| "as_u64 _ = None"

fun as_f64 :: "json \<Rightarrow> f64 option" where
  "as_f64 (JNumber (PosInt n)) = Some (f64_of_u64 n)"
| "as_f64 (JNumber (NegInt i)) = Some (f64_of_real (of_int i))"
| "as_f64 (JNumber (JFloat x)) = Some x"
| "as_f64 _ = None"

fun as_array :: "json \<Rightarrow> json list option" where
  "as_array (JArray xs) = Some xs"
| "as_array _ = None"

fun as_object :: "json \<Rightarrow> jobject option" where
  "as_object (JObject kvs) = Some kvs"
| "as_object _ = None"

text \<open>\<open>if let Some(x) = v.get_mut(k) { *x = new }\<close>: an existing member is replaced.\<close>

fun jreplace :: "string \<Rightarrow> json \<Rightarrow> json \<Rightarrow> json" where
  "jreplace k new (JObject kvs) =
     (if map_of kvs k = None then JObject kvs else JObject (obj_insert k new kvs))"
| "jreplace k new v = v"

text \<open>\<open>v.get(k).and_then(Value::as_u64).unwrap_or(0)\<close>, the way every usage field is read.\<close>

definition get_u64 :: "string \<Rightarrow> json \<Rightarrow> u64" where
  "get_u64 k v = unwrap_or 0 (Option.bind (jget k v) as_u64)"

lemma map_of_obj_insert [simp]: "map_of (obj_insert k v kvs) = (map_of kvs)(k \<mapsto> v)"
  by (induction k v kvs rule: obj_insert.induct) auto

lemma jget_obj_insert [simp]:
  "jget k (JObject (obj_insert k' v kvs)) = (if k = k' then Some v else map_of kvs k)"
  by simp

text \<open>The object invariant: strictly increasing keys. Insertion keeps it.\<close>

definition obj_ok :: "jobject \<Rightarrow> bool" where
  "obj_ok kvs = sorted_wrt (<) (map fst kvs)"

lemma set_fst_obj_insert: "fst ` set (obj_insert k v kvs) = insert k (fst ` set kvs)"
  by (induction k v kvs rule: obj_insert.induct) (auto simp: image_iff)

lemma obj_ok_obj_insert: "obj_ok kvs \<Longrightarrow> obj_ok (obj_insert k v kvs)"
proof (induction k v kvs rule: obj_insert.induct)
  case (2 k v k' v' kvs)
  show ?case
  proof (cases "k' < k")
    case True
    have "\<forall>x\<in>fst ` set (obj_insert k v kvs). k' < x"
      unfolding set_fst_obj_insert using 2 True by (auto simp: obj_ok_def)
    with 2 True show ?thesis by (auto simp: obj_ok_def)
  next
    case False
    with 2 show ?thesis by (auto simp: obj_ok_def)
  qed
qed (simp add: obj_ok_def)

lemma jget_jreplace_same: "jget k v \<noteq> None \<Longrightarrow> jget k (jreplace k new v) = Some new"
  by (cases v) auto

lemma jget_jreplace_other: "k \<noteq> k' \<Longrightarrow> jget k (jreplace k' new v) = jget k v"
  by (cases v) auto

lemma jreplace_missing: "jget k v = None \<Longrightarrow> jreplace k new v = v"
  by (cases v) auto

end
