(* ===== verification/Core_Types.thy ===== *)
theory Core_Types
  imports Json
begin

text \<open>
  \<open>crates/core/src/types.rs\<close>, \<open>extensions.rs\<close> and \<open>compression.rs\<close>: API formats and their
  detection from the path, agent types and their detection from the headers, the request and
  response that travel through the middlewares, the connection context with its extension map, and
  the compression statistics stored in it.

  A \<open>HeaderMap\<close> of the \<open>http\<close> package is the list of its entries in iteration order, names in lower
  case; \<open>get\<close> is the first entry, \<open>insert\<close> replaces all entries of a name.
\<close>

section \<open>Headers\<close>

type_synonym header_map = "(string \<times> bytes) list"

definition header_get :: "header_map \<Rightarrow> string \<Rightarrow> bytes option" where
  "header_get h k = map_of h k"

definition contains_key :: "header_map \<Rightarrow> string \<Rightarrow> bool" where
  "contains_key h k = (map_of h k \<noteq> None)"

definition header_insert :: "string \<Rightarrow> bytes \<Rightarrow> header_map \<Rightarrow> header_map" where
  "header_insert k v h = filter (\<lambda>e. fst e \<noteq> k) h @ [(k, v)]"

text \<open>\<open>HeaderValue::to_str\<close>: \<open>Ok\<close> for visible ASCII and tabs only.\<close>

definition visible_ascii :: "char \<Rightarrow> bool" where
  "visible_ascii c = (let n = (of_char c :: nat) in n = 9 \<or> (32 \<le> n \<and> n < 127))"

definition to_str :: "bytes \<Rightarrow> string option" where
  "to_str v = (if list_all visible_ascii v then Some v else None)"

definition header_str :: "header_map \<Rightarrow> string \<Rightarrow> string option" where
  "header_str h k = Option.bind (header_get h k) to_str"

lemma header_get_insert [simp]:
  "header_get (header_insert k v h) k' = (if k' = k then Some v else header_get h k')"
proof -
  have "map_of (filter (\<lambda>e. fst e \<noteq> k) h) k' = (if k' = k then None else map_of h k')"
    by (induction h) auto
  then show ?thesis by (simp add: header_get_def header_insert_def map_add_def split: option.splits)
qed

section \<open>API formats and agents\<close>

text \<open>
  \<open>ApiFormat\<close> is re-exported from \<open>llm_bridge_core\<close> and non-exhaustive: the sources match three
  variants and send every other one to a wildcard arm, here \<open>OtherFormat\<close>.
\<close>

datatype api_format = AnthropicMessages | OpenaiChat | OpenaiResponses | OtherFormat nat

definition detect_api_format :: "string \<Rightarrow> api_format option" where
  "detect_api_format path =
     (if ends_with ''/v1/messages'' path \<or> path = ''/v1/messages'' then Some AnthropicMessages
      else if ends_with ''/v1/chat/completions'' path \<or> path = ''/v1/chat/completions''
        then Some OpenaiChat
      else if ends_with ''/v1/responses'' path \<or> path = ''/v1/responses''
        then Some OpenaiResponses
      else None)"

datatype agent_type = Claude | Codex | Gemini | OpenCode | OpenClaw | Hermes | UnknownAgent

fun agent_type_display :: "agent_type \<Rightarrow> string" where
  "agent_type_display Claude = ''claude-code''"
| "agent_type_display Codex = ''codex''"
| "agent_type_display Gemini = ''gemini''"
| "agent_type_display OpenCode = ''opencode''"
| "agent_type_display OpenClaw = ''openclaw''"
| "agent_type_display Hermes = ''hermes''"
| "agent_type_display UnknownAgent = ''unknown''"

definition agent_of_header :: "string \<Rightarrow> agent_type" where
  "agent_of_header agent =
     (let a = to_lowercase agent in
      if a = ''claude'' \<or> a = ''claude-code'' then Claude
      else if a = ''codex'' then Codex
      else if a = ''gemini'' \<or> a = ''gemini-cli'' then Gemini
      else if a = ''opencode'' then OpenCode
      else if a = ''openclaw'' then OpenClaw
      else if a = ''hermes'' then Hermes
      else UnknownAgent)"

definition agent_of_user_agent :: "string \<Rightarrow> agent_type option" where
  "agent_of_user_agent ua =
     (let u = to_lowercase ua in
      if contains ''claude-code'' u \<or> contains ''claude'' u then Some Claude
      else if contains ''codex'' u then Some Codex
      else if contains ''gemini-cli'' u \<or> contains ''gemini'' u then Some Gemini
      else if contains ''opencode'' u then Some OpenCode
      else if contains ''openclaw'' u then Some OpenClaw
      else if contains ''hermes'' u then Some Hermes
      else None)"

definition agent_of_path :: "header_map \<Rightarrow> string \<Rightarrow> agent_type" where
  "agent_of_path headers path =
     (if contains ''/v1/messages'' path \<and> contains_key headers ''anthropic-beta'' then Claude
      else if contains ''/v1/responses'' path \<and> contains_key headers ''openai-organization''
        then Codex
      else if contains ''/v1/chat/completions'' path \<and> contains_key headers ''x-goog-api-key''
        then Gemini
      else UnknownAgent)"

definition detect_agent_type :: "header_map \<Rightarrow> string \<Rightarrow> agent_type" where
  "detect_agent_type headers path =
     (case header_str headers ''x-agent-type'' of
        Some agent \<Rightarrow> agent_of_header agent
      | None \<Rightarrow>
          (case Option.bind (header_str headers ''user-agent'') agent_of_user_agent of
             Some t \<Rightarrow> t
           | None \<Rightarrow> agent_of_path headers path))"

section \<open>Compression statistics\<close>

record compression_stats =
  tokenless_pre :: u64
  tokenless_post :: u64
  tokenless_experimental :: u64
  proxy_req_pre :: u64
  proxy_req_post :: u64
  proxy_res_pre :: u64
  proxy_res_post :: u64
  stats_rtk_saved :: u64

definition compression_stats_default :: compression_stats where
  "compression_stats_default =
     \<lparr>tokenless_pre = 0, tokenless_post = 0, tokenless_experimental = 0, proxy_req_pre = 0,
      proxy_req_post = 0, proxy_res_pre = 0, proxy_res_post = 0, stats_rtk_saved = 0\<rparr>"

definition saturating_sub :: "u64 \<Rightarrow> u64 \<Rightarrow> u64" where
  "saturating_sub a b = (if b \<le> a then a - b else 0)"

definition tokenless_saved :: "compression_stats \<Rightarrow> u64" where
  "tokenless_saved s = saturating_sub (tokenless_pre s) (tokenless_post s)"

definition proxy_schema_saved :: "compression_stats \<Rightarrow> u64" where
  "proxy_schema_saved s = saturating_sub (proxy_req_pre s) (proxy_req_post s)"

definition proxy_response_saved :: "compression_stats \<Rightarrow> u64" where
  "proxy_response_saved s = saturating_sub (proxy_res_pre s) (proxy_res_post s)"

definition total_saved :: "compression_stats \<Rightarrow> u64" where
  "total_saved s = tokenless_saved s + tokenless_experimental s + proxy_schema_saved s
     + proxy_response_saved s + stats_rtk_saved s"

text \<open>
  \<open>parse_tokenless_json\<close> after deserialisation: the three optional members of the
  \<open>TOKENLESS_TOKENS\<close> object. The deserialiser is the argument \<open>parse\<close>.
\<close>

definition parse_tokenless_json ::
  "(string \<Rightarrow> (u64 option \<times> u64 option \<times> u64 option) option) \<Rightarrow> string \<Rightarrow> compression_stats option"
where
  "parse_tokenless_json parse json =
     (case parse json of
        None \<Rightarrow> None
      | Some (pre, post, experimental) \<Rightarrow>
          Some (compression_stats_default
            \<lparr>tokenless_pre := unwrap_or 0 pre, tokenless_post := unwrap_or 0 post,
             tokenless_experimental := unwrap_or 0 experimental\<rparr>))"

definition read_tokenless_stats ::
  "(string \<Rightarrow> (u64 option \<times> u64 option \<times> u64 option) option) \<Rightarrow> string option \<Rightarrow> compression_stats"
where
  "read_tokenless_stats parse env_value =
     (case env_value of
        None \<Rightarrow> compression_stats_default
      | Some value \<Rightarrow>
          if value = [] then compression_stats_default
          else unwrap_or compression_stats_default (parse_tokenless_json parse value))"

lemma unat_saturating_sub: "unat (saturating_sub a b) = unat a - unat b"
  by (auto simp: saturating_sub_def unat_sub word_le_nat_alt)

section \<open>Requests, responses\<close>

record proxy_request =
  req_method :: string
  req_path :: string
  req_headers :: header_map
  req_body :: bytes

definition is_streaming :: "json_lib \<Rightarrow> proxy_request \<Rightarrow> bool" where
  "is_streaming J req =
     (case from_slice J (req_body req) of
        Inl _ \<Rightarrow> False
      | Inr v \<Rightarrow> unwrap_or False (Option.bind (jget ''stream'' v) as_bool))"

type_synonym status = nat

record proxy_response =
  res_status :: status
  res_headers :: header_map
  res_body :: bytes
  res_is_streaming :: bool

text \<open>\<open>StatusCode::is_server_error\<close>, \<open>is_client_error\<close>, \<open>is_success\<close>.\<close>

definition is_server_error :: "status \<Rightarrow> bool" where
  "is_server_error s = (500 \<le> s \<and> s < 600)"

definition is_client_error :: "status \<Rightarrow> bool" where
  "is_client_error s = (400 \<le> s \<and> s < 500)"

definition is_success :: "status \<Rightarrow> bool" where
  "is_success s = (200 \<le> s \<and> s < 300)"

section \<open>Formats are a function of the path suffix\<close>

lemma detect_api_format_messages:
  "detect_api_format (pre @ ''/v1/messages'') = Some AnthropicMessages"
  by (auto simp: detect_api_format_def ends_with_iff)

lemma ends_with_same_last:
  "ends_with p s \<Longrightarrow> p \<noteq> [] \<Longrightarrow> s \<noteq> [] \<and> last s = last p"
  by (auto simp: ends_with_iff)

lemma ends_with_drop:
  "ends_with p (r @ q) \<Longrightarrow> length p \<le> length q \<Longrightarrow> ends_with p q"
  by (auto simp: ends_with_def)

lemma detect_api_format_chat:
  "detect_api_format (pre @ ''/v1/chat/completions'') = Some OpenaiChat"
proof -
  have "\<not> ends_with ''/v1/messages'' (pre @ ''/v1/chat/completions'')"
  proof
    assume "ends_with ''/v1/messages'' (pre @ ''/v1/chat/completions'')"
    then have "ends_with ''/v1/messages'' ''/v1/chat/completions''" by (rule ends_with_drop) simp
    then show False by (simp add: ends_with_def)
  qed
  then show ?thesis by (auto simp: detect_api_format_def ends_with_iff)
qed

lemma detect_api_format_responses:
  "detect_api_format (pre @ ''/v1/responses'') = Some OpenaiResponses"
proof -
  have "\<not> ends_with ''/v1/messages'' (pre @ ''/v1/responses'')"
  proof
    assume "ends_with ''/v1/messages'' (pre @ ''/v1/responses'')"
    then have "ends_with ''/v1/messages'' ''/v1/responses''" by (rule ends_with_drop) simp
    then show False by (simp add: ends_with_def)
  qed
  moreover have "\<not> ends_with ''/v1/chat/completions'' (pre @ ''/v1/responses'')"
  proof
    assume e: "ends_with ''/v1/chat/completions'' (pre @ ''/v1/responses'')"
    then obtain r where "pre @ ''/v1/responses'' = r @ ''/v1/chat/completions''"
      by (auto simp: ends_with_iff)
    then have "drop (length (pre @ ''/v1/responses'') - 5) (pre @ ''/v1/responses'')
      = drop (length (r @ ''/v1/chat/completions'') - 5) (r @ ''/v1/chat/completions'')" by simp
    then show False by simp
  qed
  ultimately show ?thesis by (auto simp: detect_api_format_def ends_with_iff)
qed

end
