(* ===== verification/Router_Types.thy ===== *)
theory Router_Types
  imports Core_Types
begin

text \<open>
  \<open>crates/model-router/src/types.rs\<close>: pricing formulas, billing modes, the monthly quota counter of a
  flat-fee mapping and the health state of a channel with its cooldowns. The clock readings
  (\<open>Instant::now\<close>, \<open>chrono::Utc::now\<close>) are arguments. The lemmas give the behaviour of every
  counter operation, the invariant of the health state over every sequence of events, and how long
  each kind of failure keeps a channel out of selection.
\<close>

section \<open>Pricing and billing\<close>

datatype billing_dimension = Tokens | DurationDim "string option" | Images "string option"

datatype tier_price =
    TokenPrice f64 f64 "f64 option" "f64 option" "f64 option"
  | UnitPrice f64

record pricing_tier =
  up_to :: "u64 option"
  price :: tier_price

datatype pricing =
    PerToken f64 f64 "f64 option" "f64 option" "f64 option" string
  | Credits "f64 option" "f64 option" "f64 option"
  | CharBased f64 "f64 option"
  | PerUnit billing_dimension f64 string
  | Tiered billing_dimension "pricing_tier list" string

definition default_currency :: string where
  "default_currency = ''USD''"

datatype quota = Unlimited | MaxRequests u64 | MaxTokens u64

datatype exhausted_action = FallbackToMetered | Block

datatype channel_billing =
    Metered pricing
  | FlatFee "f64 option" "quota option" exhausted_action

text \<open>
  The two JSON deserialisers are arguments: of a \<open>Pricing\<close> and of the members of the local
  \<open>FlatFeeConfig\<close>.
\<close>

record billing_parsers =
  parse_pricing :: "string \<Rightarrow> string + pricing"
  parse_flat_fee :: "string \<Rightarrow> (f64 option \<times> quota option \<times> exhausted_action option) option"

definition channel_billing_from_storage ::
  "billing_parsers \<Rightarrow> string \<Rightarrow> string \<Rightarrow> string + channel_billing" where
  "channel_billing_from_storage P billing_str pricing_json =
     (if billing_str = ''metered'' then
        (case parse_pricing P pricing_json of
           Inl e \<Rightarrow> Inl (''failed to parse pricing JSON: '' @ e)
         | Inr p \<Rightarrow> Inr (Metered p))
      else if billing_str = ''flatfee'' then
        (let (hint, q, act) = unwrap_or (None, None, None) (parse_flat_fee P pricing_json) in
         Inr (FlatFee hint q (unwrap_or FallbackToMetered act)))
      else Inl (''unknown billing type: '' @ billing_str))"

fun is_flat_fee :: "channel_billing \<Rightarrow> bool" where
  "is_flat_fee (FlatFee _ _ _) = True"
| "is_flat_fee (Metered _) = False"

fun billing_pricing :: "channel_billing \<Rightarrow> pricing option" where
  "billing_pricing (Metered p) = Some p"
| "billing_pricing (FlatFee _ _ _) = None"

lemma is_flat_fee_iff: "is_flat_fee b \<longleftrightarrow> billing_pricing b = None"
  by (cases b) auto

section \<open>Monthly quota\<close>

record quota_usage =
  requests_this_month :: u64
  tokens_this_month :: u64
  month_key :: u32

text \<open>\<open>u32::try_from(now.year()).unwrap_or(2026) * 12 + now.month()\<close>, from the UTC year and month.\<close>

definition current_month_key :: "int \<Rightarrow> u32 \<Rightarrow> u32" where
  "current_month_key year month =
     (if 0 \<le> year \<and> year < 2 ^ 32 then word_of_int year else 2026) * 12 + month"

definition quota_usage_new :: "u32 \<Rightarrow> quota_usage" where
  "quota_usage_new cur = \<lparr>requests_this_month = 0, tokens_this_month = 0, month_key = cur\<rparr>"

definition maybe_reset :: "u32 \<Rightarrow> quota_usage \<Rightarrow> quota_usage" where
  "maybe_reset cur u =
     (if cur \<noteq> month_key u
      then u\<lparr>requests_this_month := 0, tokens_this_month := 0, month_key := cur\<rparr>
      else u)"

definition record_usage :: "u32 \<Rightarrow> u64 \<Rightarrow> quota_usage \<Rightarrow> quota_usage" where
  "record_usage cur tokens u =
     (let u = maybe_reset cur u in
      u\<lparr>requests_this_month := requests_this_month u + 1,
        tokens_this_month := tokens_this_month u + tokens\<rparr>)"

fun is_within_quota :: "quota_usage \<Rightarrow> quota option \<Rightarrow> bool" where
  "is_within_quota u None = True"
| "is_within_quota u (Some Unlimited) = True"
| "is_within_quota u (Some (MaxRequests per_month)) = (requests_this_month u < per_month)"
| "is_within_quota u (Some (MaxTokens per_month)) = (tokens_this_month u < per_month)"

lemma record_usage_month [simp]: "month_key (record_usage cur t u) = cur"
  by (simp add: record_usage_def maybe_reset_def Let_def)

lemma record_usage_same_month:
  "month_key u = cur \<Longrightarrow>
     requests_this_month (record_usage cur t u) = requests_this_month u + 1 \<and>
     tokens_this_month (record_usage cur t u) = tokens_this_month u + t"
  by (simp add: record_usage_def maybe_reset_def)

lemma record_usage_new_month:
  "month_key u \<noteq> cur \<Longrightarrow>
     requests_this_month (record_usage cur t u) = 1 \<and> tokens_this_month (record_usage cur t u) = t"
  by (simp add: record_usage_def maybe_reset_def Let_def)

lemma fold_record_usage:
  "month_key u = cur \<Longrightarrow>
     requests_this_month (fold (record_usage cur) ts u)
       = requests_this_month u + of_nat (length ts) \<and>
     tokens_this_month (fold (record_usage cur) ts u) = tokens_this_month u + sum_list ts \<and>
     month_key (fold (record_usage cur) ts u) = cur"
proof (induction ts arbitrary: u)
  case (Cons t ts)
  have "month_key (record_usage cur t u) = cur" by simp
  from Cons.IH [OF this] record_usage_same_month [OF Cons.prems] show ?case
    by (simp add: algebra_simps)
qed simp

section \<open>Channel health\<close>

datatype channel_health = Healthy | Unhealthy

record channel_state =
  health :: channel_health
  failed_at :: "instant option"
  consecutive_failures :: u32

definition channel_state_new :: channel_state where
  "channel_state_new = \<lparr>health = Healthy, failed_at = None, consecutive_failures = 0\<rparr>"

definition record_failure :: "instant \<Rightarrow> channel_state \<Rightarrow> channel_state" where
  "record_failure now s =
     (let s = s\<lparr>consecutive_failures := consecutive_failures s + 1\<rparr> in
      if 3 \<le> consecutive_failures s then s\<lparr>health := Unhealthy, failed_at := Some now\<rparr> else s)"

definition record_success :: "channel_state \<Rightarrow> channel_state" where
  "record_success s = s\<lparr>consecutive_failures := 0, health := Healthy, failed_at := None\<rparr>"

definition mark_unhealthy :: "instant \<Rightarrow> channel_state \<Rightarrow> channel_state" where
  "mark_unhealthy now s =
     s\<lparr>consecutive_failures := 3, health := Unhealthy, failed_at := Some now\<rparr>"

definition mark_rate_limited :: "instant \<Rightarrow> channel_state \<Rightarrow> channel_state" where
  "mark_rate_limited now s =
     s\<lparr>consecutive_failures := 1, health := Unhealthy, failed_at := Some now\<rparr>"

definition secs :: "nat \<Rightarrow> duration" where
  "secs n = n * 1000000000"

definition millis :: "nat \<Rightarrow> duration" where
  "millis n = n * 1000000"

text \<open>\<open>Duration * u32\<close> panics, here \<open>None\<close>, when the seconds do not fit 64 bits.\<close>

definition duration_mul :: "duration \<Rightarrow> nat \<Rightarrow> duration option" where
  "duration_mul d k = (if d * k < 2 ^ 64 * 1000000000 then Some (d * k) else None)"

definition exponential_cooldown :: "u32 \<Rightarrow> duration \<Rightarrow> duration option" where
  "exponential_cooldown failures base =
     (if failures \<le> 1 then Some base
      else if failures = 2 then duration_mul base 5
      else duration_mul base 15)"

text \<open>\<open>Instant::elapsed\<close> saturates at zero, as \<open>nat\<close> subtraction does.\<close>

definition elapsed :: "instant \<Rightarrow> instant \<Rightarrow> duration" where
  "elapsed now t = now - t"

text \<open>
  The base of this method is the constant 60 s, for which \<open>exponential_cooldown\<close> does not panic
  (lemma \<open>exponential_cooldown_base\<close>); the branch \<open>None\<close> is never taken.
\<close>

definition is_tryable_past_cooldown :: "instant \<Rightarrow> channel_state \<Rightarrow> bool" where
  "is_tryable_past_cooldown now s =
     (case health s of
        Healthy \<Rightarrow> True
      | Unhealthy \<Rightarrow>
          (case (if consecutive_failures s \<le> 1 then Some (secs 30)
                 else exponential_cooldown (consecutive_failures s) (secs 60)) of
             None \<Rightarrow> False
           | Some effective \<Rightarrow> is_none_or (\<lambda>t. effective \<le> elapsed now t) (failed_at s)))"

definition is_tryable :: "instant \<Rightarrow> duration \<Rightarrow> channel_state \<Rightarrow> bool option" where
  "is_tryable now base s =
     (case health s of
        Healthy \<Rightarrow> Some True
      | Unhealthy \<Rightarrow>
          (case exponential_cooldown (consecutive_failures s) base of
             None \<Rightarrow> None
           | Some effective \<Rightarrow> Some (is_none_or (\<lambda>t. effective \<le> elapsed now t) (failed_at s))))"

lemma exponential_cooldown_base:
  "exponential_cooldown n (secs 60) =
     Some (if n \<le> 1 then secs 60 else if n = 2 then secs 300 else secs 900)"
  by (simp add: exponential_cooldown_def duration_mul_def secs_def)

lemma exponential_cooldown_total:
  "base < 2 ^ 64 * 1000000000 div 15 \<Longrightarrow> exponential_cooldown n base \<noteq> None"
  by (auto simp: exponential_cooldown_def duration_mul_def)

subsection \<open>The events of a channel\<close>

datatype health_event = Failure instant | Success | ServerError instant | RateLimit instant

fun health_step :: "channel_state \<Rightarrow> health_event \<Rightarrow> channel_state" where
  "health_step s (Failure now) = record_failure now s"
| "health_step s Success = record_success s"
| "health_step s (ServerError now) = mark_unhealthy now s"
| "health_step s (RateLimit now) = mark_rate_limited now s"

inductive health_reachable :: "channel_state \<Rightarrow> bool" where
  health_start: "health_reachable channel_state_new"
| health_next: "health_reachable s \<Longrightarrow> health_reachable (health_step s e)"

definition health_inv :: "channel_state \<Rightarrow> bool" where
  "health_inv s \<longleftrightarrow>
     (health s = Unhealthy \<longleftrightarrow> failed_at s \<noteq> None) \<and>
     (health s = Healthy \<longrightarrow> consecutive_failures s < 3)"

lemmas health_defs = record_failure_def record_success_def mark_unhealthy_def mark_rate_limited_def

lemma health_inv_new: "health_inv channel_state_new"
  by (simp add: health_inv_def channel_state_new_def)

lemma three_le_one [simp]: "\<not> (3::u32) \<le> 1"
  by (simp add: word_le_nat_alt)

lemma health_inv_step: "health_inv s \<Longrightarrow> health_inv (health_step s e)"
  by (cases e) (auto simp: health_inv_def health_defs Let_def)

lemma reachable_health_inv: "health_reachable s \<Longrightarrow> health_inv s"
  by (induction rule: health_reachable.induct) (auto intro: health_inv_new health_inv_step)

lemma mark_unhealthy_cooldown [health_intros]:
  "is_tryable_past_cooldown now (mark_unhealthy t s) \<longleftrightarrow> secs 900 \<le> now - t"
  by (simp add: is_tryable_past_cooldown_def mark_unhealthy_def exponential_cooldown_base elapsed_def)

lemma mark_rate_limited_cooldown [health_intros]:
  "is_tryable_past_cooldown now (mark_rate_limited t s) \<longleftrightarrow> secs 30 \<le> now - t"
  by (simp add: is_tryable_past_cooldown_def mark_rate_limited_def elapsed_def)

lemma record_success_tryable [health_intros]: "is_tryable_past_cooldown now (record_success s)"
  by (simp add: is_tryable_past_cooldown_def record_success_def)

lemma healthy_tryable [health_intros]: "health s = Healthy \<Longrightarrow> is_tryable_past_cooldown now s"
  by (simp add: is_tryable_past_cooldown_def)

text \<open>
  Whatever happened before, a channel is tried again after at most 900 s: the longest cooldown.
\<close>

lemma tryable_after_900:
  "\<forall>t. failed_at s = Some t \<longrightarrow> t + secs 900 \<le> now \<Longrightarrow> is_tryable_past_cooldown now s"
  unfolding is_tryable_past_cooldown_def exponential_cooldown_base
  by (cases "failed_at s") (auto simp: elapsed_def secs_def split: channel_health.splits)

end
