(* ===== verification/Proxy_Error.thy ===== *)
theory Proxy_Error
  imports Router_Types
begin

text \<open>
  \<open>crates/core/src/error.rs\<close>: the error type of the whole proxy and its translation into an HTTP
  response. The chained diagnostic of \<open>Upstream\<close> and the \<open>anyhow\<close> value of \<open>Internal\<close> are only
  logged; \<open>Internal\<close> carries its text. \<open>to_response\<close>, \<open>status_code\<close> and \<open>error_code\<close> are three
  independent matches in the source and three independent functions here.
\<close>

datatype proxy_error =
    Upstream string
  | ProtocolConversion string
  | ChannelSelection string
  | Compression string
  | BadRequest string
  | Unauthorized
  | RateLimited duration
  | CircuitOpen string
  | Internal string

record error_body =
  code :: string
  message :: string
  detail :: "string option"

definition error_body_new :: "string \<Rightarrow> string \<Rightarrow> error_body" where
  "error_body_new c m = \<lparr>code = c, message = m, detail = None\<rparr>"

definition error_body_with_detail :: "string \<Rightarrow> string \<Rightarrow> string \<Rightarrow> error_body" where
  "error_body_with_detail c m d = \<lparr>code = c, message = m, detail = Some d\<rparr>"

fun error_to_response :: "proxy_error \<Rightarrow> status \<times> error_body" where
  "error_to_response (BadRequest msg) = (400, error_body_new ''bad_request'' msg)"
| "error_to_response Unauthorized =
     (401, error_body_new ''unauthorized'' ''invalid proxy API key'')"
| "error_to_response (RateLimited retry_after) =
     (let s = as_secs_f64 retry_after;
          resp = error_body_new ''rate_limited''
            (''rate limit exceeded, retry after '' @ f64_fmt1 s @ ''s'')
      in (429, resp\<lparr>detail := Some (''retry_after_seconds: '' @ f64_fmt0 s)\<rparr>))"
| "error_to_response (Upstream source) =
     (if contains ''429'' source
      then (429, error_body_new ''upstream_rate_limited'' ''upstream rate limited'')
      else (502, error_body_new ''upstream_error'' source))"
| "error_to_response (ProtocolConversion msg) = (502, error_body_new ''protocol_conversion'' msg)"
| "error_to_response (ChannelSelection model) =
     (503, error_body_new ''no_channel'' (''no channel available for model '' @ [CHR 0x27] @ model @ [CHR 0x27]))"
| "error_to_response (CircuitOpen channel) =
     (503, error_body_new ''circuit_open''
       (''circuit breaker open for channel '' @ [CHR 0x27] @ channel @ [CHR 0x27]))"
| "error_to_response (Compression msg) = (500, error_body_new ''compression_error'' msg)"
| "error_to_response (Internal _) =
     (500, error_body_new ''internal_error'' ''internal server error'')"

fun status_code :: "proxy_error \<Rightarrow> status" where
  "status_code (BadRequest _) = 400"
| "status_code Unauthorized = 401"
| "status_code (RateLimited _) = 429"
| "status_code (Upstream source) = (if contains ''429'' source then 429 else 502)"
| "status_code (ProtocolConversion _) = 502"
| "status_code (CircuitOpen _) = 503"
| "status_code (ChannelSelection _) = 503"
| "status_code (Compression _) = 500"
| "status_code (Internal _) = 500"

fun error_code :: "proxy_error \<Rightarrow> string" where
  "error_code (BadRequest _) = ''bad_request''"
| "error_code Unauthorized = ''unauthorized''"
| "error_code (RateLimited _) = ''rate_limited''"
| "error_code (Upstream source) =
     (if contains ''429'' source then ''upstream_rate_limited'' else ''upstream_error'')"
| "error_code (ProtocolConversion _) = ''protocol_conversion''"
| "error_code (CircuitOpen _) = ''circuit_open''"
| "error_code (ChannelSelection _) = ''no_channel''"
| "error_code (Compression _) = ''compression_error''"
| "error_code (Internal _) = ''internal_error''"

lemma error_to_response_status: "fst (error_to_response e) = status_code e"
  by (cases e) (auto simp: Let_def)

lemma error_to_response_code: "code (snd (error_to_response e)) = error_code e"
  by (cases e) (auto simp: error_body_new_def Let_def)

lemma status_code_range: "status_code e \<in> {400, 401, 429, 500, 502, 503}"
  by (cases e) auto

end
