(* ===== verification/Context.thy ===== *)
theory Context
  imports Proxy_Error
begin

text \<open>
  The connection context of \<open>crates/core/src/types.rs\<close> with its extension map, the keys of
  \<open>extensions.rs\<close>, and the two values the router stores in it. The map's values are boxed
  \<open>dyn Any\<close>: the datatype \<open>ext_val\<close> has one constructor per type that any middleware inserts, and
  \<open>ctx_get\<close> with a downcast function is the typed \<open>get::<T>\<close> that answers \<open>None\<close> on another type.
\<close>

record channel_config =
  cc_url :: string
  cc_api_key :: string
  cc_protocol :: api_format
  cc_name :: string
  cc_rewrite_path :: "string option"

record selected_mapping_info =
  smi_channel_id :: string
  smi_mapping_id :: string
  smi_client_name :: string
  smi_upstream_name :: string
  smi_is_flat_fee :: bool
  smi_pricing :: "pricing option"
  smi_pricing_snapshot_json :: string

datatype ext_val =
    ExtChannel channel_config
  | ExtMapping selected_mapping_info
  | ExtStats compression_stats
  | ExtBool bool
  | ExtJson json
  | ExtU32 u32

definition EXT_STATS_RECORD :: string where
  "EXT_STATS_RECORD = ''stats_record''"

definition EXT_SELECTED_CHANNEL :: string where
  "EXT_SELECTED_CHANNEL = ''selected_channel''"

definition EXT_SELECTED_MAPPING :: string where
  "EXT_SELECTED_MAPPING = ''selected_mapping''"

definition EXT_BRIDGE_REVERSE :: string where
  "EXT_BRIDGE_REVERSE = ''bridge_reverse''"

definition EXT_COMPRESSION_STATS :: string where
  "EXT_COMPRESSION_STATS = ''compression_stats''"

definition EXT_RETRYABLE :: string where
  "EXT_RETRYABLE = ''retryable''"

record connection_context =
  request_id :: u64
  ctx_agent_type :: agent_type
  agent_role :: "string option"
  detected_format :: "api_format option"
  started_at :: instant
  target_protocol :: "api_format option"
  extensions :: "ext_val hashmap"
  session_id :: "string option"
  project_path :: "string option"
  user_name :: "string option"
  tokenless_saved_tokens :: u64
  tokenless_rtk_saved :: u64
  tokenless_response_saved :: u64
  tokenless_schema_saved :: u64
  tokenless_breakdown_json :: "string option"

definition connection_context_new ::
  "instant \<Rightarrow> u64 \<Rightarrow> agent_type \<Rightarrow> string option \<Rightarrow> api_format option \<Rightarrow> connection_context" where
  "connection_context_new now rid agent role fmt =
     \<lparr>request_id = rid, ctx_agent_type = agent, agent_role = role, detected_format = fmt,
      started_at = now, target_protocol = None, extensions = Map.empty, session_id = None,
      project_path = None, user_name = None, tokenless_saved_tokens = 0, tokenless_rtk_saved = 0,
      tokenless_response_saved = 0, tokenless_schema_saved = 0, tokenless_breakdown_json = None\<rparr>"

definition ctx_insert :: "string \<Rightarrow> ext_val \<Rightarrow> connection_context \<Rightarrow> connection_context" where
  "ctx_insert key v ctx = ctx\<lparr>extensions := (extensions ctx)(key \<mapsto> v)\<rparr>"

definition ctx_get :: "(ext_val \<Rightarrow> 'a option) \<Rightarrow> string \<Rightarrow> connection_context \<Rightarrow> 'a option" where
  "ctx_get downcast key ctx = Option.bind (extensions ctx key) downcast"

fun dc_channel :: "ext_val \<Rightarrow> channel_config option" where
  "dc_channel (ExtChannel c) = Some c"
| "dc_channel _ = None"

fun dc_mapping :: "ext_val \<Rightarrow> selected_mapping_info option" where
  "dc_mapping (ExtMapping m) = Some m"
| "dc_mapping _ = None"

fun dc_stats :: "ext_val \<Rightarrow> compression_stats option" where
  "dc_stats (ExtStats s) = Some s"
| "dc_stats _ = None"

fun dc_bool :: "ext_val \<Rightarrow> bool option" where
  "dc_bool (ExtBool b) = Some b"
| "dc_bool _ = None"

fun dc_u32 :: "ext_val \<Rightarrow> u32 option" where
  "dc_u32 (ExtU32 n) = Some n"
| "dc_u32 _ = None"

abbreviation selected_channel :: "connection_context \<Rightarrow> channel_config option" where
  "selected_channel ctx \<equiv> ctx_get dc_channel EXT_SELECTED_CHANNEL ctx"

abbreviation selected_mapping :: "connection_context \<Rightarrow> selected_mapping_info option" where
  "selected_mapping ctx \<equiv> ctx_get dc_mapping EXT_SELECTED_MAPPING ctx"

text \<open>
  \<open>ctx.get::<ChannelConfig>(EXT_SELECTED_CHANNEL).map(|ch| ch.name.clone()).unwrap_or_default()\<close>,
  the key under which the resilience middlewares and the router's response hook keep a channel.
\<close>

definition channel_key :: "connection_context \<Rightarrow> string" where
  "channel_key ctx = unwrap_or [] (map_option cc_name (selected_channel ctx))"

lemma ext_keys_distinct [simp]:
  "EXT_SELECTED_CHANNEL \<noteq> EXT_SELECTED_MAPPING" "EXT_SELECTED_MAPPING \<noteq> EXT_SELECTED_CHANNEL"
  "EXT_SELECTED_CHANNEL \<noteq> EXT_BRIDGE_REVERSE" "EXT_BRIDGE_REVERSE \<noteq> EXT_SELECTED_CHANNEL"
  "EXT_SELECTED_CHANNEL \<noteq> EXT_STATS_RECORD" "EXT_STATS_RECORD \<noteq> EXT_SELECTED_CHANNEL"
  "EXT_SELECTED_CHANNEL \<noteq> EXT_COMPRESSION_STATS" "EXT_COMPRESSION_STATS \<noteq> EXT_SELECTED_CHANNEL"
  "EXT_SELECTED_CHANNEL \<noteq> EXT_RETRYABLE" "EXT_RETRYABLE \<noteq> EXT_SELECTED_CHANNEL"
  "EXT_SELECTED_MAPPING \<noteq> EXT_BRIDGE_REVERSE" "EXT_BRIDGE_REVERSE \<noteq> EXT_SELECTED_MAPPING"
  "EXT_SELECTED_MAPPING \<noteq> EXT_STATS_RECORD" "EXT_STATS_RECORD \<noteq> EXT_SELECTED_MAPPING"
  "EXT_SELECTED_MAPPING \<noteq> EXT_COMPRESSION_STATS" "EXT_COMPRESSION_STATS \<noteq> EXT_SELECTED_MAPPING"
  "EXT_SELECTED_MAPPING \<noteq> EXT_RETRYABLE" "EXT_RETRYABLE \<noteq> EXT_SELECTED_MAPPING"
  "EXT_BRIDGE_REVERSE \<noteq> EXT_STATS_RECORD" "EXT_STATS_RECORD \<noteq> EXT_BRIDGE_REVERSE"
  "EXT_BRIDGE_REVERSE \<noteq> EXT_COMPRESSION_STATS" "EXT_COMPRESSION_STATS \<noteq> EXT_BRIDGE_REVERSE"
  "EXT_BRIDGE_REVERSE \<noteq> EXT_RETRYABLE" "EXT_RETRYABLE \<noteq> EXT_BRIDGE_REVERSE"
  "EXT_STATS_RECORD \<noteq> EXT_COMPRESSION_STATS" "EXT_COMPRESSION_STATS \<noteq> EXT_STATS_RECORD"
  "EXT_STATS_RECORD \<noteq> EXT_RETRYABLE" "EXT_RETRYABLE \<noteq> EXT_STATS_RECORD"
  "EXT_COMPRESSION_STATS \<noteq> EXT_RETRYABLE" "EXT_RETRYABLE \<noteq> EXT_COMPRESSION_STATS"
  by (simp_all add: EXT_SELECTED_CHANNEL_def EXT_SELECTED_MAPPING_def EXT_BRIDGE_REVERSE_def
      EXT_STATS_RECORD_def EXT_COMPRESSION_STATS_def EXT_RETRYABLE_def)

lemma ctx_get_insert [ctx_simps]:
  "ctx_get dc k (ctx_insert k' v ctx) = (if k = k' then dc v else ctx_get dc k ctx)"
  by (simp add: ctx_get_def ctx_insert_def)

lemma ctx_insert_fields [ctx_simps]:
  "request_id (ctx_insert k v ctx) = request_id ctx"
  "ctx_agent_type (ctx_insert k v ctx) = ctx_agent_type ctx"
  "agent_role (ctx_insert k v ctx) = agent_role ctx"
  "detected_format (ctx_insert k v ctx) = detected_format ctx"
  "started_at (ctx_insert k v ctx) = started_at ctx"
  "target_protocol (ctx_insert k v ctx) = target_protocol ctx"
  "session_id (ctx_insert k v ctx) = session_id ctx"
  "project_path (ctx_insert k v ctx) = project_path ctx"
  "user_name (ctx_insert k v ctx) = user_name ctx"
  "tokenless_saved_tokens (ctx_insert k v ctx) = tokenless_saved_tokens ctx"
  "tokenless_rtk_saved (ctx_insert k v ctx) = tokenless_rtk_saved ctx"
  "tokenless_response_saved (ctx_insert k v ctx) = tokenless_response_saved ctx"
  "tokenless_schema_saved (ctx_insert k v ctx) = tokenless_schema_saved ctx"
  "tokenless_breakdown_json (ctx_insert k v ctx) = tokenless_breakdown_json ctx"
  by (simp_all add: ctx_insert_def)

lemma ctx_get_target_protocol [ctx_simps]:
  "ctx_get dc k (ctx\<lparr>target_protocol := p\<rparr>) = ctx_get dc k ctx"
  by (simp add: ctx_get_def)

lemma ctx_get_new [ctx_simps]:
  "ctx_get dc k (connection_context_new now rid agent role fmt) = None"
  by (simp add: ctx_get_def connection_context_new_def)

text \<open>
  What no middleware may change of a context: the identity of the request and everything the
  handler fixed before the chain. \<open>same_request\<close> is the frame of the request chain.
\<close>

definition same_request :: "connection_context \<Rightarrow> connection_context \<Rightarrow> bool" where
  "same_request c c' \<longleftrightarrow>
     request_id c' = request_id c \<and> ctx_agent_type c' = ctx_agent_type c \<and>
     agent_role c' = agent_role c \<and> detected_format c' = detected_format c \<and>
     started_at c' = started_at c \<and> session_id c' = session_id c \<and>
     project_path c' = project_path c \<and> user_name c' = user_name c \<and>
     tokenless_saved_tokens c' = tokenless_saved_tokens c \<and>
     tokenless_rtk_saved c' = tokenless_rtk_saved c \<and>
     tokenless_response_saved c' = tokenless_response_saved c \<and>
     tokenless_schema_saved c' = tokenless_schema_saved c \<and>
     tokenless_breakdown_json c' = tokenless_breakdown_json c"

lemma same_request_refl [simp, intro]: "same_request c c"
  by (simp add: same_request_def)

lemma same_request_trans: "same_request a b \<Longrightarrow> same_request b c \<Longrightarrow> same_request a c"
  by (simp add: same_request_def)

lemma same_request_insert [simp, intro]: "same_request c c' \<Longrightarrow> same_request c (ctx_insert k v c')"
  by (simp add: same_request_def ctx_simps)

lemma same_request_target [simp, intro]:
  "same_request c c' \<Longrightarrow> same_request c (c'\<lparr>target_protocol := p\<rparr>)"
  by (simp add: same_request_def)

end
