(* ===== verification/Middleware.thy ===== *)
theory Middleware
  imports Context
begin

text \<open>
  \<open>crates/core/src/middleware.rs\<close>: the \<open>ProxyMiddleware\<close> trait as a record of its hooks over the
  state behind \<open>&self\<close>, the two chain runners, and \<open>ModelAliasMiddleware\<close>. A hook returns the new
  state always and, on success, the request or response it leaves behind. A failing hook aborts the
  chain; the state changes made before stay.

  Two locales state what a chain inherits from its members, \<open>mw_frame\<close> for the context and
  \<open>mw_keeps\<close> for a state invariant. The deployed chain interprets them in the theory \<open>Deployment\<close>.
\<close>

record ('s, 'e) middleware =
  mw_name :: string
  on_request :: "'s \<Rightarrow> proxy_request \<Rightarrow> connection_context \<Rightarrow>
    's \<times> ('e + proxy_request \<times> connection_context)"
  on_response :: "'s \<Rightarrow> proxy_response \<Rightarrow> connection_context \<Rightarrow> 's \<times> ('e + proxy_response)"

fun run_on_request_chain ::
  "('s, 'e) middleware list \<Rightarrow> 's \<Rightarrow> proxy_request \<Rightarrow> connection_context \<Rightarrow>
    's \<times> ('e + proxy_request \<times> connection_context)" where
  "run_on_request_chain [] s req ctx = (s, Inr (req, ctx))"
| "run_on_request_chain (mw # mws) s req ctx =
     (case on_request mw s req ctx of
        (s', Inl e) \<Rightarrow> (s', Inl e)
      | (s', Inr (req', ctx')) \<Rightarrow> run_on_request_chain mws s' req' ctx')"

fun run_response_hooks ::
  "('s, 'e) middleware list \<Rightarrow> 's \<Rightarrow> proxy_response \<Rightarrow> connection_context \<Rightarrow>
    's \<times> ('e + proxy_response)" where
  "run_response_hooks [] s res ctx = (s, Inr res)"
| "run_response_hooks (mw # mws) s res ctx =
     (case on_response mw s res ctx of
        (s', Inl e) \<Rightarrow> (s', Inl e)
      | (s', Inr res') \<Rightarrow> run_response_hooks mws s' res' ctx)"

definition run_on_response_chain ::
  "('s, 'e) middleware list \<Rightarrow> 's \<Rightarrow> proxy_response \<Rightarrow> connection_context \<Rightarrow>
    's \<times> ('e + proxy_response)" where
  "run_on_response_chain mws = run_response_hooks (rev mws)"

text \<open>
  A hook fails with an error value or by a panic, which unwinds the task of the request. A middleware
  that cannot panic has \<open>proxy_error\<close> as its failures, one that can has \<open>failure\<close>.
\<close>

datatype failure = Err proxy_error | Panic

text \<open>A middleware whose state is one component of a larger state.\<close>

definition lift_mw ::
  "('w \<Rightarrow> 's) \<Rightarrow> ('s \<Rightarrow> 'w \<Rightarrow> 'w) \<Rightarrow> ('e \<Rightarrow> 'f) \<Rightarrow> ('s, 'e) middleware \<Rightarrow> ('w, 'f) middleware" where
  "lift_mw get put err mw =
     \<lparr>mw_name = mw_name mw,
      on_request = (\<lambda>w req ctx. let (s, r) = on_request mw (get w) req ctx in (put s w, map_sum err id r)),
      on_response = (\<lambda>w res ctx. let (s, r) = on_response mw (get w) res ctx in (put s w, map_sum err id r))\<rparr>"

section \<open>Order of execution\<close>

lemma run_on_request_chain_append:
  "run_on_request_chain (xs @ ys) s req ctx =
     (case run_on_request_chain xs s req ctx of
        (s', Inl e) \<Rightarrow> (s', Inl e)
      | (s', Inr (req', ctx')) \<Rightarrow> run_on_request_chain ys s' req' ctx')"
  by (induction xs arbitrary: s req ctx) (auto split: prod.splits sum.splits)

lemma run_response_hooks_append:
  "run_response_hooks (xs @ ys) s res ctx =
     (case run_response_hooks xs s res ctx of
        (s', Inl e) \<Rightarrow> (s', Inl e)
      | (s', Inr res') \<Rightarrow> run_response_hooks ys s' res' ctx)"
  by (induction xs arbitrary: s res) (auto split: prod.splits sum.splits)

text \<open>The last registered middleware sees the response first, the first registered one last.\<close>

lemma run_on_response_chain_snoc:
  "run_on_response_chain (mws @ [mw]) s res ctx =
     (case on_response mw s res ctx of
        (s', Inl e) \<Rightarrow> (s', Inl e)
      | (s', Inr res') \<Rightarrow> run_on_response_chain mws s' res' ctx)"
  by (simp add: run_on_response_chain_def split: prod.splits sum.splits)

lemma run_on_response_chain_Cons:
  "run_on_response_chain (mw # mws) s res ctx =
     (case run_on_response_chain mws s res ctx of
        (s', Inl e) \<Rightarrow> (s', Inl e)
      | (s', Inr res') \<Rightarrow> on_response mw s' res' ctx)"
  by (simp add: run_on_response_chain_def run_response_hooks_append split: prod.splits sum.splits)

section \<open>What a chain inherits from its members\<close>

locale mw_frame =
  fixes mws :: "('s, 'e) middleware list"
    and R :: "connection_context \<Rightarrow> connection_context \<Rightarrow> bool"
  assumes frame_refl: "R c c"
    and frame_trans: "R a b \<Longrightarrow> R b c \<Longrightarrow> R a c"
    and frame_step: "mw \<in> set mws \<Longrightarrow> on_request mw s req ctx = (s', Inr (req', ctx')) \<Longrightarrow> R ctx ctx'"
begin

lemma frame_chain_sub:
  "set ms \<subseteq> set mws \<Longrightarrow> run_on_request_chain ms s req ctx = (s', Inr (req', ctx')) \<Longrightarrow> R ctx ctx'"
proof (induction ms arbitrary: s req ctx)
  case Nil
  then show ?case by (simp add: frame_refl)
next
  case (Cons mw ms)
  then show ?case
    by (auto split: prod.splits sum.splits intro: frame_trans dest: frame_step)
qed

lemma frame_chain: "run_on_request_chain mws s req ctx = (s', Inr (req', ctx')) \<Longrightarrow> R ctx ctx'"
  by (rule frame_chain_sub) simp_all

end

locale mw_keeps =
  fixes mws :: "('s, 'e) middleware list"
    and I :: "'s \<Rightarrow> bool"
  assumes keeps_request: "mw \<in> set mws \<Longrightarrow> I s \<Longrightarrow> I (fst (on_request mw s req ctx))"
    and keeps_response: "mw \<in> set mws \<Longrightarrow> I s \<Longrightarrow> I (fst (on_response mw s res ctx))"
begin

lemma keeps_request_chain:
  "set ms \<subseteq> set mws \<Longrightarrow> I s \<Longrightarrow> I (fst (run_on_request_chain ms s req ctx))"
proof (induction ms arbitrary: s req ctx)
  case (Cons mw ms)
  from Cons.prems have "I (fst (on_request mw s req ctx))" by (auto intro: keeps_request)
  with Cons show ?case by (auto split: prod.splits sum.splits)
qed simp

lemma keeps_response_hooks:
  "set ms \<subseteq> set mws \<Longrightarrow> I s \<Longrightarrow> I (fst (run_response_hooks ms s res ctx))"
proof (induction ms arbitrary: s res)
  case (Cons mw ms)
  from Cons.prems have "I (fst (on_response mw s res ctx))" by (auto intro: keeps_response)
  with Cons show ?case by (auto split: prod.splits sum.splits)
qed simp

lemma keeps_chain:
  assumes "I s"
  shows "I (fst (run_on_request_chain mws s req ctx))"
    and "I (fst (run_on_response_chain mws s res ctx))"
  using assms by (auto simp: run_on_response_chain_def intro: keeps_request_chain keeps_response_hooks)

end

section \<open>Model aliases\<close>

text \<open>
  \<open>json["model"] = ...\<close> is an insertion into the object: \<open>original\<close> is \<open>Some\<close> only if the body is an
  object with that member.
\<close>

definition alias_on_request ::
  "json_lib \<Rightarrow> string hashmap \<Rightarrow> proxy_request \<Rightarrow> connection_context \<Rightarrow>
    proxy_error + proxy_request \<times> connection_context" where
  "alias_on_request J alias_map req ctx =
     (case from_slice J (req_body req) of
        Inl e \<Rightarrow> Inl (BadRequest (''invalid JSON body: '' @ e))
      | Inr json \<Rightarrow>
          (case Option.bind (jget ''model'' json) as_str of
             None \<Rightarrow> Inr (req, ctx)
           | Some model \<Rightarrow>
               if model = [] then Inr (req, ctx)
               else (case alias_map model of
                       None \<Rightarrow> Inr (req, ctx)
                     | Some target \<Rightarrow>
                         (case to_vec J (jreplace ''model'' (JString target) json) of
                            Inl e \<Rightarrow> Inl (Internal e)
                          | Inr b \<Rightarrow> Inr (req\<lparr>req_body := b\<rparr>, ctx)))))"

definition model_alias_middleware :: "json_lib \<Rightarrow> (string hashmap, proxy_error) middleware" where
  "model_alias_middleware J =
     \<lparr>mw_name = ''model-alias'',
      on_request = (\<lambda>m req ctx. (m, alias_on_request J m req ctx)),
      on_response = (\<lambda>m res ctx. (m, Inr res))\<rparr>"

lemma alias_on_request_frame:
  "alias_on_request J m req ctx = Inr (req', ctx') \<Longrightarrow>
     ctx' = ctx \<and> req_headers req' = req_headers req \<and> req_path req' = req_path req"
  by (auto simp: alias_on_request_def split: sum.splits option.splits if_splits)

text \<open>An alias is not followed twice: the request leaves with the target, whatever the target is.\<close>

lemma alias_on_request_hit:
  assumes "from_slice J (req_body req) = Inr json" "jget ''model'' json = Some (JString model)"
    and "model \<noteq> []" "m model = Some target"
    and "to_vec J (jreplace ''model'' (JString target) json) = Inr b"
  shows "alias_on_request J m req ctx = Inr (req\<lparr>req_body := b\<rparr>, ctx)"
    and "jget ''model'' (jreplace ''model'' (JString target) json) = Some (JString target)"
    and "k \<noteq> ''model'' \<Longrightarrow> jget k (jreplace ''model'' (JString target) json) = jget k json"
  using assms by (auto simp: alias_on_request_def jget_jreplace_same jget_jreplace_other)

lemma alias_on_request_miss:
  assumes "from_slice J (req_body req) = Inr json"
    and "jget ''model'' json = Some (JString model)" "m model = None"
  shows "alias_on_request J m req ctx = Inr (req, ctx)"
  using assms by (simp add: alias_on_request_def)

end
