(* ===== verification/Report.thy ===== *)
theory Report
  imports Core_Types
begin

text \<open>
  \<open>crates/core/src/report.rs\<close>: the incremental reader of the savings reports that the tokenless hooks
  append to a file per session. The state is the table of byte cursors; the file system and the
  deserialiser of a report line are arguments. Its debug log is in the theory \<open>Debug_Log\<close>.
\<close>

record proxy_report =
  rep_session_id :: string
  rep_agent_id :: string
  rep_project_path :: "string option"
  rep_user_name :: "string option"
  rep_op_type :: string
  rep_method :: "string option"
  rep_before_tokens :: u64
  rep_after_tokens :: u64
  rep_saved_tokens :: u64
  rep_before_bytes :: u64
  rep_after_bytes :: u64
  rep_saved_bytes :: u64
  rep_timestamp :: string

record tokenless_accumulator =
  acc_total_saved :: u64
  acc_rtk_saved :: u64
  acc_response_saved :: u64
  acc_schema_saved :: u64
  acc_breakdown_json :: string
  acc_project_path :: "string option"
  acc_user_name :: "string option"

definition accumulator_default :: tokenless_accumulator where
  "accumulator_default =
     \<lparr>acc_total_saved = 0, acc_rtk_saved = 0, acc_response_saved = 0, acc_schema_saved = 0,
      acc_breakdown_json = [], acc_project_path = None, acc_user_name = None\<rparr>"

definition ascii_alphanumeric :: "char \<Rightarrow> bool" where
  "ascii_alphanumeric c =
     (let n = (of_char c :: nat) in
      (48 \<le> n \<and> n \<le> 57) \<or> (65 \<le> n \<and> n \<le> 90) \<or> (97 \<le> n \<and> n \<le> 122))"

definition safe_session_id :: "string \<Rightarrow> string" where
  "safe_session_id sid =
     take 128 (filter (\<lambda>c. ascii_alphanumeric c \<or> c = CHR ''-'' \<or> c = CHR ''_'') sid)"

text \<open>\<open>str::lines\<close> with the byte offset at which each line starts.\<close>

fun segments_at :: "nat \<Rightarrow> string list \<Rightarrow> (nat \<times> string) list" where
  "segments_at off [] = []"
| "segments_at off [s] = (if s = [] then [] else [(off, s)])"
| "segments_at off (s # t # ts) = (off, strip_cr s) # segments_at (off + length s + 1) (t # ts)"

definition lines_at :: "nat \<Rightarrow> string \<Rightarrow> (nat \<times> string) list" where
  "lines_at off s = segments_at off (split_lf s)"

definition breakdown_item :: "proxy_report \<Rightarrow> json" where
  "breakdown_item r =
     JObject (fold (\<lambda>(k, v) o'. obj_insert k v o')
       [(''op'', JString (rep_op_type r)),
        (''method'', case rep_method r of None \<Rightarrow> JNull | Some m \<Rightarrow> JString m),
        (''beforeTokens'', JNumber (PosInt (rep_before_tokens r))),
        (''afterTokens'', JNumber (PosInt (rep_after_tokens r))),
        (''savedTokens'', JNumber (PosInt (rep_saved_tokens r))),
        (''beforeBytes'', JNumber (PosInt (rep_before_bytes r))),
        (''afterBytes'', JNumber (PosInt (rep_after_bytes r))),
        (''savedBytes'', JNumber (PosInt (rep_saved_bytes r)))] [])"

record scan_state =
  scan_acc :: tokenless_accumulator
  scan_items :: "json list"
  scan_new :: bool

definition scan_init :: scan_state where
  "scan_init = \<lparr>scan_acc = accumulator_default, scan_items = [], scan_new = False\<rparr>"

definition add_saved :: "proxy_report \<Rightarrow> tokenless_accumulator \<Rightarrow> tokenless_accumulator" where
  "add_saved r acc =
     (let acc = acc\<lparr>acc_total_saved := acc_total_saved acc + rep_saved_tokens r\<rparr> in
      if rep_op_type r = ''rewrite-command''
      then acc\<lparr>acc_rtk_saved := acc_rtk_saved acc + rep_saved_tokens r\<rparr>
      else if rep_op_type r = ''compress-response''
      then acc\<lparr>acc_response_saved := acc_response_saved acc + rep_saved_tokens r\<rparr>
      else if rep_op_type r = ''compress-schema''
      then acc\<lparr>acc_schema_saved := acc_schema_saved acc + rep_saved_tokens r\<rparr>
      else acc)"

definition scan_line ::
  "(string \<Rightarrow> proxy_report option) \<Rightarrow> nat \<Rightarrow> nat \<times> string \<Rightarrow> scan_state \<Rightarrow> scan_state" where
  "scan_line parse start_byte entry s =
     (let (line_start, line) = entry;
          trimmed = trim line
      in if trimmed = [] then s
         else (case parse trimmed of
                 None \<Rightarrow> s
               | Some r \<Rightarrow>
                   (let acc = scan_acc s;
                        acc = (if acc_project_path acc = None
                               then acc\<lparr>acc_project_path := rep_project_path r\<rparr> else acc);
                        acc = (if acc_user_name acc = None
                               then acc\<lparr>acc_user_name := rep_user_name r\<rparr> else acc)
                    in if start_byte \<le> line_start
                       then \<lparr>scan_acc = add_saved r acc, scan_items = scan_items s @ [breakdown_item r],
                             scan_new = True\<rparr>
                       else s\<lparr>scan_acc := acc\<rparr>)))"

type_synonym cursors = "u64 hashmap"

text \<open>The cursor a read starts from: a file that shrank is read again from the start.\<close>

definition effective_cursor :: "string \<Rightarrow> cursors \<Rightarrow> string \<Rightarrow> u64" where
  "effective_cursor sid cur content =
     (let c = unwrap_or 0 (cur sid) in if length content < unat c then 0 else c)"

definition consume_content ::
  "json_lib \<Rightarrow> (string \<Rightarrow> proxy_report option) \<Rightarrow> string \<Rightarrow> string \<Rightarrow> cursors \<Rightarrow>
    cursors \<times> tokenless_accumulator option" where
  "consume_content J parse safe_sid content cur =
     (let cursor = effective_cursor safe_sid cur content;
          s = fold (scan_line parse (unat cursor)) (lines_at 0 content) scan_init;
          cursor' = (if scan_new s then of_nat (length content) else cursor);
          cur' = cur(safe_sid \<mapsto> cursor');
          acc = scan_acc s;
          has_meta = (acc_project_path acc \<noteq> None \<or> acc_user_name acc \<noteq> None)
      in if \<not> scan_new s \<and> \<not> has_meta then (cur', None)
         else
           (cur', Some (if scan_items s \<noteq> []
                        then acc\<lparr>acc_breakdown_json :=
                               (case to_vec J (JArray (scan_items s)) of Inl _ \<Rightarrow> [] | Inr b \<Rightarrow> b)\<rparr>
                        else acc)))"

text \<open>\<open>read_report\<close> is \<open>fs::read_to_string\<close> of the session's file, \<open>None\<close> without a home directory.\<close>

definition consume_report ::
  "json_lib \<Rightarrow> (string \<Rightarrow> proxy_report option) \<Rightarrow> (string \<Rightarrow> string option) \<Rightarrow> string \<Rightarrow> cursors \<Rightarrow>
    cursors \<times> tokenless_accumulator option" where
  "consume_report J parse read_report session_id cur =
     (if session_id = [] then (cur, None)
      else
        let safe_sid = safe_session_id session_id in
        if safe_sid = [] then (cur, None)
        else (case read_report safe_sid of
                None \<Rightarrow> (cur, None)
              | Some content \<Rightarrow>
                  if content = [] then (cur, None)
                  else consume_content J parse safe_sid content cur))"

section \<open>Lines of an appended file\<close>

lemma split_lf_append: "split_lf (a @ [LF] @ b) = split_lf a @ split_lf b"
  by (induction a) (auto split: list.splits)

lemma lines_split: "map snd (lines_at off s) = lines s"
proof -
  have "map snd (segments_at off ls) = map strip_cr (butlast ls) @ drop_last_empty [last ls]"
    if "ls \<noteq> []" for ls off
    using that by (induction off ls rule: segments_at.induct) (auto simp: drop_last_empty_def)
  then show ?thesis by (simp add: lines_at_def lines_def Let_def)
qed

lemma segments_at_append:
  "xs \<noteq> [] \<Longrightarrow> ys \<noteq> [] \<Longrightarrow>
     segments_at off (xs @ ys) =
       segments_at off (xs @ [[]]) @ segments_at (off + sum_list (map (\<lambda>s. length s + 1) xs)) ys"
proof (induction xs arbitrary: off)
  case (Cons x xs)
  show ?case
  proof (cases xs)
    case Nil
    with Cons.prems show ?thesis by (cases ys) auto
  next
    case (Cons z zs)
    with Cons.IH [of "off + length x + 1"] Cons.prems show ?thesis by (simp add: add.assoc)
  qed
qed simp

lemma sum_split_lf: "sum_list (map (\<lambda>s. length s + 1) (split_lf a)) = length a + 1"
  by (induction a) (auto split: list.splits)

lemma lines_at_append:
  "lines_at off ((a @ [LF]) @ b) = lines_at off (a @ [LF]) @ lines_at (off + length (a @ [LF])) b"
proof -
  have "split_lf ((a @ [LF]) @ b) = split_lf a @ split_lf b" using split_lf_append [of a b] by simp
  moreover have "split_lf (a @ [LF]) = split_lf a @ [[]]" using split_lf_append [of a "[]"] by simp
  ultimately show ?thesis
    using segments_at_append [of "split_lf a" "split_lf b" off] sum_split_lf [of a]
    by (simp add: lines_at_def)
qed

lemma lines_at_start: "(p, l) \<in> set (lines_at off s) \<Longrightarrow> off \<le> p \<and> p < off + length s"
proof -
  have "off \<le> p \<and> p < off + sum_list (map (\<lambda>s. length s + 1) ls) - 1"
    if "(p, l) \<in> set (segments_at off ls)" for ls off
    using that by (induction off ls rule: segments_at.induct) (auto split: if_splits)
  moreover assume "(p, l) \<in> set (lines_at off s)"
  ultimately show ?thesis unfolding lines_at_def using sum_split_lf [of s] by fastforce
qed

section \<open>What a scan accumulates\<close>

definition line_report :: "(string \<Rightarrow> proxy_report option) \<Rightarrow> string \<Rightarrow> proxy_report option" where
  "line_report parse l = (if trim l = [] then None else parse (trim l))"

definition new_reports ::
  "(string \<Rightarrow> proxy_report option) \<Rightarrow> nat \<Rightarrow> (nat \<times> string) list \<Rightarrow> proxy_report list" where
  "new_reports parse c ls =
     List.map_filter (\<lambda>e. if c \<le> fst e then line_report parse (snd e) else None) ls"

definition reports_of :: "(string \<Rightarrow> proxy_report option) \<Rightarrow> string \<Rightarrow> proxy_report list" where
  "reports_of parse s = List.map_filter (line_report parse) (lines s)"

definition saved_sum :: "proxy_report list \<Rightarrow> u64" where
  "saved_sum rs = sum_list (map rep_saved_tokens rs)"

lemma saved_sum_append [simp]: "saved_sum (xs @ ys) = saved_sum xs + saved_sum ys"
  by (simp add: saved_sum_def)

lemma saved_sum_Nil [simp]: "saved_sum [] = 0"
  by (simp add: saved_sum_def)

lemma new_reports_Cons:
  "new_reports parse c (e # ls) =
     (case (if c \<le> fst e then line_report parse (snd e) else None) of
        None \<Rightarrow> new_reports parse c ls | Some r \<Rightarrow> r # new_reports parse c ls)"
  by (simp add: new_reports_def map_filter_simps split: option.split)

lemma new_reports_Nil [simp]: "new_reports parse c [] = []"
  by (simp add: new_reports_def map_filter_simps)

lemma new_reports_append [simp]:
  "new_reports parse c (xs @ ys) = new_reports parse c xs @ new_reports parse c ys"
  by (simp add: new_reports_def List.map_filter_def)

lemma new_reports_all:
  assumes "c \<le> off"
  shows "new_reports parse c (lines_at off s) = reports_of parse s"
proof -
  have "new_reports parse c ls = List.map_filter (line_report parse) (map snd ls)"
    if "\<forall>e\<in>set ls. c \<le> fst e" for ls
    using that by (induction ls) (auto simp: new_reports_Cons map_filter_simps split: option.splits)
  moreover have "\<forall>e\<in>set (lines_at off s). c \<le> fst e" using lines_at_start assms by fastforce
  ultimately show ?thesis by (simp add: reports_of_def lines_split)
qed

lemma new_reports_none: "\<forall>e\<in>set ls. fst e < c \<Longrightarrow> new_reports parse c ls = []"
  by (induction ls) (auto simp: new_reports_Cons)

lemma add_saved_total [simp]:
  "acc_total_saved (add_saved r a) = acc_total_saved a + rep_saved_tokens r"
  by (simp add: add_saved_def Let_def)

lemma scan_line_effect:
  "scan_line parse c e s = s' \<Longrightarrow>
     acc_total_saved (scan_acc s') = acc_total_saved (scan_acc s) + saved_sum (new_reports parse c [e]) \<and>
     (scan_new s' \<longleftrightarrow> scan_new s \<or> new_reports parse c [e] \<noteq> [])"
  by (auto simp: scan_line_def new_reports_Cons line_report_def saved_sum_def Let_def
      split: prod.splits option.splits if_splits)

lemma scan_effect:
  "acc_total_saved (scan_acc (fold (scan_line parse c) ls s))
     = acc_total_saved (scan_acc s) + saved_sum (new_reports parse c ls) \<and>
   (scan_new (fold (scan_line parse c) ls s) \<longleftrightarrow> scan_new s \<or> new_reports parse c ls \<noteq> [])"
proof (induction ls arbitrary: s)
  case (Cons e ls)
  have "new_reports parse c (e # ls) = new_reports parse c [e] @ new_reports parse c ls"
    using new_reports_append [of parse c "[e]" ls] by simp
  with Cons.IH [of "scan_line parse c e s"] scan_line_effect [of parse c e s, OF refl] show ?case
    by (auto simp: add.assoc)
qed simp

definition total_of :: "cursors \<times> tokenless_accumulator option \<Rightarrow> u64" where
  "total_of r = (case snd r of None \<Rightarrow> 0 | Some a \<Rightarrow> acc_total_saved a)"

lemma consume_content_effect:
  fixes content :: string
  defines "rs \<equiv> \<lambda>parse cur sid. new_reports parse (unat (effective_cursor sid cur content)) (lines_at 0 content)"
  shows "total_of (consume_content J parse sid content cur) = saved_sum (rs parse cur sid)"
    and "fst (consume_content J parse sid content cur) sid =
      Some (if rs parse cur sid \<noteq> [] then of_nat (length content) else effective_cursor sid cur content)"
    and "k \<noteq> sid \<Longrightarrow> fst (consume_content J parse sid content cur) k = cur k"
proof -
  let ?c = "effective_cursor sid cur content"
  let ?s = "fold (scan_line parse (unat ?c)) (lines_at 0 content) scan_init"
  have t: "acc_total_saved (scan_acc ?s) = saved_sum (rs parse cur sid)"
    and n: "scan_new ?s \<longleftrightarrow> rs parse cur sid \<noteq> []"
    using scan_effect [of parse "unat ?c" "lines_at 0 content" scan_init]
    by (simp_all add: rs_def scan_init_def accumulator_default_def)
  have none: "saved_sum (rs parse cur sid) = 0" if "\<not> scan_new ?s" using that n by simp
  show "total_of (consume_content J parse sid content cur) = saved_sum (rs parse cur sid)"
    using none by (simp add: consume_content_def Let_def total_of_def t)
  show "fst (consume_content J parse sid content cur) sid =
      Some (if rs parse cur sid \<noteq> [] then of_nat (length content) else effective_cursor sid cur content)"
    by (simp add: consume_content_def Let_def n)
  show "k \<noteq> sid \<Longrightarrow> fst (consume_content J parse sid content cur) k = cur k"
    by (simp add: consume_content_def Let_def)
qed

text \<open>
  The invariant of a session's cursor: it is not beyond the file, and no valid line that starts at
  or after it has been read already.
\<close>

definition settled :: "(string \<Rightarrow> proxy_report option) \<Rightarrow> string \<Rightarrow> string \<Rightarrow> cursors \<Rightarrow> bool" where
  "settled parse sid content cur \<longleftrightarrow>
     unat (unwrap_or 0 (cur sid)) \<le> length content \<and>
     new_reports parse (unat (unwrap_or 0 (cur sid))) (lines_at 0 content) = []"

definition complete :: "string \<Rightarrow> bool" where
  "complete s \<longleftrightarrow> s = [] \<or> last s = LF"

lemma lines_at_complete:
  assumes "complete a"
  shows "lines_at off (a @ b) = lines_at off a @ lines_at (off + length a) b"
proof (cases a rule: rev_cases)
  case Nil
  then show ?thesis by (simp add: lines_at_def)
next
  case (snoc a' x)
  with assms have "a = a' @ [LF]" by (simp add: complete_def)
  then show ?thesis using lines_at_append [of off a' b] by simp
qed

lemma consume_append:
  assumes "settled parse sid content cur" "complete content" "length (content @ tail) < 2 ^ 64"
  shows "total_of (consume_content J parse sid (content @ tail) cur) = saved_sum (reports_of parse tail) \<and>
    settled parse sid (content @ tail) (fst (consume_content J parse sid (content @ tail) cur))"
proof -
  let ?c = "unwrap_or 0 (cur sid)"
  have c: "unat ?c \<le> length content" "new_reports parse (unat ?c) (lines_at 0 content) = []"
    using assms(1) by (simp_all add: settled_def)
  have eff: "effective_cursor sid cur (content @ tail) = ?c"
    using c(1) by (simp add: effective_cursor_def)
  have rs: "new_reports parse (unat ?c) (lines_at 0 (content @ tail)) = reports_of parse tail"
    using c new_reports_all [of "unat ?c" "length content" parse tail]
    by (simp add: lines_at_complete [OF assms(2)])
  have "\<forall>e\<in>set (lines_at 0 (content @ tail)). fst e < length (content @ tail)"
    using lines_at_start [of _ _ 0 "content @ tail"] by fastforce
  then have none: "new_reports parse (length (content @ tail)) (lines_at 0 (content @ tail)) = []"
    by (rule new_reports_none)
  have "unat (of_nat (length (content @ tail)) :: u64) = length (content @ tail)"
    using assms(3) by (simp add: unat_of_nat del: length_append of_nat_add)
  with none c(1) rs show ?thesis
    using consume_content_effect [where content = "content @ tail"] by (auto simp: eff settled_def)
qed

text \<open>
  A session in which the hooks append chunks to the file and every API request reads it: the totals
  the requests are credited with.
\<close>

fun consume_all ::
  "json_lib \<Rightarrow> (string \<Rightarrow> proxy_report option) \<Rightarrow> string \<Rightarrow> string \<Rightarrow> string list \<Rightarrow> cursors \<Rightarrow> u64 list" where
  "consume_all J parse sid content [] cur = []"
| "consume_all J parse sid content (chunk # chunks) cur =
     (let r = consume_report J parse (\<lambda>_. Some (content @ chunk)) sid cur
      in total_of r # consume_all J parse sid (content @ chunk) chunks (fst r))"

lemma complete_append: "complete a \<Longrightarrow> complete b \<Longrightarrow> complete (a @ b)"
  by (auto simp: complete_def last_append)

lemma reports_of_append: "complete a \<Longrightarrow> reports_of parse (a @ b) = reports_of parse a @ reports_of parse b"
  using new_reports_all [of 0 0 parse "a @ b"] new_reports_all [of 0 0 parse a]
    new_reports_all [of 0 "length a" parse b]
  by (simp add: lines_at_complete)

lemma reports_of_Nil [simp]: "reports_of parse [] = []"
  by (simp add: reports_of_def lines_def drop_last_empty_def map_filter_simps)

lemma consume_report_step:
  assumes "safe_session_id sid \<noteq> []" "settled parse (safe_session_id sid) content cur"
    and "complete content" "length (content @ chunk) < 2 ^ 64"
  shows "total_of (consume_report J parse (\<lambda>_. Some (content @ chunk)) sid cur) = saved_sum (reports_of parse chunk) \<and>
    settled parse (safe_session_id sid) (content @ chunk)
      (fst (consume_report J parse (\<lambda>_. Some (content @ chunk)) sid cur))"
proof (cases "content @ chunk = []")
  case True
  then have "consume_report J parse (\<lambda>_. Some (content @ chunk)) sid cur = (cur, None)"
    by (simp add: consume_report_def Let_def)
  with True assms(2) show ?thesis by (simp add: total_of_def)
next
  case False
  have "sid \<noteq> []" using assms(1) by (auto simp: safe_session_id_def)
  with False assms(1) consume_append [OF assms(2-4)] show ?thesis
    by (auto simp: consume_report_def Let_def)
qed

lemma consume_all_sum:
  assumes "safe_session_id sid \<noteq> []"
  shows "settled parse (safe_session_id sid) content cur \<Longrightarrow> complete content \<Longrightarrow>
    \<forall>c\<in>set chunks. complete c \<Longrightarrow> length (content @ concat chunks) < 2 ^ 64 \<Longrightarrow>
    sum_list (consume_all J parse sid content chunks cur) = saved_sum (reports_of parse (concat chunks))"
proof (induction chunks arbitrary: content cur)
  case (Cons chunk chunks)
  have len: "length (content @ chunk) < 2 ^ 64" using Cons.prems(4) by simp
  note step = consume_report_step [OF assms Cons.prems(1,2) len, of J]
  have "sum_list (consume_all J parse sid (content @ chunk) chunks
      (fst (consume_report J parse (\<lambda>_. Some (content @ chunk)) sid cur)))
      = saved_sum (reports_of parse (concat chunks))"
    using step Cons.prems by (intro Cons.IH) (auto intro: complete_append)
  with step Cons.prems(3) show ?case by (simp add: Let_def reports_of_append)
qed simp

lemma settled_fresh: "cur sid = None \<Longrightarrow> settled parse sid [] cur"
  by (simp add: settled_def lines_at_def)

section \<open>Properties\<close>

text \<open>
  C35. Every report is credited exactly once. When the hooks append whole lines and the proxy reads
  the growing file after each append, starting without a cursor, the savings credited to the
  requests add up (modulo the word size) to the savings of all valid lines of the file.
\<close>

theorem report_credited_exactly_once:
  assumes "safe_session_id sid \<noteq> []" and "cur (safe_session_id sid) = None"
    and "\<forall>c\<in>set chunks. complete c" and "length (concat chunks) < 2 ^ 64"
  shows "sum_list (consume_all J parse sid [] chunks cur) = saved_sum (reports_of parse (concat chunks))"
proof -
  have "settled parse (safe_session_id sid) [] cur" using assms(2) by (rule settled_fresh)
  then show ?thesis using assms by (intro consume_all_sum) (simp_all add: complete_def)
qed

theorem report_credited_exactly_once_witness:
  "sum_list (consume_all \<lparr>from_slice = \<lambda>_. Inl [], to_vec = \<lambda>_. Inl []\<rparr>
      (\<lambda>l. Some \<lparr>rep_session_id = [], rep_agent_id = [], rep_project_path = None, rep_user_name = None, rep_op_type = l, rep_method = None,
         rep_before_tokens = 9, rep_after_tokens = 2, rep_saved_tokens = 7, rep_before_bytes = 0,
         rep_after_bytes = 0, rep_saved_bytes = 0, rep_timestamp = []\<rparr>)
      ''s1'' [] [[CHR ''a'', LF], [], [CHR ''b'', LF]] Map.empty)
   = saved_sum (reports_of (\<lambda>l. Some \<lparr>rep_session_id = [], rep_agent_id = [], rep_project_path = None, rep_user_name = None, rep_op_type = l,
         rep_method = None, rep_before_tokens = 9, rep_after_tokens = 2, rep_saved_tokens = 7,
         rep_before_bytes = 0, rep_after_bytes = 0, rep_saved_bytes = 0, rep_timestamp = []\<rparr>) [CHR ''a'', LF, CHR ''b'', LF])"
proof -
  have "safe_session_id ''s1'' \<noteq> []" by (simp add: safe_session_id_def ascii_alphanumeric_def)
  from report_credited_exactly_once [OF this, of Map.empty "[[CHR ''a'', LF], [], [CHR ''b'', LF]]"]
  show ?thesis by (simp add: complete_def)
qed

text \<open>
  A read that catches a hook in the middle of an append loses the interrupted line for good:
  once the lines before it were credited, the cursor stands inside the line, and the read of the
  completed line credits nothing, whatever the line says.
\<close>

theorem interrupted_line_is_lost:
  assumes "complete old" and "reports_of parse old \<noteq> []" and "cur sid = None"
    and "part \<noteq> []" and "LF \<notin> set part" and "LF \<notin> set rest"
    and "length (old @ part) < 2 ^ 64" and "line_report parse part = None"
  shows "total_of (consume_content J parse sid (old @ part @ rest)
    (fst (consume_content J parse sid (old @ part) cur))) = 0"
proof -
  have one: "lines_at off x = [(off, x)]" if "LF \<notin> set x" "x \<noteq> []" for off x
  proof -
    have "split_lf x = [x]" using that(1) by (induction x) auto
    with that(2) show ?thesis by (simp add: lines_at_def)
  qed
  have eff: "effective_cursor sid cur (old @ part) = 0" using assms(3) by (simp add: effective_cursor_def)
  have "new_reports parse 0 (lines_at 0 (old @ part)) \<noteq> []"
    using assms(2) new_reports_all [of 0 0 parse "old"] by (simp add: lines_at_complete [OF assms(1)])
  then have cur': "fst (consume_content J parse sid (old @ part) cur) sid = Some (of_nat (length (old @ part)))"
    using consume_content_effect(2) [of J parse sid "old @ part" cur] by (simp add: eff)
  have u: "unat (of_nat (length (old @ part)) :: u64) = length (old @ part)"
    using assms(7) by (simp add: unat_of_nat del: length_append of_nat_add)
  then have eff': "effective_cursor sid (fst (consume_content J parse sid (old @ part) cur)) (old @ part @ rest)
      = of_nat (length (old @ part))"
    by (simp add: effective_cursor_def cur' del: of_nat_add)
  have "\<forall>e\<in>set (lines_at 0 (old @ part @ rest)). fst e < length (old @ part)"
    using lines_at_start [of _ _ 0 "old"] one [of "part @ rest" "length old"] assms(4-6)
    by (fastforce simp: lines_at_complete [OF assms(1)])
  then have "new_reports parse (length (old @ part)) (lines_at 0 (old @ part @ rest)) = []"
    by (rule new_reports_none)
  then show ?thesis
    using consume_content_effect(1) [of J parse sid "old @ part @ rest"] by (simp only: eff' u saved_sum_Nil)
qed

definition sample_report :: proxy_report where
  "sample_report =
     \<lparr>rep_session_id = [], rep_agent_id = [], rep_project_path = None, rep_user_name = None, rep_op_type = ''compress-schema'', rep_method = None,
      rep_before_tokens = 9, rep_after_tokens = 2, rep_saved_tokens = 7, rep_before_bytes = 0,
      rep_after_bytes = 0, rep_saved_bytes = 0, rep_timestamp = []\<rparr>"

theorem interrupted_line_is_lost_witness:
  "total_of (consume_content \<lparr>from_slice = \<lambda>_. Inl [], to_vec = \<lambda>_. Inl []\<rparr>
     (\<lambda>l. if l = ''ab'' then Some sample_report else None) ''s1'' ([CHR ''a'', CHR ''b'', LF] @ ''a'' @ ''b'')
     (fst (consume_content \<lparr>from_slice = \<lambda>_. Inl [], to_vec = \<lambda>_. Inl []\<rparr>
        (\<lambda>l. if l = ''ab'' then Some sample_report else None) ''s1'' ([CHR ''a'', CHR ''b'', LF] @ ''a'') Map.empty)))
   = 0"
proof (rule interrupted_line_is_lost)
  have t: "trim ''ab'' = ''ab''" "trim ''a'' = ''a''"
    by (rule trim_id; simp add: graphic_def)+
  have "lines [CHR ''a'', CHR ''b'', LF] = [''ab'']" by (simp add: LF_CR_literal lines_def strip_cr_def drop_last_empty_def)
  with t show "reports_of (\<lambda>l. if l = ''ab'' then Some sample_report else None) [CHR ''a'', CHR ''b'', LF] \<noteq> []"
    by (simp add: reports_of_def line_report_def map_filter_simps)
  from t show "line_report (\<lambda>l. if l = ''ab'' then Some sample_report else None) ''a'' = None"
    by (simp add: line_report_def)
qed (simp_all add: complete_def LF_CR_literal)

end
