(* ===== verification/Sse.thy ===== *)
theory Sse
  imports Core_Types
begin

text \<open>
  The event-stream part of \<open>crates/core/src/server.rs\<close>: normalisation of the lines of a stream and the
  collection of the usage fields of its events. The lemmas show that the two passes over the text
  (normalise, then scan) are one scan of the original lines, and what the merge of usage objects
  keeps.
\<close>

section \<open>UTF-8\<close>

text \<open>\<open>std::str::from_utf8\<close>: well-formed byte sequences of the Unicode standard, table 3-7.\<close>

definition cont_byte :: "nat \<Rightarrow> bool" where
  "cont_byte b = (128 \<le> b \<and> b < 192)"

fun utf8_valid_bytes :: "nat list \<Rightarrow> bool" where
  "utf8_valid_bytes [] = True"
| "utf8_valid_bytes (a # bs) =
     (if a < 128 then utf8_valid_bytes bs
      else (case bs of
              [] \<Rightarrow> False
            | b # bs2 \<Rightarrow>
                if 194 \<le> a \<and> a < 224 then cont_byte b \<and> utf8_valid_bytes bs2
                else (case bs2 of
                        [] \<Rightarrow> False
                      | c # bs3 \<Rightarrow>
                          if 224 \<le> a \<and> a < 240
                          then cont_byte b \<and> (a = 224 \<longrightarrow> 160 \<le> b) \<and> (a = 237 \<longrightarrow> b < 160) \<and>
                               cont_byte c \<and> utf8_valid_bytes bs3
                          else (case bs3 of
                                  [] \<Rightarrow> False
                                | d # bs4 \<Rightarrow>
                                    240 \<le> a \<and> a < 245 \<and> cont_byte b \<and> (a = 240 \<longrightarrow> 144 \<le> b) \<and>
                                    (a = 244 \<longrightarrow> b < 144) \<and> cont_byte c \<and> cont_byte d \<and>
                                    utf8_valid_bytes bs4))))"

definition utf8_valid :: "bytes \<Rightarrow> bool" where
  "utf8_valid s = utf8_valid_bytes (map of_char s)"

section \<open>Normalisation\<close>

definition normalize_sse_line :: "string \<Rightarrow> string" where
  "normalize_sse_line raw =
     (let line = trim_end raw in
      case strip_prefix ''data:'' line of
        Some rest \<Rightarrow> if \<not> starts_with '' '' rest then ''data: '' @ rest else line
      | None \<Rightarrow>
          (case strip_prefix ''event:'' line of
             Some rest \<Rightarrow> if \<not> starts_with '' '' rest then ''event: '' @ rest else line
           | None \<Rightarrow> line))"

definition normalize_sse_format :: "string \<Rightarrow> string" where
  "normalize_sse_format text = join [LF] (map normalize_sse_line (lines text))"

section \<open>Usage of a stream\<close>

definition positive_number :: "json \<Rightarrow> bool" where
  "positive_number v =
     (is_some_and (\<lambda>n. 0 < n) (as_u64 v) \<or> is_some_and (f64_lt (Fin 0)) (as_f64 v))"

definition merge_field :: "string \<times> json \<Rightarrow> jobject \<Rightarrow> jobject" where
  "merge_field kv acc =
     (if positive_number (snd kv) \<or> map_of acc (fst kv) = None
      then obj_insert (fst kv) (snd kv) acc else acc)"

definition merge_usage_fields :: "json \<Rightarrow> jobject \<Rightarrow> jobject" where
  "merge_usage_fields u acc =
     (case as_object u of None \<Rightarrow> acc | Some obj \<Rightarrow> fold merge_field obj acc)"

definition merge_if :: "bool \<Rightarrow> json option \<Rightarrow> jobject \<Rightarrow> jobject" where
  "merge_if b u acc = (case u of Some v \<Rightarrow> if b then merge_usage_fields v acc else acc | None \<Rightarrow> acc)"

definition merge_event :: "json \<Rightarrow> jobject \<Rightarrow> jobject" where
  "merge_event event acc =
     (let ty = Option.bind (jget ''type'' event) as_str;
          acc = merge_if (ty = Some ''message_start'')
                  (Option.bind (jget ''message'' event) (jget ''usage'')) acc;
          acc = merge_if (ty = Some ''message_delta'') (jget ''usage'' event) acc;
          acc = merge_if (ty = Some ''response.completed'')
                  (Option.bind (jget ''response'' event) (jget ''usage'')) acc;
          acc = merge_if (jget ''choices'' event \<noteq> None) (jget ''usage'' event) acc
      in merge_if (jget ''choices'' event = None \<and> jget ''type'' event = None) (jget ''usage'' event) acc)"

definition merge_line :: "json_lib \<Rightarrow> string \<Rightarrow> jobject \<Rightarrow> jobject" where
  "merge_line J line acc =
     (case strip_prefix ''data: '' line of
        None \<Rightarrow> acc
      | Some data \<Rightarrow>
          if data = [] \<or> data = ''[DONE]'' then acc
          else (case from_slice J data of Inl _ \<Rightarrow> acc | Inr event \<Rightarrow> merge_event event acc))"

definition extract_usage_from_sse :: "json_lib \<Rightarrow> bytes \<Rightarrow> json" where
  "extract_usage_from_sse J body =
     (if \<not> utf8_valid body then JNull
      else
        let merged = fold (merge_line J) (lines (normalize_sse_format body)) []
        in if merged = [] then JNull else JObject [(''usage'', JObject merged)])"

section \<open>Lines of a normalised text\<close>

lemma split_lf_no_LF: "LF \<notin> set s \<Longrightarrow> split_lf s = [s]"
  by (induction s) auto

lemma split_lf_Cons_LF: "LF \<notin> set l \<Longrightarrow> split_lf (l @ [LF] @ r) = l # split_lf r"
  by (induction l) auto

lemma split_lf_join:
  "ls \<noteq> [] \<Longrightarrow> \<forall>l\<in>set ls. LF \<notin> set l \<Longrightarrow> split_lf (join [LF] ls) = ls"
proof (induction "[LF]" ls rule: join.induct)
  case (2 x)
  then show ?case by (simp add: split_lf_no_LF)
next
  case (3 x y ys)
  then show ?case using split_lf_Cons_LF [of x "join [LF] (y # ys)"] by simp
qed simp

lemma split_lf_LF_free: "l \<in> set (split_lf s) \<Longrightarrow> LF \<notin> set l"
  by (induction s arbitrary: l) (auto split: list.splits if_splits)

lemma lines_LF_free:
  assumes "l \<in> set (lines s)"
  shows "LF \<notin> set l"
proof -
  have cr: "LF \<notin> set (strip_cr x)" if "LF \<notin> set x" for x
    using that by (auto simp: strip_cr_def dest: in_set_butlastD)
  have "x \<in> set (split_lf s)" if "x \<in> set (butlast (split_lf s))" for x
    using that by (rule in_set_butlastD)
  moreover have "LF \<notin> set (last (split_lf s))"
    by (rule split_lf_LF_free [of _ s]) simp
  ultimately show ?thesis
    using assms split_lf_LF_free cr by (auto simp: lines_def Let_def drop_last_empty_def split: if_splits)
qed

lemma lines_join:
  assumes "\<forall>l\<in>set ls. LF \<notin> set l \<and> strip_cr l = l"
  shows "lines (join [LF] ls) = (if ls \<noteq> [] \<and> last ls = [] then butlast ls else ls)"
proof (cases "ls = []")
  case True
  then show ?thesis by (simp add: lines_def drop_last_empty_def)
next
  case False
  with assms have s: "split_lf (join [LF] ls) = ls" by (intro split_lf_join) auto
  have "map strip_cr (butlast ls) = butlast ls"
    using assms by (intro map_idI) (auto dest: in_set_butlastD)
  with False s show ?thesis
    by (auto simp: lines_def Let_def drop_last_empty_def)
qed

lemma trim_end_subset: "set (trim_end s) \<subseteq> set s"
proof (induction s rule: trim_end.induct)
  case (1 s)
  show ?case
  proof (cases "find (\<lambda>w. ends_with w s \<and> w \<noteq> []) ws_seqs")
    case None
    then show ?thesis by (simp add: trim_end.simps [of s])
  next
    case (Some w)
    with 1 have "set (trim_end (take (length s - length w) s)) \<subseteq> set (take (length s - length w) s)" by blast
    also have "\<dots> \<subseteq> set s" by (rule set_take_subset)
    finally show ?thesis using Some by (simp add: trim_end.simps [of s])
  qed
qed

lemma trim_end_fixed: "find (\<lambda>w. ends_with w (trim_end s) \<and> w \<noteq> []) ws_seqs = None"
proof (induction s rule: trim_end.induct)
  case (1 s)
  show ?case
  proof (cases "find (\<lambda>w. ends_with w s \<and> w \<noteq> []) ws_seqs")
    case None
    then show ?thesis by (simp add: trim_end.simps [of s])
  next
    case (Some w)
    with 1 show ?thesis by (simp add: trim_end.simps [of s])
  qed
qed

lemma trim_end_no_cr: "trim_end s = [] \<or> last (trim_end s) \<noteq> CR"
proof (rule ccontr)
  assume "\<not> ?thesis"
  then have "ends_with [CR] (trim_end s)"
    by (metis append_butlast_last_id ends_with_iff)
  moreover have "[CR] \<in> set ws_seqs" by (simp add: ws_seqs_def ws_codes_def)
  ultimately show False using trim_end_fixed [of s] by (auto simp: find_None_iff)
qed

lemma normalize_sse_line_ok:
  assumes "LF \<notin> set l"
  shows "LF \<notin> set (normalize_sse_line l) \<and> strip_cr (normalize_sse_line l) = normalize_sse_line l"
proof -
  have lf: "LF \<notin> set (trim_end l)" using trim_end_subset assms by blast
  have cr: "last (p @ rest) \<noteq> CR" if "trim_end l = q @ rest" "p \<noteq> []" "last p \<noteq> CR" for p q rest
    using trim_end_no_cr [of l] that by (cases rest rule: rev_cases) auto
  have d: "last ''data: '' \<noteq> CR" "last ''event: '' \<noteq> CR" by (simp_all add: LF_CR_literal)
  show ?thesis
    using lf trim_end_no_cr [of l] cr [OF _ _ d(1)] cr [OF _ _ d(2)]
    by (auto simp: normalize_sse_line_def Let_def strip_prefix_Some_iff strip_cr_def LF_CR_literal
        split: option.splits if_splits)
qed

text \<open>Normalising first and scanning the result is scanning the normalised lines of the original.\<close>

lemma merge_line_Nil: "merge_line J [] acc = acc"
  by (simp add: merge_line_def strip_prefix_def)

lemma fold_merge_drop_last:
  assumes "ls \<noteq> []" "last ls = []"
  shows "fold (merge_line J) (butlast ls) acc = fold (merge_line J) ls acc"
proof -
  have "fold (merge_line J) (butlast ls @ [last ls]) acc = fold (merge_line J) ls acc"
    using assms(1) by simp
  then show ?thesis using assms(2) by (simp add: merge_line_Nil)
qed

lemma sse_one_pass:
  "fold (merge_line J) (lines (normalize_sse_format text)) acc
     = fold (\<lambda>l. merge_line J (normalize_sse_line l)) (lines text) acc"
proof -
  let ?ls = "map normalize_sse_line (lines text)"
  have "\<forall>l\<in>set ?ls. LF \<notin> set l \<and> strip_cr l = l"
    using lines_LF_free normalize_sse_line_ok by auto
  then have "fold (merge_line J) (lines (normalize_sse_format text)) acc = fold (merge_line J) ?ls acc"
    unfolding normalize_sse_format_def by (simp add: lines_join fold_merge_drop_last)
  then show ?thesis by (simp add: fold_map comp_def)
qed

section \<open>Merging\<close>

lemma merge_field_lookup:
  "map_of (merge_field (k, v) acc) j =
     (if j = k \<and> (positive_number v \<or> map_of acc k = None) then Some v else map_of acc j)"
  by (auto simp: merge_field_def)

text \<open>
  What a stream reports, in order. A line counts if it starts with \<open>data:\<close>; its payload is the rest
  without trailing white space and without one leading space. An event reports the usage object at
  the place of its kind: inside the message of a \<open>message_start\<close>, inside the response of a
  \<open>response.completed\<close>, and at the top of a \<open>message_delta\<close>, of an event with \<open>choices\<close> and of an event without
  a type.
\<close>

definition sse_data :: "string \<Rightarrow> string option" where
  "sse_data l =
     map_option (\<lambda>rest. if starts_with '' '' rest then tl rest else rest) (strip_prefix ''data:'' (trim_end l))"

definition event_usages :: "json \<Rightarrow> json list" where
  "event_usages e =
     (let typed = (case Option.bind (jget ''type'' e) as_str of
            None \<Rightarrow> None
          | Some ty \<Rightarrow>
              if ty = ''message_start'' then Option.bind (jget ''message'' e) (jget ''usage'')
              else if ty = ''response.completed'' then Option.bind (jget ''response'' e) (jget ''usage'')
              else if ty = ''message_delta'' then jget ''usage'' e else None);
          untyped = (if jget ''choices'' e \<noteq> None \<or> jget ''type'' e = None then jget ''usage'' e else None)
      in List.map_filter id [typed, untyped])"

definition usage_members :: "json \<Rightarrow> (string \<times> json) list" where
  "usage_members u = unwrap_or [] (as_object u)"

definition line_counts :: "json_lib \<Rightarrow> string \<Rightarrow> (string \<times> json) list" where
  "line_counts J l =
     (case sse_data l of
        None \<Rightarrow> []
      | Some d \<Rightarrow>
          if d = [] \<or> d = ''[DONE]'' then []
          else (case from_slice J d of Inl _ \<Rightarrow> [] | Inr e \<Rightarrow> concat (map usage_members (event_usages e))))"

definition sse_counts :: "json_lib \<Rightarrow> string \<Rightarrow> (string \<times> json) list" where
  "sse_counts J body = concat (map (line_counts J) (lines body))"

text \<open>Of the values reported for one key: the last positive one, or else the first.\<close>

definition last_positive :: "json list \<Rightarrow> json option" where
  "last_positive vs =
     (case filter positive_number vs of
        [] \<Rightarrow> (case vs of [] \<Rightarrow> None | v # _ \<Rightarrow> Some v)
      | p # ps \<Rightarrow> Some (last (p # ps)))"

abbreviation values_of :: "string \<Rightarrow> (string \<times> json) list \<Rightarrow> json list" where
  "values_of k kvs \<equiv> map snd (filter (\<lambda>kv. fst kv = k) kvs)"

lemma last_positive_snoc:
  "last_positive (vs @ [v]) = (if positive_number v \<or> last_positive vs = None then Some v else last_positive vs)"
  by (cases vs) (auto simp: last_positive_def split: list.splits)

lemma fold_merge_field_lookup: "map_of (fold merge_field kvs []) k = last_positive (values_of k kvs)"
proof (induction kvs rule: rev_induct)
  case Nil
  then show ?case by (simp add: last_positive_def)
next
  case (snoc kv kvs)
  then show ?case by (cases kv) (auto simp: merge_field_lookup last_positive_snoc)
qed

lemma fold_merge_field_empty: "fold merge_field kvs [] = [] \<longleftrightarrow> kvs = []"
proof (cases kvs rule: rev_cases)
  case (snoc xs kv)
  have "map_of (fold merge_field kvs []) (fst kv) \<noteq> None"
    unfolding fold_merge_field_lookup by (simp add: snoc last_positive_snoc)
  then show ?thesis using snoc by auto
qed simp

abbreviation opt_members :: "json option \<Rightarrow> (string \<times> json) list" where
  "opt_members u \<equiv> unwrap_or [] (map_option usage_members u)"

lemma merge_if_fold: "merge_if b u acc = fold merge_field (opt_members (if b then u else None)) acc"
  by (auto simp: merge_if_def merge_usage_fields_def usage_members_def split: option.splits)

text \<open>The five places of the source are two: by type, and without one.\<close>

lemma typed_places:
  "opt_members (if ty = Some ''message_start'' then a else None) @
   opt_members (if ty = Some ''message_delta'' then t else None) @
   opt_members (if ty = Some ''response.completed'' then b else None) =
   opt_members (case ty of None \<Rightarrow> None
     | Some n \<Rightarrow> if n = ''message_start'' then a else if n = ''response.completed'' then b
         else if n = ''message_delta'' then t else None)"
  by (cases ty) simp_all

lemma untyped_places:
  "opt_members (if c then t else None) @ opt_members (if \<not> c \<and> n then t else None) =
   opt_members (if c \<or> n then t else None)"
  by simp

lemma event_usages_members:
  "concat (map usage_members (event_usages e)) =
     opt_members (case Option.bind (jget ''type'' e) as_str of None \<Rightarrow> None
       | Some n \<Rightarrow> if n = ''message_start'' then Option.bind (jget ''message'' e) (jget ''usage'')
           else if n = ''response.completed'' then Option.bind (jget ''response'' e) (jget ''usage'')
           else if n = ''message_delta'' then jget ''usage'' e else None) @
     opt_members (if jget ''choices'' e \<noteq> None \<or> jget ''type'' e = None then jget ''usage'' e else None)"
proof -
  have "concat (map usage_members (List.map_filter id [a, b])) = opt_members a @ opt_members b" for a b
    by (cases a; cases b) (simp_all add: List.map_filter_def)
  then show ?thesis unfolding event_usages_def Let_def .
qed

lemma merge_event_counts: "merge_event e acc = fold merge_field (concat (map usage_members (event_usages e))) acc"
  unfolding event_usages_members typed_places [symmetric] untyped_places [symmetric] merge_event_def Let_def
    merge_if_fold by simp

lemma normalized_data: "strip_prefix ''data: '' (normalize_sse_line l) = sse_data l"
proof (cases "strip_prefix ''data:'' (trim_end l)")
  case None
  have "strip_prefix ''data: '' (trim_end l) = None"
    using None by (auto simp: strip_prefix_def starts_with_iff split: if_splits)
  moreover have "strip_prefix ''data: '' (''event: '' @ r) = None" for r
    by (simp add: strip_prefix_def)
  ultimately show ?thesis using None by (simp add: normalize_sse_line_def sse_data_def Let_def split: option.split)
next
  case (Some rest)
  then have l: "trim_end l = ''data:'' @ rest" by (simp add: strip_prefix_Some_iff)
  show ?thesis
  proof (cases "starts_with '' '' rest")
    case True
    then obtain r where r: "rest = '' '' @ r" by (auto simp: starts_with_iff)
    have "strip_prefix ''data: '' (trim_end l) = Some r" unfolding strip_prefix_Some_iff l r by simp
    with Some True r show ?thesis by (simp add: normalize_sse_line_def sse_data_def)
  next
    case False
    with Some show ?thesis by (simp only: normalize_sse_line_def sse_data_def Let_def option.case option.map
        strip_prefix_append if_False not_False_eq_True if_True)
  qed
qed

lemma merge_line_counts: "merge_line J (normalize_sse_line l) acc = fold merge_field (line_counts J l) acc"
  by (auto simp: merge_line_def normalized_data line_counts_def merge_event_counts split: option.split sum.split)

lemma fold_merge_line_counts:
  "fold (\<lambda>l. merge_line J (normalize_sse_line l)) ls acc = fold merge_field (concat (map (line_counts J) ls)) acc"
  by (induction ls arbitrary: acc) (simp_all add: merge_line_counts)

section \<open>Properties\<close>

text \<open>
  C36. What a stream is billed for. The extracted usage has a member for exactly the keys that some
  event of the stream reports in its usage object, and its value is the last positive number reported
  for the key, or the first report if none is positive: a later zero never overwrites a count. Lines
  \<open>data:{...}\<close> without a space count like those with one; the end marker \<open>[DONE]\<close>, lines that are not data
  and payloads that are not JSON report nothing. A body that is not UTF-8 and a stream that reports
  nothing yield null.
\<close>

theorem sse_usage_is_last_positive:
  "\<exists>merged. extract_usage_from_sse J body =
      (if utf8_valid body \<and> sse_counts J body \<noteq> [] then JObject [(''usage'', JObject merged)] else JNull) \<and>
    (\<forall>k. map_of merged k = last_positive (values_of k (sse_counts J body)))"
proof -
  let ?m = "fold merge_field (sse_counts J body) []"
  have "fold (merge_line J) (lines (normalize_sse_format body)) [] = ?m"
    by (simp add: sse_one_pass fold_merge_line_counts sse_counts_def)
  then have "extract_usage_from_sse J body =
      (if utf8_valid body \<and> sse_counts J body \<noteq> [] then JObject [(''usage'', JObject ?m)] else JNull)"
    by (simp add: extract_usage_from_sse_def fold_merge_field_empty)
  moreover have "\<forall>k. map_of ?m k = last_positive (values_of k (sse_counts J body))"
    by (simp add: fold_merge_field_lookup)
  ultimately show ?thesis by blast
qed

end
