(* ===== verification/Auth.thy ===== *)
theory Auth
  imports Core_Types
begin

unbundle bit_operations_syntax

text \<open>
  Who may call the proxy: \<open>crates/core/src/config.rs\<close> (the settings that decide it),
  \<open>crates/core/src/auth.rs\<close> (the check in front of the proxy routes) and
  \<open>apps/server/src/admin_auth.rs\<close> (the check in front of the admin routes and the key it expects).
  \<open>next.run(req)\<close> is the argument \<open>next\<close>, applied to the role the check attaches to the request.
\<close>

record auth_key_entry =
  role :: string

record proxy_config =
  listen :: string
  max_body_size :: nat
  upstream_read_timeout :: duration
  upstream_connect_timeout :: duration
  cfg_proxy_api_key :: "string option"
  cfg_proxy_token :: "string option"
  cfg_proxy_auth_keys :: "(string \<times> auth_key_entry) list"

definition proxy_config_default :: proxy_config where
  "proxy_config_default =
     \<lparr>listen = ''127.0.0.1:8787'', max_body_size = 16 * 1024 * 1024,
      upstream_read_timeout = 600 * 1000000000, upstream_connect_timeout = 10 * 1000000000,
      cfg_proxy_api_key = None, cfg_proxy_token = None, cfg_proxy_auth_keys = []\<rparr>"

definition proxy_config_new :: "string \<Rightarrow> proxy_config" where
  "proxy_config_new addr = proxy_config_default\<lparr>listen := addr\<rparr>"

definition config_has_auth :: "proxy_config \<Rightarrow> bool" where
  "config_has_auth cfg =
     (cfg_proxy_api_key cfg \<noteq> None \<or> cfg_proxy_token cfg \<noteq> None \<or> cfg_proxy_auth_keys cfg \<noteq> [])"

record auth_state =
  proxy_api_key :: "string option"
  proxy_token :: "string option"
  proxy_auth_keys :: "(string \<times> auth_key_entry) list"

definition auth_state_from_config :: "proxy_config \<Rightarrow> auth_state" where
  "auth_state_from_config cfg =
     \<lparr>proxy_api_key = cfg_proxy_api_key cfg, proxy_token = cfg_proxy_token cfg,
      proxy_auth_keys = cfg_proxy_auth_keys cfg\<rparr>"

definition has_auth :: "auth_state \<Rightarrow> bool" where
  "has_auth st = (proxy_api_key st \<noteq> None \<or> proxy_token st \<noteq> None \<or> proxy_auth_keys st \<noteq> [])"

definition bearer_token :: "header_map \<Rightarrow> string option" where
  "bearer_token h = Option.bind (header_str h ''authorization'') (strip_prefix ''Bearer '')"

definition extract_api_key :: "header_map \<Rightarrow> string option" where
  "extract_api_key h =
     (case header_str h ''x-api-key'' of Some key \<Rightarrow> Some key | None \<Rightarrow> bearer_token h)"

definition auth_middleware ::
  "auth_state \<Rightarrow> (string option \<Rightarrow> 'r) \<Rightarrow> header_map \<Rightarrow> status + 'r" where
  "auth_middleware st next h =
     (if \<not> has_auth st then Inr (next None)
      else if proxy_auth_keys st \<noteq> [] then
        (case Option.bind (extract_api_key h) (map_of (proxy_auth_keys st)) of
           Some entry \<Rightarrow> Inr (next (Some (role entry)))
         | None \<Rightarrow> Inl 401)
      else
        (case proxy_api_key st of
           Some expected \<Rightarrow> if bearer_token h = Some expected then Inr (next None) else Inl 401
         | None \<Rightarrow>
             (case proxy_token st of
                Some expected \<Rightarrow>
                  if header_str h ''x-proxy-token'' = Some expected then Inr (next None) else Inl 401
              | None \<Rightarrow> Inr (next None))))"

section \<open>The admin key\<close>

record admin_key =
  admin_key_value :: string
  generated :: bool

definition hex_digit :: "nat \<Rightarrow> char" where
  "hex_digit n = (if n < 10 then char_of (48 + n) else char_of (87 + n))"

definition hex2 :: "u8 \<Rightarrow> string" where
  "hex2 b = [hex_digit (unat b div 16), hex_digit (unat b mod 16)]"

text \<open>\<open>random\<close> are the 32 bytes \<open>rand::random\<close> returns.\<close>

definition resolve_admin_key_with :: "(string \<Rightarrow> string option) \<Rightarrow> u8 list \<Rightarrow> admin_key" where
  "resolve_admin_key_with env_lookup random =
     (let generate = \<lparr>admin_key_value = concat (map hex2 random), generated = True\<rparr> in
      case env_lookup ''AGENT_PROXY_ADMIN_KEY'' of
        Some key \<Rightarrow>
          (let key = trim key in
           if key \<noteq> [] then \<lparr>admin_key_value = key, generated = False\<rparr> else generate)
      | None \<Rightarrow> generate)"

definition constant_time_eq :: "string \<Rightarrow> string \<Rightarrow> bool" where
  "constant_time_eq a b =
     (if length a \<noteq> length b then False
      else fold (\<lambda>(x, y) diff. diff OR (of_char x XOR of_char y)) (zip a b) (0::u8) = 0)"

definition admin_auth_middleware :: "string \<Rightarrow> 'r \<Rightarrow> header_map \<Rightarrow> status + 'r" where
  "admin_auth_middleware expected_key next h =
     (let provided = unwrap_or [] (header_str h ''x-admin-key'') in
      if constant_time_eq provided expected_key then Inr next else Inl 401)"

section \<open>Lemmas\<close>

lemma has_auth_from_config: "has_auth (auth_state_from_config cfg) = config_has_auth cfg"
  by (simp add: has_auth_def auth_state_from_config_def config_has_auth_def)

lemma of_char_u8_eq: "(of_char x :: u8) = of_char y \<longleftrightarrow> x = y"
proof
  assume "(of_char x :: u8) = of_char y"
  then have "unat (of_nat (of_char x) :: u8) = unat (of_nat (of_char y) :: u8)"
    by (simp only: of_nat_of_char)
  moreover have "(of_char c :: nat) < 256" for c
    using of_char_mod_256 [of c, where ?'a = nat] by (metis mod_less_divisor zero_less_numeral)
  ultimately have "(of_char x :: nat) = of_char y" by (simp add: unat_of_nat)
  then show "x = y" by simp
qed simp

lemma word_xor_eq_0_iff: "(x :: 'a::len word) XOR y = 0 \<longleftrightarrow> x = y"
  by (metis bit.xor_left_self bit.xor_self xor.right_neutral)

lemma word_or_eq_0_iff: "(x :: 'a::len word) OR y = 0 \<longleftrightarrow> x = 0 \<and> y = 0"
  by (metis or.left_neutral or.right_neutral or.left_idem or.commute bit.disj_conj_distrib
      bit.disj_zero_right and.idem or_eq_0_iff)

lemma fold_diff_eq_0:
  "fold (\<lambda>(x, y) diff. diff OR (of_char x XOR of_char y)) ps (d::u8) = 0 \<longleftrightarrow>
     d = 0 \<and> (\<forall>p\<in>set ps. fst p = snd p)"
  by (induction ps arbitrary: d)
    (auto simp: word_or_eq_0_iff word_xor_eq_0_iff of_char_u8_eq)

lemma constant_time_eq_iff: "constant_time_eq a b \<longleftrightarrow> a = b"
proof (cases "length a = length b")
  case True
  then have "(\<forall>p\<in>set (zip a b). fst p = snd p) \<longleftrightarrow> a = b"
    by (induction a b rule: list_induct2) auto
  with True show ?thesis by (simp add: constant_time_eq_def fold_diff_eq_0)
qed (auto simp: constant_time_eq_def)

lemma length_generated: "length (concat (map hex2 random)) = 2 * length random"
  by (induction random) (simp_all add: hex2_def)

lemma resolve_admin_key_nonempty:
  "random \<noteq> [] \<Longrightarrow> admin_key_value (resolve_admin_key_with env random) \<noteq> []"
  by (cases random) (auto simp: resolve_admin_key_with_def Let_def hex2_def split: option.splits)

section \<open>Properties\<close>

text \<open>
  Access control in front of the proxy: once any mechanism is configured, a request that
  carries none of the three credential headers is refused; and a role reaches the handler only for
  a presented key that the configuration maps to that role.
\<close>

theorem auth_middleware_guards:
  "(has_auth st \<and> header_get h ''x-api-key'' = None \<and> header_get h ''authorization'' = None \<and>
      header_get h ''x-proxy-token'' = None \<longrightarrow> auth_middleware st id h = Inl 401) \<and>
   (auth_middleware st id h = Inr (Some r) \<longrightarrow>
      (\<exists>key entry. extract_api_key h = Some key \<and> map_of (proxy_auth_keys st) key = Some entry \<and>
        role entry = r))"
  by (auto simp: auth_middleware_def has_auth_def extract_api_key_def bearer_token_def header_str_def
      bind_eq_Some_conv split: option.splits if_splits)

theorem auth_middleware_guards_witness:
  "auth_middleware \<lparr>proxy_api_key = None, proxy_token = Some ''t'', proxy_auth_keys = []\<rparr> id
     [(''accept'', ''*/*'')] = (Inl 401 :: status + string option)"
  using auth_middleware_guards [of "\<lparr>proxy_api_key = None, proxy_token = Some ''t'',
      proxy_auth_keys = []\<rparr>" "[(''accept'', ''*/*'')]"]
  by (simp add: has_auth_def header_get_def)

text \<open>
  The admin routes: the constant-time comparison is equality of strings, and since the key
  resolved at start-up is never empty, exactly the requests whose \<open>x-admin-key\<close> header is that key
  pass. A missing header never passes.
\<close>

theorem admin_auth_exact:
  assumes "length random = 32"
  shows "(admin_auth_middleware (admin_key_value (resolve_admin_key_with env random)) next h
            = Inr next \<longleftrightarrow>
          header_str h ''x-admin-key'' = Some (admin_key_value (resolve_admin_key_with env random)))"
proof -
  have "random \<noteq> []" using assms by auto
  then have "admin_key_value (resolve_admin_key_with env random) \<noteq> []"
    by (rule resolve_admin_key_nonempty)
  then show ?thesis
    by (cases "header_str h ''x-admin-key''")
      (auto simp: admin_auth_middleware_def constant_time_eq_iff)
qed

theorem admin_auth_exact_witness:
  "admin_auth_middleware
     (admin_key_value (resolve_admin_key_with (\<lambda>_. None) (replicate 32 7))) () [] \<noteq> Inr ()"
  using admin_auth_exact [of "replicate 32 7" "\<lambda>_. None" "()" "[]"]
  by (simp add: header_str_def header_get_def)

end
