(* ===== verification/Server.thy ===== *)
theory Server
  imports Middleware Report Sse Auth
begin

text \<open>
  \<open>crates/core/src/server.rs\<close>: the builder, the routes behind the authentication check, and the
  handler that takes a request through validation, session correlation, the request chain, the
  upstream, the response chain and the cost recorder.

  \<^item> \<open>server_env\<close> is what one call of the handler reads from its surroundings: the JSON package, the
    report files, the environment variable, the upstream client, and one clock reading per phase.
  \<^item> \<open>world\<close> is what the calls share: the request counter, the report cursors, the state behind the
    middlewares and the recorder, and the list of requests handed to the upstream client so far.
  \<^item> A panic in a hook ends the call without a reply, \<open>Aborted\<close>.
\<close>

section \<open>State\<close>

record upstream_request =
  up_method :: string
  up_url :: string
  up_headers :: header_map
  up_body :: bytes

text \<open>The three classes of \<open>reqwest::Error\<close> the sources tell apart, each with its text.\<close>

datatype send_error = TimeoutError string | ConnectError string | OtherError string

text \<open>An upstream response whose body may fail to arrive.\<close>

record upstream_response =
  ur_status :: status
  ur_headers :: header_map
  ur_bytes :: "string + bytes"

type_synonym ('t, 'w) cost_recorder =
  "'t \<Rightarrow> connection_context \<Rightarrow> json \<Rightarrow> 'w \<Rightarrow> 'w \<times> (proxy_error + unit)"

record ('t, 'w) proxy_state =
  ps_config :: proxy_config
  ps_middlewares :: "'t \<Rightarrow> ('w, failure) middleware list"
  ps_cost_recorder :: "('t, 'w) cost_recorder option"

text \<open>A request as the handler gets it; \<open>hr_body\<close> is \<open>None\<close> for a body that breaks off.\<close>

record http_request =
  hr_method :: string
  hr_path :: string
  hr_headers :: header_map
  hr_body :: "bytes option"

text \<open>
  \<open>se_body_limit\<close> is \<open>tower_http\<close>'s \<open>RequestBodyLimitLayer\<close>: for a limit, the headers and the body of a
  request, \<open>None\<close> if the layer answers with status 413 itself, or the body it hands on.
\<close>

record 't server_env =
  se_body_limit :: "nat \<Rightarrow> header_map \<Rightarrow> bytes option \<Rightarrow> bytes option option"
  se_json :: json_lib
  se_parse_report :: "string \<Rightarrow> proxy_report option"
  se_read_report :: "string \<Rightarrow> string option"
  se_parse_tokenless :: "string \<Rightarrow> (u64 option \<times> u64 option \<times> u64 option) option"
  se_tokenless_env :: "string option"
  se_now :: instant
  se_request_time :: 't
  se_response_time :: 't
  se_client :: "upstream_request \<Rightarrow> send_error + upstream_response"

record 'w world =
  w_next_request_id :: u64
  w_cursors :: cursors
  w_state :: 'w
  w_sent :: "upstream_request list"

datatype reply =
    Forwarded status header_map bytes
  | ErrorReply status error_body
  | StatusOnly status
  | HealthOk
  | Aborted

section \<open>Builder\<close>

record ('t, 'w) agent_proxy_builder =
  b_config :: "proxy_config option"
  b_middlewares :: "('t \<Rightarrow> ('w, failure) middleware) list"
  b_cost_recorder :: "('t, 'w) cost_recorder option"

definition builder_default :: "('t, 'w) agent_proxy_builder" where
  "builder_default = \<lparr>b_config = None, b_middlewares = [], b_cost_recorder = None\<rparr>"

definition builder_cost_recorder where
  "builder_cost_recorder cr b = b\<lparr>b_cost_recorder := Some cr\<rparr>"

definition builder_config where
  "builder_config cfg b = b\<lparr>b_config := Some cfg\<rparr>"

definition builder_middleware where
  "builder_middleware m b = b\<lparr>b_middlewares := b_middlewares b @ [m]\<rparr>"

definition builder_build :: "('t, 'w) agent_proxy_builder \<Rightarrow> proxy_error + ('t, 'w) proxy_state" where
  "builder_build b =
     res_bind (ok_or (Internal ''config is required'') (b_config b)) (\<lambda>cfg.
       Inr \<lparr>ps_config = cfg, ps_middlewares = (\<lambda>t. map (\<lambda>m. m t) (b_middlewares b)),
            ps_cost_recorder = b_cost_recorder b\<rparr>)"

section \<open>Before the chain\<close>

definition next_request_id :: "'w world \<Rightarrow> 'w world \<times> u64" where
  "next_request_id w = (w\<lparr>w_next_request_id := w_next_request_id w + 1\<rparr>, w_next_request_id w)"

definition world_new :: "'w \<Rightarrow> 'w world" where
  "world_new s = \<lparr>w_next_request_id = 1, w_cursors = Map.empty, w_state = s, w_sent = []\<rparr>"

definition body_too_large :: "proxy_config \<Rightarrow> header_map \<Rightarrow> bool" where
  "body_too_large cfg h =
     is_some_and (\<lambda>len. max_body_size cfg < len)
       (Option.bind (header_str h ''content-length'') parse_usize)"

text \<open>\<open>axum::body::to_bytes\<close> with the size limit.\<close>

definition to_bytes :: "bytes option \<Rightarrow> nat \<Rightarrow> bytes option" where
  "to_bytes body limit =
     (case body of None \<Rightarrow> None | Some b \<Rightarrow> if length b \<le> limit then Some b else None)"

definition validate_proxy_request :: "proxy_request \<Rightarrow> proxy_error + unit" where
  "validate_proxy_request req =
     (case header_str (req_headers req) ''content-type'' of
        Some ct \<Rightarrow>
          if \<not> starts_with ''application/json'' ct
          then Inl (BadRequest (''unsupported content-type: '' @ ct @ ''. expected application/json''))
          else if req_body req = [] then Inl (BadRequest ''empty request body'')
          else Inr ()
      | None \<Rightarrow> if req_body req = [] then Inl (BadRequest ''empty request body'') else Inr ())"

definition header_find :: "(string \<Rightarrow> bool) \<Rightarrow> header_map \<Rightarrow> string option" where
  "header_find p h = Option.bind (find (\<lambda>(k, _). p (to_lowercase k)) h) (\<lambda>(_, v). to_str v)"

definition session_header :: "header_map \<Rightarrow> string option" where
  "session_header h = header_find (\<lambda>k. k = ''x-claude-code-session-id'') h"

definition project_header :: "header_map \<Rightarrow> string option" where
  "project_header h =
     header_find (\<lambda>k. k = ''x-claude-code-project-path'' \<or> k = ''x-project-path'') h"

definition apply_accumulator :: "tokenless_accumulator \<Rightarrow> connection_context \<Rightarrow> connection_context" where
  "apply_accumulator acc ctx =
     ctx\<lparr>tokenless_saved_tokens := acc_total_saved acc, tokenless_rtk_saved := acc_rtk_saved acc,
         tokenless_response_saved := acc_response_saved acc, tokenless_schema_saved := acc_schema_saved acc,
         tokenless_breakdown_json := Some (acc_breakdown_json acc),
         user_name := (if user_name ctx = None then acc_user_name acc else user_name ctx)\<rparr>"

definition correlate_session ::
  "'t server_env \<Rightarrow> proxy_request \<Rightarrow> cursors \<Rightarrow> connection_context \<Rightarrow> cursors \<times> connection_context" where
  "correlate_session E req cur ctx =
     (let sid = session_header (req_headers req);
          proj = project_header (req_headers req);
          (cur', ctx', proj') =
            (case sid of
               None \<Rightarrow> (cur, ctx, proj)
             | Some s \<Rightarrow>
                 let ctx = ctx\<lparr>session_id := Some s\<rparr> in
                 (case consume_report (se_json E) (se_parse_report E) (se_read_report E) s cur of
                    (cur', None) \<Rightarrow> (cur', ctx, proj)
                  | (cur', Some acc) \<Rightarrow>
                      (cur', apply_accumulator acc ctx, if proj = None then acc_project_path acc else proj)));
          ctx'' = (case proj' of None \<Rightarrow> ctx' | Some p \<Rightarrow> ctx'\<lparr>project_path := Some p\<rparr>)
      in (cur', ctx''))"

definition inject_stats :: "'t server_env \<Rightarrow> connection_context \<Rightarrow> connection_context" where
  "inject_stats E ctx =
     (let stats = read_tokenless_stats (se_parse_tokenless E) (se_tokenless_env E) in
      if 0 < total_saved stats then ctx_insert EXT_COMPRESSION_STATS (ExtStats stats) ctx else ctx)"

section \<open>Upstream\<close>

definition dropped_request_headers :: "string list" where
  "dropped_request_headers =
     [''transfer-encoding'', ''connection'', ''keep-alive'', ''accept-encoding'', ''host'', ''content-length'',
      ''authorization'', ''x-api-key'']"

definition upstream_path :: "proxy_request \<Rightarrow> channel_config \<Rightarrow> string" where
  "upstream_path req ch =
     (case cc_rewrite_path ch of Some p \<Rightarrow> if p \<noteq> [] then p else req_path req | None \<Rightarrow> req_path req)"

definition build_upstream_request :: "proxy_request \<Rightarrow> channel_config \<Rightarrow> upstream_request" where
  "build_upstream_request req ch =
     \<lparr>up_method = req_method req,
      up_url = trim_end_char (CHR ''/'') (cc_url ch) @ upstream_path req ch,
      up_headers =
        filter (\<lambda>(k, _). to_lowercase k \<notin> set dropped_request_headers) (req_headers req) @
        (if cc_api_key ch \<noteq> [] then [(''authorization'', ''Bearer '' @ cc_api_key ch)] else []),
      up_body = req_body req\<rparr>"

fun send_error_text :: "send_error \<Rightarrow> string" where
  "send_error_text (TimeoutError e) = ''upstream timeout: '' @ e"
| "send_error_text (ConnectError e) = ''upstream connection failed: '' @ e"
| "send_error_text (OtherError e) = ''upstream request failed: '' @ e"

definition send_error_to_proxy :: "send_error \<Rightarrow> proxy_error" where
  "send_error_to_proxy e = Upstream (send_error_text e)"

definition forward_to_upstream ::
  "(upstream_request \<Rightarrow> send_error + upstream_response) \<Rightarrow> proxy_request \<Rightarrow> channel_config \<Rightarrow>
    proxy_error + upstream_response" where
  "forward_to_upstream client req ch =
     (case client (build_upstream_request req ch) of
        Inl e \<Rightarrow> Inl (send_error_to_proxy e) | Inr r \<Rightarrow> Inr r)"

section \<open>The way back\<close>

definition is_forward_header :: "string \<Rightarrow> bool" where
  "is_forward_header name \<longleftrightarrow>
     to_lowercase name \<notin> set [''transfer-encoding'', ''connection'', ''keep-alive'', ''content-length'', ''host'',
       ''authorization'', ''x-api-key'']"

definition build_axum_response :: "proxy_response \<Rightarrow> reply" where
  "build_axum_response res =
     Forwarded (res_status res)
       (fold (\<lambda>(k, v) h. if is_forward_header k then header_insert k v h else h) (res_headers res) [])
       (res_body res)"

definition error_reply :: "proxy_error \<Rightarrow> reply" where
  "error_reply e = (case error_to_response e of (s, b) \<Rightarrow> ErrorReply s b)"

fun failure_reply :: "failure \<Rightarrow> reply" where
  "failure_reply (Err e) = error_reply e"
| "failure_reply Panic = Aborted"

definition record_cost :: "('t, 'w) proxy_state \<Rightarrow> 't \<Rightarrow> connection_context \<Rightarrow> json \<Rightarrow> 'w \<Rightarrow> 'w" where
  "record_cost st t ctx body s =
     (case ps_cost_recorder st of None \<Rightarrow> s | Some cr \<Rightarrow> fst (cr t ctx body s))"

definition handle_non_streaming_response ::
  "('t, 'w) proxy_state \<Rightarrow> 't server_env \<Rightarrow> upstream_response \<Rightarrow> connection_context \<Rightarrow> 'w \<Rightarrow> 'w \<times> reply" where
  "handle_non_streaming_response st E up ctx s =
     (case ur_bytes up of
        Inl e \<Rightarrow> (s, error_reply (Upstream (''failed to read upstream response: '' @ e)))
      | Inr b \<Rightarrow>
          (case run_on_response_chain (ps_middlewares st (se_response_time E)) s
              \<lparr>res_status = ur_status up, res_headers = ur_headers up, res_body = b, res_is_streaming = False\<rparr> ctx of
             (s', Inl f) \<Rightarrow> (s', failure_reply f)
           | (s', Inr res) \<Rightarrow>
               (case from_slice (se_json E) (res_body res) of
                  Inl _ \<Rightarrow> s'
                | Inr body_json \<Rightarrow> record_cost st (se_response_time E) ctx body_json s',
                build_axum_response res)))"

definition handle_streaming_response ::
  "('t, 'w) proxy_state \<Rightarrow> 't server_env \<Rightarrow> upstream_response \<Rightarrow> connection_context \<Rightarrow> 'w \<Rightarrow> 'w \<times> reply" where
  "handle_streaming_response st E up ctx s =
     (case ur_bytes up of
        Inl e \<Rightarrow> (s, error_reply (Upstream (''failed to read streaming response: '' @ e)))
      | Inr b \<Rightarrow>
          (case run_on_response_chain (ps_middlewares st (se_response_time E)) s
              \<lparr>res_status = ur_status up, res_headers = ur_headers up, res_body = b, res_is_streaming = True\<rparr> ctx of
             (s', Inl f) \<Rightarrow> (s', failure_reply f)
           | (s', Inr res) \<Rightarrow>
               (record_cost st (se_response_time E) ctx (extract_usage_from_sse (se_json E) (res_body res)) s',
                build_axum_response res)))"

section \<open>The handler\<close>

text \<open>From the request chain on.\<close>

definition handle_accepted ::
  "('t, 'w) proxy_state \<Rightarrow> 't server_env \<Rightarrow> proxy_request \<Rightarrow> connection_context \<Rightarrow> 'w world \<Rightarrow> 'w world \<times> reply"
where
  "handle_accepted st E req ctx w =
     (case run_on_request_chain (ps_middlewares st (se_request_time E)) (w_state w) req ctx of
        (s, Inl f) \<Rightarrow> (w\<lparr>w_state := s\<rparr>, failure_reply f)
      | (s, Inr (req', ctx')) \<Rightarrow>
          (case selected_channel ctx' of
             None \<Rightarrow> (w\<lparr>w_state := s\<rparr>, error_reply (ChannelSelection ''unknown''))
           | Some ch \<Rightarrow>
               let w' = w\<lparr>w_state := s, w_sent := w_sent w @ [build_upstream_request req' ch]\<rparr> in
               (case forward_to_upstream (se_client E) req' ch of
                  Inl e \<Rightarrow> (w', error_reply e)
                | Inr up \<Rightarrow>
                    let (s', r) = (if is_streaming (se_json E) req' then handle_streaming_response st E up ctx' s
                                   else handle_non_streaming_response st E up ctx' s)
                    in (w'\<lparr>w_state := s'\<rparr>, r))))"

definition handle_proxy_request ::
  "('t, 'w) proxy_state \<Rightarrow> 't server_env \<Rightarrow> string option \<Rightarrow> http_request \<Rightarrow> 'w world \<Rightarrow> 'w world \<times> reply" where
  "handle_proxy_request st E arole hr w0 =
     (let (w, rid) = next_request_id w0;
          path = hr_path hr;
          fmt = detect_api_format path
      in if fmt = None
         then (w, ErrorReply 404 (error_body_new ''not_found'' (''no route for '' @ path)))
         else if body_too_large (ps_config st) (hr_headers hr)
         then (w, ErrorReply 413 (error_body_new ''body_too_large''
                (''request body exceeds size limit of '' @ show_nat (max_body_size (ps_config st)))))
         else
           case to_bytes (hr_body hr) (max_body_size (ps_config st)) of
             None \<Rightarrow> (w, ErrorReply 413 (error_body_new ''body_too_large'' ''request body exceeds size limit''))
           | Some body_bytes \<Rightarrow>
               let agent = detect_agent_type (hr_headers hr) path;
                   req = \<lparr>req_method = hr_method hr, req_path = path, req_headers = hr_headers hr,
                          req_body = body_bytes\<rparr>
               in (case validate_proxy_request req of
                     Inl e \<Rightarrow> (w, error_reply e)
                   | Inr _ \<Rightarrow>
                       let ctx0 = connection_context_new (se_now E) rid agent arole fmt;
                           (cur, ctx1) = correlate_session E req (w_cursors w) ctx0;
                           ctx = inject_stats E ctx1
                       in handle_accepted st E req ctx (w\<lparr>w_cursors := cur\<rparr>)))"

text \<open>
  \<open>build_router\<close> for a request that matches one of its routes. The body limit is the outermost layer, the
  authentication check is the next, and both are around every route.
\<close>

datatype route = ProxyRoute | HealthRoute

definition handle_health :: "'w world \<Rightarrow> 'w world \<times> reply" where
  "handle_health w = (w, HealthOk)"

definition build_router ::
  "('t, 'w) proxy_state \<Rightarrow> 't server_env \<Rightarrow> route \<Rightarrow> http_request \<Rightarrow> 'w world \<Rightarrow> 'w world \<times> reply" where
  "build_router st E rt hr w =
     (case se_body_limit E (max_body_size (ps_config st)) (hr_headers hr) (hr_body hr) of
        None \<Rightarrow> (w, StatusOnly 413)
      | Some body \<Rightarrow>
          (case auth_middleware (auth_state_from_config (ps_config st))
              (\<lambda>r. case rt of
                 ProxyRoute \<Rightarrow> handle_proxy_request st E r (hr\<lparr>hr_body := body\<rparr>) w
               | HealthRoute \<Rightarrow> handle_health w) (hr_headers hr) of
             Inl s \<Rightarrow> (w, StatusOnly s)
           | Inr r \<Rightarrow> r))"

section \<open>Lemmas\<close>

lemma next_request_id_simps [simp]:
  "fst (next_request_id w) = w\<lparr>w_next_request_id := w_next_request_id w + 1\<rparr>"
  "snd (next_request_id w) = w_next_request_id w"
  by (simp_all add: next_request_id_def)

text \<open>What a call makes of a request before the chain: the error reply, or the request and its context.\<close>

definition admit ::
  "('t, 'w) proxy_state \<Rightarrow> 't server_env \<Rightarrow> string option \<Rightarrow> http_request \<Rightarrow> 'w world \<Rightarrow>
    reply + cursors \<times> proxy_request \<times> connection_context" where
  "admit st E arole hr w =
     (if detect_api_format (hr_path hr) = None
      then Inl (ErrorReply 404 (error_body_new ''not_found'' (''no route for '' @ hr_path hr)))
      else if body_too_large (ps_config st) (hr_headers hr)
      then Inl (ErrorReply 413 (error_body_new ''body_too_large''
             (''request body exceeds size limit of '' @ show_nat (max_body_size (ps_config st)))))
      else
        case to_bytes (hr_body hr) (max_body_size (ps_config st)) of
          None \<Rightarrow> Inl (ErrorReply 413 (error_body_new ''body_too_large'' ''request body exceeds size limit''))
        | Some b \<Rightarrow>
            let req = \<lparr>req_method = hr_method hr, req_path = hr_path hr, req_headers = hr_headers hr,
                       req_body = b\<rparr>;
                (cur, ctx) = correlate_session E req (w_cursors w)
                  (connection_context_new (se_now E) (w_next_request_id w)
                    (detect_agent_type (hr_headers hr) (hr_path hr)) arole (detect_api_format (hr_path hr)))
            in (case validate_proxy_request req of
                  Inl e \<Rightarrow> Inl (error_reply e) | Inr _ \<Rightarrow> Inr (cur, req, inject_stats E ctx)))"

lemma handle_proxy_request_admit:
  "handle_proxy_request st E arole hr w =
     (case admit st E arole hr w of
        Inl r \<Rightarrow> (w\<lparr>w_next_request_id := w_next_request_id w + 1\<rparr>, r)
      | Inr (cur, req, ctx) \<Rightarrow>
          handle_accepted st E req ctx
            (w\<lparr>w_next_request_id := w_next_request_id w + 1, w_cursors := cur\<rparr>))"
  by (simp add: handle_proxy_request_def admit_def next_request_id_def Let_def
      split: option.split sum.split prod.split)

lemma handle_accepted_cases:
  assumes "handle_accepted st E req ctx w = (w', r)"
  obtains (failed) s f where
      "run_on_request_chain (ps_middlewares st (se_request_time E)) (w_state w) req ctx = (s, Inl f)"
      "w' = w\<lparr>w_state := s\<rparr>" "r = failure_reply f"
  | (unrouted) s req' ctx' where
      "run_on_request_chain (ps_middlewares st (se_request_time E)) (w_state w) req ctx = (s, Inr (req', ctx'))"
      "selected_channel ctx' = None" "w' = w\<lparr>w_state := s\<rparr>" "r = error_reply (ChannelSelection ''unknown'')"
  | (unsent) s req' ctx' ch e where
      "run_on_request_chain (ps_middlewares st (se_request_time E)) (w_state w) req ctx = (s, Inr (req', ctx'))"
      "selected_channel ctx' = Some ch" "se_client E (build_upstream_request req' ch) = Inl e"
      "w' = w\<lparr>w_sent := w_sent w @ [build_upstream_request req' ch], w_state := s\<rparr>"
      "r = error_reply (send_error_to_proxy e)"
  | (answered) s req' ctx' ch up s' where
      "run_on_request_chain (ps_middlewares st (se_request_time E)) (w_state w) req ctx = (s, Inr (req', ctx'))"
      "selected_channel ctx' = Some ch" "se_client E (build_upstream_request req' ch) = Inr up"
      "(if is_streaming (se_json E) req' then handle_streaming_response st E up ctx' s
        else handle_non_streaming_response st E up ctx' s) = (s', r)"
      "w' = w\<lparr>w_sent := w_sent w @ [build_upstream_request req' ch], w_state := s'\<rparr>"
proof -
  obtain s x where run: "run_on_request_chain (ps_middlewares st (se_request_time E)) (w_state w) req ctx = (s, x)"
    by fastforce
  show thesis
  proof (cases x)
    case (Inl f)
    with assms run show ?thesis by (intro failed [of s f]) (simp_all add: handle_accepted_def)
  next
    case (Inr y)
    obtain req' ctx' where y: "y = (req', ctx')" by fastforce
    show ?thesis
    proof (cases "selected_channel ctx'")
      case None
      with assms run Inr y show ?thesis
        by (intro unrouted [of s req' ctx']) (simp_all add: handle_accepted_def)
    next
      case (Some ch)
      show ?thesis
      proof (cases "se_client E (build_upstream_request req' ch)")
        case (Inl e)
        with assms run Inr y Some show ?thesis
          by (intro unsent [of s req' ctx' ch e]) (auto simp: handle_accepted_def forward_to_upstream_def Let_def)
      next
        case up: (Inr up)
        obtain s' r' where h: "(if is_streaming (se_json E) req' then handle_streaming_response st E up ctx' s
            else handle_non_streaming_response st E up ctx' s) = (s', r')" by fastforce
        from assms run Inr y Some up h show ?thesis
          by (intro answered [of s req' ctx' ch up s'])
            (auto simp: handle_accepted_def forward_to_upstream_def Let_def split: if_splits)
      qed
    qed
  qed
qed

lemma handle_accepted_sends:
  assumes "run_on_request_chain (ps_middlewares st (se_request_time E)) (w_state w) req ctx = (s, Inr (req', ctx'))"
    and "selected_channel ctx' = Some ch"
  shows "w_sent (fst (handle_accepted st E req ctx w)) = w_sent w @ [build_upstream_request req' ch]"
  using assms by (simp add: handle_accepted_def Let_def split: sum.split prod.split)

lemma error_reply_not_Forwarded [simp]: "error_reply e \<noteq> Forwarded a b c" "failure_reply f \<noteq> Forwarded a b c"
  by (simp_all add: error_reply_def split: prod.splits) (cases f; simp add: error_reply_def split: prod.splits)

lemma response_forwarded:
  assumes "(if b then handle_streaming_response st E up ctx s
    else handle_non_streaming_response st E up ctx s) = (s', Forwarded x y z)"
  shows "\<exists>d. ur_bytes up = Inr d"
  using assms
  by (auto simp: handle_streaming_response_def handle_non_streaming_response_def split: if_splits sum.splits prod.splits)

lemma admit_not_Forwarded: "admit st E arole hr w = Inl r \<Longrightarrow> r \<noteq> Forwarded a b c"
  by (auto simp: admit_def Let_def split: if_splits option.splits sum.splits prod.splits)

lemma header_get_fold_insert:
  "header_get (fold (\<lambda>(k, v) h. if p k then header_insert k v h else h) xs h0) k =
     (if p k then (case map_of (rev xs) k of None \<Rightarrow> header_get h0 k | Some v \<Rightarrow> Some v) else header_get h0 k)"
proof (induction xs arbitrary: h0)
  case (Cons x xs)
  obtain k' v where x: "x = (k', v)" by fastforce
  show ?case unfolding x by (auto simp: Cons.IH map_add_def split: option.splits)
qed simp

lemma distinct_header_insert: "distinct (map fst h) \<Longrightarrow> distinct (map fst (header_insert k v h))"
  by (auto simp: header_insert_def distinct_map_filter)

lemma distinct_fold_insert:
  "distinct (map fst h0) \<Longrightarrow>
     distinct (map fst (fold (\<lambda>(k, v) h. if p k then header_insert k v h else h) xs h0))"
  by (induction xs arbitrary: h0) (auto simp: distinct_header_insert)

lemma handled_cases:
  assumes "handle_proxy_request st E arole hr w = (w', r)"
  shows "w_next_request_id w' = w_next_request_id w + 1 \<and>
    (w_sent w' = w_sent w \<or> (\<exists>u. w_sent w' = w_sent w @ [u])) \<and>
    (\<forall>s h b. r = Forwarded s h b \<longrightarrow>
       (\<exists>u up d. w_sent w' = w_sent w @ [u] \<and> se_client E u = Inr up \<and> ur_bytes up = Inr d))"
proof (cases "admit st E arole hr w")
  case (Inl x)
  with assms show ?thesis by (auto simp: handle_proxy_request_admit dest: admit_not_Forwarded)
next
  case (Inr y)
  obtain cur req ctx where y: "y = (cur, req, ctx)" by (cases y)
  let ?w = "w\<lparr>w_next_request_id := w_next_request_id w + 1, w_cursors := cur\<rparr>"
  from assms Inr y have "handle_accepted st E req ctx ?w = (w', r)" by (simp add: handle_proxy_request_admit)
  then show ?thesis
  proof (cases rule: handle_accepted_cases)
    case (answered s req' ctx' ch up s')
    then show ?thesis using response_forwarded by fastforce
  qed auto
qed

lemmas handled_sent = handled_cases [THEN conjunct1] handled_cases [THEN conjunct2, THEN conjunct1]

lemma handled_forwarded:
  "handle_proxy_request st E arole hr w = (w', Forwarded s h b) \<Longrightarrow>
     \<exists>u up d. w_sent w' = w_sent w @ [u] \<and> se_client E u = Inr up \<and> ur_bytes up = Inr d"
  by (drule handled_cases) blast

text \<open>
  What the handler asks of a deployment for a condition on its state to survive every call: each member
  of the chain and the cost recorder keep it.
\<close>

locale served_keeps =
  fixes st :: "('t, 'w) proxy_state" and I :: "'w \<Rightarrow> bool"
  assumes chain_keeps: "mw_keeps (ps_middlewares st t) I"
    and recorder_keeps: "I s \<Longrightarrow> I (record_cost st t ctx v s)"
begin

lemma answer_keeps:
  assumes "I s"
    and "(if b then handle_streaming_response st E up ctx s else handle_non_streaming_response st E up ctx s) = (s', r)"
  shows "I s'"
proof -
  have k: "I (fst (run_on_response_chain (ps_middlewares st (se_response_time E)) s res ctx))" for res
    by (rule mw_keeps.keeps_chain(2) [OF chain_keeps assms(1)])
  have "I s1" if "run_on_response_chain (ps_middlewares st (se_response_time E)) s res ctx = (s1, x)" for res s1 x
    using k [of res] that by simp
  then show ?thesis
    using assms
    by (cases b) (auto simp: handle_streaming_response_def handle_non_streaming_response_def
        split: sum.splits prod.splits intro: recorder_keeps)
qed

lemma handled_keeps:
  assumes "I (w_state w)"
  shows "I (w_state (fst (handle_proxy_request st E arole hr w)))"
proof (cases "admit st E arole hr w")
  case (Inr y)
  obtain cur req ctx where y: "y = (cur, req, ctx)" by (cases y)
  let ?w = "w\<lparr>w_next_request_id := w_next_request_id w + 1, w_cursors := cur\<rparr>"
  have q: "I (fst (run_on_request_chain (ps_middlewares st (se_request_time E)) (w_state ?w) req ctx))"
    by (rule mw_keeps.keeps_chain(1) [OF chain_keeps]) (use assms in simp)
  obtain w' r where h: "handle_accepted st E req ctx ?w = (w', r)" by fastforce
  then have "I (w_state w')"
  proof (cases rule: handle_accepted_cases)
    case (answered s req' ctx' ch up s')
    with q answer_keeps [OF _ answered(4)] show ?thesis by simp
  qed (use q in auto)
  with Inr y h show ?thesis by (simp add: handle_proxy_request_admit)
qed (use assms in \<open>simp add: handle_proxy_request_admit\<close>)

end

lemma auth_refuses:
  assumes "config_has_auth cfg"
    and "\<And>k. extract_api_key h = Some k \<Longrightarrow> map_of (cfg_proxy_auth_keys cfg) k = None"
    and "\<And>k. cfg_proxy_api_key cfg = Some k \<Longrightarrow> bearer_token h \<noteq> Some k"
    and "\<And>k. cfg_proxy_token cfg = Some k \<Longrightarrow> header_str h ''x-proxy-token'' \<noteq> Some k"
  shows "auth_middleware (auth_state_from_config cfg) continue h = Inl 401"
proof -
  have "Option.bind (extract_api_key h) (map_of (cfg_proxy_auth_keys cfg)) = None"
    using assms(2) by (cases "extract_api_key h") auto
  then show ?thesis
    using assms(1,3,4)
    by (auto simp: auth_middleware_def auth_state_from_config_def has_auth_def config_has_auth_def split: option.splits)
qed

lemma filter_exclude:
  "(\<And>x. Q x \<Longrightarrow> \<not> P x) \<Longrightarrow> filter Q (filter P xs) = []"
  by (induction xs) auto

lemma lower_literals:
  "to_lowercase ''authorization'' = ''authorization''" "to_lowercase ''x-proxy-token'' = ''x-proxy-token''"
  by (simp_all add: to_lowercase_def ascii_lower_def)

lemma upstream_authorization:
  "filter (\<lambda>(k, _). to_lowercase k = ''authorization'') (up_headers (build_upstream_request req ch)) =
     (if cc_api_key ch = [] then [] else [(''authorization'', ''Bearer '' @ cc_api_key ch)])"
proof -
  have "filter (\<lambda>(k, _). to_lowercase k = ''authorization'')
      (filter (\<lambda>(k, _). to_lowercase k \<notin> set dropped_request_headers) (req_headers req)) = []"
    by (rule filter_exclude; force simp: dropped_request_headers_def)
  then show ?thesis by (simp add: build_upstream_request_def lower_literals)
qed

text \<open>The headers of the upstream request: by name, and those of the client.\<close>

lemma upstream_headers_named:
  "filter (\<lambda>h. fst h = k) (up_headers (build_upstream_request req ch)) =
     (if to_lowercase k \<in> set dropped_request_headers
      then (if k = ''authorization'' \<and> cc_api_key ch \<noteq> [] then [(k, ''Bearer '' @ cc_api_key ch)] else [])
      else filter (\<lambda>h. fst h = k) (req_headers req))"
proof -
  have "filter (\<lambda>h. fst h = k) (filter (\<lambda>(k, _). to_lowercase k \<notin> set dropped_request_headers) hs) =
      (if to_lowercase k \<in> set dropped_request_headers then [] else filter (\<lambda>h. fst h = k) hs)" for hs :: header_map
    by (induction hs) auto
  moreover have "to_lowercase ''authorization'' \<in> set dropped_request_headers"
    by (simp add: lower_literals dropped_request_headers_def)
  ultimately show ?thesis by (auto simp: build_upstream_request_def)
qed

lemma upstream_headers_kept:
  "filter (\<lambda>h. fst h \<noteq> ''authorization'') (up_headers (build_upstream_request req ch)) =
     filter (\<lambda>h. to_lowercase (fst h) \<notin> set dropped_request_headers) (req_headers req)"
proof -
  have "to_lowercase ''authorization'' \<in> set dropped_request_headers"
    by (simp add: lower_literals dropped_request_headers_def)
  then have "filter (\<lambda>h. fst h \<noteq> ''authorization'')
      (filter (\<lambda>(k, _). to_lowercase k \<notin> set dropped_request_headers) hs) =
      filter (\<lambda>h. to_lowercase (fst h) \<notin> set dropped_request_headers) hs" for hs :: header_map
    by (induction hs) auto
  then show ?thesis by (simp add: build_upstream_request_def)
qed

section \<open>Properties\<close>


text \<open>The layer of the sample: it refuses by the announced length and cuts off a longer body.\<close>

definition sample_body_limit :: "nat \<Rightarrow> header_map \<Rightarrow> bytes option \<Rightarrow> bytes option option" where
  "sample_body_limit limit h body =
     (if is_some_and (\<lambda>len. limit < len) (Option.bind (header_str h ''content-length'') parse_usize) then None
      else Some (to_bytes body limit))"

definition sample_server_env :: "unit server_env" where
  "sample_server_env =
     \<lparr>se_body_limit = sample_body_limit,
      se_json = \<lparr>from_slice = (\<lambda>_. Inr JNull), to_vec = (\<lambda>_. Inr [])\<rparr>, se_parse_report = (\<lambda>_. None),
      se_read_report = (\<lambda>_. None), se_parse_tokenless = (\<lambda>_. None), se_tokenless_env = None, se_now = 0,
      se_request_time = (), se_response_time = (),
      se_client = (\<lambda>_. Inr \<lparr>ur_status = 200, ur_headers = [], ur_bytes = Inr ''ok''\<rparr>)\<rparr>"

definition sample_channel_config :: channel_config where
  "sample_channel_config =
     \<lparr>cc_url = ''https://up/'', cc_api_key = ''k'', cc_protocol = OpenaiChat, cc_name = ''c'',
      cc_rewrite_path = None\<rparr>"

text \<open>A chain of one middleware that selects the sample channel.\<close>

definition sample_selector :: "(unit, failure) middleware" where
  "sample_selector =
     \<lparr>mw_name = ''selector'',
      on_request = (\<lambda>u req ctx. (u, Inr (req, ctx_insert EXT_SELECTED_CHANNEL (ExtChannel sample_channel_config) ctx))),
      on_response = (\<lambda>u res ctx. (u, Inr res))\<rparr>"

definition sample_proxy_state :: "(unit, unit) proxy_state" where
  "sample_proxy_state =
     \<lparr>ps_config = proxy_config_default\<lparr>cfg_proxy_token := Some ''t''\<rparr>, ps_middlewares = (\<lambda>_. [sample_selector]),
      ps_cost_recorder = None\<rparr>"

definition sample_http_request :: http_request where
  "sample_http_request =
     \<lparr>hr_method = ''POST'', hr_path = ''/v1/messages'', hr_headers = [(''x-proxy-token'', ''t'')],
      hr_body = Some ''b''\<rparr>"

lemmas sample_server_defs = sample_server_env_def sample_channel_config_def sample_selector_def
  sample_proxy_state_def sample_http_request_def proxy_config_default_def


text \<open>
  Malformed requests have no effect: a request to an unknown path, one whose body breaks off, is
  empty or exceeds the configured size, and one with a content type other than JSON are answered with
  404, 413 or 400; of the shared state only the request counter moves, so no middleware runs, no
  report is consumed and nothing is sent.
\<close>

theorem malformed_request_has_no_effect:
  assumes "detect_api_format (hr_path hr) = None \<or> hr_body hr = None \<or> hr_body hr = Some [] \<or>
      (\<exists>b. hr_body hr = Some b \<and> max_body_size (ps_config st) < length b) \<or>
      (\<exists>ct. header_str (hr_headers hr) ''content-type'' = Some ct \<and> \<not> starts_with ''application/json'' ct)"
  shows "\<exists>s b. handle_proxy_request st E arole hr w =
    (w\<lparr>w_next_request_id := w_next_request_id w + 1\<rparr>, ErrorReply s b) \<and> s \<in> {400, 404, 413}"
proof -
  have "\<exists>s b. admit st E arole hr w = Inl (ErrorReply s b) \<and> s \<in> {400, 404, 413}"
    using assms
    by (auto simp: admit_def to_bytes_def validate_proxy_request_def error_reply_def Let_def
        split: option.split prod.split)
  then show ?thesis by (auto simp: handle_proxy_request_admit)
qed

theorem malformed_request_has_no_effect_witness:
  "\<exists>s b. handle_proxy_request sample_proxy_state sample_server_env None
     (sample_http_request\<lparr>hr_body := Some []\<rparr>) (world_new ()) =
     ((world_new ())\<lparr>w_next_request_id := 2\<rparr>, ErrorReply s b)"
  using malformed_request_has_no_effect [of "sample_http_request\<lparr>hr_body := Some []\<rparr>" sample_proxy_state
      sample_server_env None "world_new ()"]
  by (auto simp: world_new_def)

text \<open>
  One call, at most one upstream request: whatever the chain does, a call of the handler uses one
  request identifier and hands at most one request to the upstream client, never a second one after a
  failure; and a reply is forwarded to the client only if the upstream client delivered a response
  with its whole body to exactly that request.
\<close>

theorem handler_sends_at_most_one:
  assumes "handle_proxy_request st E arole hr w = (w', r)"
  shows "w_next_request_id w' = w_next_request_id w + 1 \<and>
    (w_sent w' = w_sent w \<or> (\<exists>u. w_sent w' = w_sent w @ [u])) \<and>
    (\<forall>s h b. r = Forwarded s h b \<longrightarrow>
       (\<exists>u up d. w_sent w' = w_sent w @ [u] \<and> se_client E u = Inr up \<and> ur_bytes up = Inr d))"
  using handled_sent [OF assms] handled_forwarded assms by blast

theorem handler_sends_at_most_one_witness:
  "\<exists>w' r u. handle_proxy_request sample_proxy_state sample_server_env None sample_http_request (world_new ()) = (w', r) \<and>
     r = Forwarded 200 [] ''ok'' \<and> w_sent w' = [u]"
proof -
  obtain w' r where h: "handle_proxy_request sample_proxy_state sample_server_env None sample_http_request
      (world_new ()) = (w', r)" by fastforce
  then have "r = Forwarded 200 [] ''ok''"
    by (auto simp: handle_proxy_request_admit admit_def sample_server_defs detect_api_format_def ends_with_def
        body_too_large_def header_str_def header_get_def to_bytes_def validate_proxy_request_def handle_accepted_def
        correlate_session_def session_header_def project_header_def header_find_def to_lowercase_def ascii_lower_def
        inject_stats_def read_tokenless_stats_def compression_stats_default_def total_saved_def tokenless_saved_def
        proxy_schema_saved_def proxy_response_saved_def saturating_sub_def ctx_simps forward_to_upstream_def
        is_streaming_def handle_non_streaming_response_def run_on_response_chain_def record_cost_def
        build_axum_response_def Let_def)
  with handler_sends_at_most_one [OF h] h show ?thesis by (auto simp: world_new_def)
qed



text \<open>
  The reply to the client has the status and body of the response and, of its headers, one value for
  each name that may be forwarded: the last one. Earlier values of a repeated header are lost.
\<close>

theorem reply_keeps_last_header_value:
  assumes "build_axum_response res = Forwarded s h b"
  shows "s = res_status res \<and> b = res_body res \<and> distinct (map fst h) \<and>
    header_get h k = (if is_forward_header k then map_of (rev (res_headers res)) k else None)"
  using assms
  by (auto simp: build_axum_response_def header_get_fold_insert distinct_fold_insert header_get_def [of "[]"]
      split: option.splits)

theorem reply_keeps_last_header_value_witness:
  "\<exists>h. build_axum_response \<lparr>res_status = 200, res_headers = [(''set-cookie'', ''a''), (''set-cookie'', ''b'')],
     res_body = [], res_is_streaming = False\<rparr> = Forwarded 200 h [] \<and> header_get h ''set-cookie'' = Some ''b'' \<and>
     length h = 1"
  using reply_keeps_last_header_value [of "\<lparr>res_status = 200, res_headers = [(''set-cookie'', ''a''), (''set-cookie'', ''b'')],
     res_body = [], res_is_streaming = False\<rparr>" 200 _ "[]" "''set-cookie''"]
  by (simp add: build_axum_response_def is_forward_header_def header_insert_def to_lowercase_def ascii_lower_def
      header_get_def)

end
