(* ===== verification/Compress.thy ===== *)
theory Compress
  imports Middleware Sse
begin

text \<open>
  \<open>crates/compress/src/lib.rs\<close> and \<open>token_counter.rs\<close>: the middleware that shortens tool definitions
  and responses. The two compressors of the package \<open>tokenless_schema\<close> are not part of the repository;
  they are the fields of \<open>compressors\<close>. The debug log file is in the theory \<open>Debug_Log\<close>; the snapshots
  written to it are here, because taking one can panic: \<open>None\<close> is the panic of a slice that ends inside
  a character.
\<close>

record compressors =
  schema_compress :: "json \<Rightarrow> json"
  response_compress :: "json \<Rightarrow> json"

section \<open>Token estimate\<close>

text \<open>The number of characters of a UTF-8 text is the number of its bytes that start a character.\<close>

definition char_count :: "bytes \<Rightarrow> nat" where
  "char_count s = length (filter (\<lambda>c. \<not> cont_byte (of_char c)) s)"

definition count :: "bytes \<Rightarrow> u64" where
  "count data =
     (let text = (if utf8_valid data then data else []); chars = char_count text
      in of_nat (min (chars + 3) (2 ^ 64 - 1) div 4))"

section \<open>State\<close>

record response_stats =
  pre_tokens :: u64
  post_tokens :: u64

record compress_state =
  response_stats :: "response_stats option"
  enabled :: bool

definition compress_new :: compress_state where
  "compress_new = \<lparr>response_stats = None, enabled = True\<rparr>"

definition compress_disabled :: compress_state where
  "compress_disabled = compress_new\<lparr>enabled := False\<rparr>"

definition set_enabled :: "bool \<Rightarrow> compress_state \<Rightarrow> compress_state" where
  "set_enabled b s = s\<lparr>enabled := b\<rparr>"

definition take_response_stats :: "compress_state \<Rightarrow> compress_state \<times> response_stats option" where
  "take_response_stats s = (s\<lparr>response_stats := None\<rparr>, response_stats s)"

section \<open>Snapshots\<close>

definition is_char_boundary :: "nat \<Rightarrow> string \<Rightarrow> bool" where
  "is_char_boundary i s = (i = length s \<or> i < length s \<and> \<not> cont_byte (of_char (s ! i)))"

text \<open>\<open>&s[..n]\<close>\<close>

definition slice_to :: "nat \<Rightarrow> string \<Rightarrow> string option" where
  "slice_to n s = (if is_char_boundary n s then Some (take n s) else None)"

definition max_desc_len :: nat where
  "max_desc_len = 400"

definition tool_desc :: "json \<Rightarrow> string" where
  "tool_desc tool = unwrap_or [] (Option.bind (jget ''description'' tool) as_str)"

definition desc_short :: "string \<Rightarrow> string option" where
  "desc_short desc =
     (if max_desc_len < length desc
      then map_option (\<lambda>p. p @ ''...('' @ show_nat (length desc) @ '' chars)'') (slice_to max_desc_len desc)
      else Some desc)"

definition abbreviate_tool :: "json \<Rightarrow> json option" where
  "abbreviate_tool tool =
     (let name = unwrap_or ''?'' (Option.bind (jget ''name'' tool) as_str);
          prop_count = (case Option.bind (Option.bind (jget ''input_schema'' tool) (jget ''properties'')) as_object of
                          Some obj \<Rightarrow> length obj | None \<Rightarrow> 0)
      in map_option (\<lambda>d. JObject [(''desc'', JString d), (''name'', JString name),
                                   (''props'', JNumber (PosInt (of_nat prop_count)))])
           (desc_short (tool_desc tool)))"

fun abbreviate_tools :: "json list \<Rightarrow> json list option" where
  "abbreviate_tools [] = Some []"
| "abbreviate_tools (tool # tools) =
     Option.bind (abbreviate_tool tool) (\<lambda>item.
       map_option (\<lambda>items. item # items) (abbreviate_tools tools))"

definition abbreviate_tools_for_log :: "json_lib \<Rightarrow> json list \<Rightarrow> string option" where
  "abbreviate_tools_for_log J tools =
     map_option (\<lambda>items. case to_vec J (JArray items) of Inl _ \<Rightarrow> [] | Inr s \<Rightarrow> s) (abbreviate_tools tools)"

section \<open>Hooks\<close>

text \<open>The loop over the tools: the new tools and whether one of them changed.\<close>

fun compress_tools :: "(json \<Rightarrow> json) \<Rightarrow> json list \<Rightarrow> bool \<Rightarrow> json list \<times> bool" where
  "compress_tools f [] compressed = ([], compressed)"
| "compress_tools f (tool # tools) compressed =
     (let result = f tool;
          (tool', compressed') = (if result \<noteq> tool then (result, True) else (tool, compressed));
          (tools', c) = compress_tools f tools compressed'
      in (tool' # tools', c))"

definition record_request_stats :: "u64 \<Rightarrow> u64 \<Rightarrow> connection_context \<Rightarrow> connection_context" where
  "record_request_stats pre post ctx =
     (let stats = unwrap_or compression_stats_default (ctx_get dc_stats EXT_COMPRESSION_STATS ctx);
          legacy = JObject [(''input_tokens'', JNumber (PosInt (pre + tokenless_post stats))),
                            (''output_tokens'', JNumber (PosInt post))]
      in ctx_insert EXT_STATS_RECORD (ExtJson legacy)
           (ctx_insert EXT_COMPRESSION_STATS
             (ExtStats (stats\<lparr>proxy_req_pre := pre, proxy_req_post := post\<rparr>)) ctx))"

definition compress_on_request ::
  "json_lib \<Rightarrow> compressors \<Rightarrow> compress_state \<Rightarrow> proxy_request \<Rightarrow> connection_context \<Rightarrow>
    failure + proxy_request \<times> connection_context" where
  "compress_on_request J C s req ctx =
     (if \<not> enabled s then Inr (req, ctx)
      else
        case from_slice J (req_body req) of
          Inl e \<Rightarrow> Inl (Err (BadRequest (''invalid JSON: '' @ e)))
        | Inr body \<Rightarrow>
            let pre = count (req_body req) in
            case Option.bind (jget ''tools'' body) as_array of
              None \<Rightarrow> Inr (req, ctx)
            | Some tools \<Rightarrow>
                (case abbreviate_tools_for_log J tools of
                   None \<Rightarrow> Inl Panic
                 | Some before_snapshot \<Rightarrow>
                     let (tools', compressed) = compress_tools (schema_compress C) tools False in
                     if \<not> compressed then Inr (req, ctx)
                     else
                       case abbreviate_tools_for_log J tools' of
                         None \<Rightarrow> Inl Panic
                       | Some after_snapshot \<Rightarrow>
                           (case to_vec J (jreplace ''tools'' (JArray tools') body) of
                              Inl e \<Rightarrow> Inl (Err (BadRequest (''serialize error: '' @ e)))
                            | Inr new_body \<Rightarrow>
                                Inr (req\<lparr>req_body := new_body\<rparr>,
                                     record_request_stats pre (count new_body) ctx))))"

definition compress_on_response ::
  "json_lib \<Rightarrow> compressors \<Rightarrow> compress_state \<Rightarrow> proxy_response \<Rightarrow>
    compress_state \<times> (failure + proxy_response)" where
  "compress_on_response J C s res =
     (if \<not> enabled s then (s, Inr res)
      else if res_is_streaming res then (s, Inr res)
      else
        case from_slice J (res_body res) of
          Inl _ \<Rightarrow> (s, Inr res)
        | Inr body_val \<Rightarrow>
            let compressed = response_compress C body_val in
            if compressed = body_val then (s, Inr res)
            else (case to_vec J compressed of
                    Inl e \<Rightarrow> (s, Inl (Err (BadRequest (''serialize error: '' @ e))))
                  | Inr new_body \<Rightarrow>
                      (s\<lparr>response_stats := Some \<lparr>pre_tokens = count (res_body res),
                                               post_tokens = count new_body\<rparr>\<rparr>,
                       Inr (res\<lparr>res_body := new_body\<rparr>))))"

definition compress_middleware :: "json_lib \<Rightarrow> compressors \<Rightarrow> (compress_state, failure) middleware" where
  "compress_middleware J C =
     \<lparr>mw_name = ''compress'',
      on_request = (\<lambda>s req ctx. (s, compress_on_request J C s req ctx)),
      on_response = (\<lambda>s res ctx. compress_on_response J C s res)\<rparr>"

section \<open>Lemmas\<close>

lemma compress_tools_map:
  "compress_tools f tools c = (map f tools, c \<or> map f tools \<noteq> tools)"
  by (induction tools arbitrary: c) (auto simp: Let_def)

lemma desc_short_None_iff:
  "desc_short d = None \<longleftrightarrow> 400 < length d \<and> cont_byte (of_char (d ! 400))"
  by (auto simp: desc_short_def slice_to_def is_char_boundary_def max_desc_len_def)

lemma abbreviate_tool_None_iff: "abbreviate_tool t = None \<longleftrightarrow> desc_short (tool_desc t) = None"
  by (simp add: abbreviate_tool_def Let_def)

lemma abbreviate_tools_None_iff:
  "abbreviate_tools ts = None \<longleftrightarrow> (\<exists>t\<in>set ts. desc_short (tool_desc t) = None)"
proof (induction ts)
  case (Cons t ts)
  then show ?case by (cases "abbreviate_tool t") (auto simp: abbreviate_tool_None_iff [symmetric])
qed simp

lemma abbreviate_tools_for_log_None_iff:
  "abbreviate_tools_for_log J ts = None \<longleftrightarrow> (\<exists>t\<in>set ts. desc_short (tool_desc t) = None)"
  by (simp add: abbreviate_tools_for_log_def abbreviate_tools_None_iff)

lemma same_request_record_stats [simp]: "same_request ctx (record_request_stats a b ctx)"
  by (simp add: record_request_stats_def Let_def)

lemma bind_as_array: "Option.bind x as_array = Some t \<longleftrightarrow> x = Some (JArray t)"
proof (cases x)
  case (Some v)
  then show ?thesis by (cases v) auto
qed simp

lemma compress_on_request_tools:
  assumes "enabled s" "from_slice J (req_body req) = Inr body" "jget ''tools'' body = Some (JArray tools)"
  shows "compress_on_request J C s req ctx =
    (let tools' = map (schema_compress C) tools in
     if abbreviate_tools_for_log J tools = None then Inl Panic
     else if tools' = tools then Inr (req, ctx)
     else if abbreviate_tools_for_log J tools' = None then Inl Panic
     else (case to_vec J (jreplace ''tools'' (JArray tools') body) of
             Inl e \<Rightarrow> Inl (Err (BadRequest (''serialize error: '' @ e)))
           | Inr b \<Rightarrow> Inr (req\<lparr>req_body := b\<rparr>, record_request_stats (count (req_body req)) (count b) ctx)))"
  using assms by (auto simp: compress_on_request_def compress_tools_map Let_def split: option.split)

lemma compress_on_request_no_tools:
  assumes "from_slice J (req_body req) = Inr body" "\<And>tools. jget ''tools'' body \<noteq> Some (JArray tools)"
  shows "compress_on_request J C s req ctx = Inr (req, ctx)"
proof -
  have "Option.bind (jget ''tools'' body) as_array = None" using assms(2) bind_as_array by (metis option.exhaust)
  with assms(1) show ?thesis by (simp add: compress_on_request_def Let_def)
qed

lemma compress_on_request_Inr:
  assumes "compress_on_request J C s req ctx = Inr (req', ctx')"
  shows "req' = req \<and> ctx' = ctx \<or>
    (\<exists>body tools b. enabled s \<and> from_slice J (req_body req) = Inr body \<and>
       jget ''tools'' body = Some (JArray tools) \<and> map (schema_compress C) tools \<noteq> tools \<and>
       to_vec J (jreplace ''tools'' (JArray (map (schema_compress C) tools)) body) = Inr b \<and>
       req' = req\<lparr>req_body := b\<rparr> \<and> ctx' = record_request_stats (count (req_body req)) (count b) ctx)"
  using assms
  by (auto simp: compress_on_request_def compress_tools_map bind_as_array Let_def
      split: if_splits sum.splits option.splits)

lemma compress_on_request_frame:
  "compress_on_request J C s req ctx = Inr (req', ctx') \<Longrightarrow>
     same_request ctx ctx' \<and> target_protocol ctx' = target_protocol ctx \<and>
     req_method req' = req_method req \<and> req_path req' = req_path req \<and> req_headers req' = req_headers req"
  by (auto dest!: compress_on_request_Inr simp: record_request_stats_def Let_def ctx_simps)

lemma compress_on_response_frame:
  "compress_on_response J C s res = (s', Inr res') \<Longrightarrow>
     res_status res' = res_status res \<and> res_headers res' = res_headers res \<and>
     res_is_streaming res' = res_is_streaming res \<and> enabled s' = enabled s"
  by (auto simp: compress_on_response_def Let_def split: if_splits sum.splits)

section \<open>A sample compressor\<close>

definition sample_compress_json :: json_lib where
  "sample_compress_json =
     \<lparr>from_slice = (\<lambda>b. Inr (JObject [(''model'', JString ''m''), (''tools'', JArray [JString b])])),
      to_vec = (\<lambda>_. Inr ''short'')\<rparr>"

definition sample_compressors :: compressors where
  "sample_compressors = \<lparr>schema_compress = (\<lambda>_. JNull), response_compress = (\<lambda>_. JNull)\<rparr>"

definition sample_compress_req :: proxy_request where
  "sample_compress_req =
     \<lparr>req_method = ''POST'', req_path = ''/v1/messages'', req_headers = [], req_body = ''longer body''\<rparr>"

definition sample_tool_json :: "string \<Rightarrow> json_lib" where
  "sample_tool_json d =
     \<lparr>from_slice = (\<lambda>b. Inr (JObject [(''tools'', JArray [JObject [(''description'', JString d)]])])),
      to_vec = (\<lambda>_. Inr [])\<rparr>"

lemmas sample_compress_defs = sample_compress_json_def sample_compressors_def sample_compress_req_def
  compress_new_def compress_tools_map

section \<open>Properties\<close>

text \<open>
  C32. The compressor changes nothing but the tools. A request that leaves the hook has the bytes it
  came with, in an unchanged context, unless compression is on, its body has a \<open>tools\<close> array and the
  compressor changes a tool. Then the body is the text of the same object with \<open>tools\<close> replaced by the
  compressed tools in their order (every other member keeps its value), and the context records the
  estimated tokens before and after.
\<close>

theorem compress_changes_only_tools:
  assumes "compress_on_request J C s req ctx = Inr (req', ctx')"
    and "from_slice J (req_body req) = Inr body"
  shows "req' = req\<lparr>req_body := req_body req'\<rparr> \<and> same_request ctx ctx' \<and>
    (if enabled s \<and> (\<exists>tools. jget ''tools'' body = Some (JArray tools) \<and> map (schema_compress C) tools \<noteq> tools)
     then \<exists>body' tools. jget ''tools'' body = Some (JArray tools) \<and>
       to_vec J body' = Inr (req_body req') \<and>
       jget ''tools'' body' = Some (JArray (map (schema_compress C) tools)) \<and>
       (\<forall>k. k = ''tools'' \<or> jget k body' = jget k body) \<and>
       ctx_get dc_stats EXT_COMPRESSION_STATS ctx' =
         Some (unwrap_or compression_stats_default (ctx_get dc_stats EXT_COMPRESSION_STATS ctx)
           \<lparr>proxy_req_pre := count (req_body req), proxy_req_post := count (req_body req')\<rparr>)
     else req' = req \<and> ctx' = ctx)"
proof (cases "enabled s \<and> (\<exists>tools. jget ''tools'' body = Some (JArray tools) \<and>
    map (schema_compress C) tools \<noteq> tools)")
  case True
  then obtain tools where t: "enabled s" "jget ''tools'' body = Some (JArray tools)"
    "map (schema_compress C) tools \<noteq> tools" by blast
  let ?body' = "jreplace ''tools'' (JArray (map (schema_compress C) tools)) body"
  from assms t obtain b where b: "to_vec J ?body' = Inr b" "req' = req\<lparr>req_body := b\<rparr>"
    "ctx' = record_request_stats (count (req_body req)) (count b) ctx"
    by (auto simp: compress_on_request_def compress_tools_map Let_def split: if_splits sum.splits option.splits)
  have "jget ''tools'' ?body' = Some (JArray (map (schema_compress C) tools))"
    using t(2) by (simp add: jget_jreplace_same)
  moreover have "k = ''tools'' \<or> jget k ?body' = jget k body" for k
    using jget_jreplace_other by metis
  moreover have "ctx_get dc_stats EXT_COMPRESSION_STATS ctx' =
      Some (unwrap_or compression_stats_default (ctx_get dc_stats EXT_COMPRESSION_STATS ctx)
        \<lparr>proxy_req_pre := count (req_body req), proxy_req_post := count (req_body req')\<rparr>)"
    using b(2,3) by (simp add: record_request_stats_def Let_def ctx_simps)
  ultimately have "\<exists>body' tools. jget ''tools'' body = Some (JArray tools) \<and>
       to_vec J body' = Inr (req_body req') \<and>
       jget ''tools'' body' = Some (JArray (map (schema_compress C) tools)) \<and>
       (\<forall>k. k = ''tools'' \<or> jget k body' = jget k body) \<and>
       ctx_get dc_stats EXT_COMPRESSION_STATS ctx' =
         Some (unwrap_or compression_stats_default (ctx_get dc_stats EXT_COMPRESSION_STATS ctx)
           \<lparr>proxy_req_pre := count (req_body req), proxy_req_post := count (req_body req')\<rparr>)"
    using t(2) b(1,2) by (intro exI [of _ ?body'] exI [of _ tools]) simp
  with True b show ?thesis by simp
next
  case False
  with assms have "req' = req \<and> ctx' = ctx" by (auto dest!: compress_on_request_Inr)
  with False show ?thesis by auto
qed

theorem compress_changes_only_tools_witness:
  "\<exists>req' ctx'. compress_on_request sample_compress_json sample_compressors compress_new sample_compress_req
     (connection_context_new 0 1 Claude None (Some AnthropicMessages)) = Inr (req', ctx') \<and>
     req_body req' = ''short'' \<and> req_path req' = ''/v1/messages''"
proof -
  let ?ctx = "connection_context_new 0 1 Claude None (Some AnthropicMessages)"
  have "compress_on_request sample_compress_json sample_compressors compress_new sample_compress_req ?ctx
    = Inr (sample_compress_req\<lparr>req_body := ''short''\<rparr>,
        record_request_stats (count (req_body sample_compress_req)) (count ''short'') ?ctx)"
    by (simp add: compress_on_request_def sample_compress_defs abbreviate_tools_for_log_def abbreviate_tool_def
        desc_short_def tool_desc_def max_desc_len_def Let_def)
  from compress_changes_only_tools [OF this] this show ?thesis
    by (simp add: sample_compress_defs)
qed

text \<open>
  The snapshot for the debug log decides whether a request survives. When every tool keeps its
  description (so the second snapshot is the first), the hook panics exactly if compression is on, the
  body has a tools array, and some tool has a description of more than 400 bytes whose byte 400 is
  inside a character; the panic happens whether or not anything is logged or compressed.
\<close>

theorem compress_panics_iff_split_character:
  assumes "\<And>t. tool_desc (schema_compress C t) = tool_desc t"
  shows "compress_on_request J C s req ctx = Inl Panic \<longleftrightarrow>
    enabled s \<and> (\<exists>body tools. from_slice J (req_body req) = Inr body \<and>
      jget ''tools'' body = Some (JArray tools) \<and>
      (\<exists>t. t \<in> set tools \<and> 400 < length (tool_desc t) \<and> cont_byte (of_char (tool_desc t ! 400))))"
proof -
  have snap: "abbreviate_tools_for_log J (map (schema_compress C) ts) = None \<longleftrightarrow>
      abbreviate_tools_for_log J ts = None" for ts
    by (simp add: abbreviate_tools_for_log_None_iff assms)
  have hit: "abbreviate_tools_for_log J ts = None \<longleftrightarrow>
      (\<exists>t. t \<in> set ts \<and> 400 < length (tool_desc t) \<and> cont_byte (of_char (tool_desc t ! 400)))" for ts
    by (auto simp: abbreviate_tools_for_log_None_iff desc_short_None_iff)
  consider "\<not> enabled s" | e where "from_slice J (req_body req) = Inl e"
    | body where "from_slice J (req_body req) = Inr body" "\<And>ts. jget ''tools'' body \<noteq> Some (JArray ts)"
    | body ts where "enabled s" "from_slice J (req_body req) = Inr body" "jget ''tools'' body = Some (JArray ts)"
    by (metis sum.exhaust)
  then show ?thesis
  proof cases
    case 3
    then show ?thesis by (simp add: compress_on_request_no_tools)
  next
    case 4
    then show ?thesis
      by (auto simp: compress_on_request_tools Let_def snap hit [symmetric] split: sum.splits)
  qed (auto simp: compress_on_request_def)
qed

definition split_desc :: string where
  "split_desc = replicate 399 CHR ''a'' @ [char_of (195::nat), char_of (169::nat)]"

lemma nth_split_desc: "split_desc ! 400 = char_of (169::nat)" "length split_desc = 401"
  by (simp_all add: split_desc_def nth_append)

lemma split_desc_panics: "compress_on_request (sample_tool_json split_desc) C compress_new req ctx = Inl Panic"
proof -
  have "abbreviate_tools_for_log J [JObject [(''description'', JString split_desc)]] = None" for J
    by (simp add: abbreviate_tools_for_log_None_iff tool_desc_def desc_short_None_iff nth_split_desc cont_byte_def)
  then show ?thesis
    by (simp add: compress_on_request_def sample_tool_json_def compress_new_def Let_def)
qed

theorem compress_panics_iff_split_character_witness:
  "compress_on_request (sample_tool_json split_desc) \<lparr>schema_compress = id, response_compress = id\<rparr>
     compress_new sample_compress_req (connection_context_new 0 1 Claude None (Some AnthropicMessages))
     = Inl Panic"
  using compress_panics_iff_split_character [of "\<lparr>schema_compress = id, response_compress = id\<rparr>"
      "sample_tool_json split_desc" compress_new sample_compress_req
      "connection_context_new 0 1 Claude None (Some AnthropicMessages)"]
  by (simp add: sample_tool_json_def compress_new_def tool_desc_def nth_split_desc cont_byte_def)

text \<open>
  Responses: a stream and a body that is not JSON pass the hook untouched, and so does a body that
  the compressor leaves alone. Otherwise the body becomes the text of the compressed value and the
  estimates go to the middleware's own state. Status, headers and the streaming flag never change, and
  the hook does not panic.
\<close>

theorem compress_response_behaviour:
  assumes "compress_on_response J C s res = (s', r)"
  shows "r \<noteq> Inl Panic \<and>
    (if enabled s \<and> \<not> res_is_streaming res \<and>
        (\<exists>v. from_slice J (res_body res) = Inr v \<and> response_compress C v \<noteq> v)
     then \<exists>v. from_slice J (res_body res) = Inr v \<and>
       (case to_vec J (response_compress C v) of
          Inl e \<Rightarrow> s' = s \<and> r = Inl (Err (BadRequest (''serialize error: '' @ e)))
        | Inr b \<Rightarrow> r = Inr (res\<lparr>res_body := b\<rparr>) \<and>
            snd (take_response_stats s') = Some \<lparr>pre_tokens = count (res_body res), post_tokens = count b\<rparr>)
     else s' = s \<and> r = Inr res)"
  using assms
  by (auto simp: compress_on_response_def take_response_stats_def Let_def split: if_splits sum.splits)

theorem compress_response_behaviour_witness:
  "\<exists>s'. compress_on_response sample_compress_json sample_compressors compress_new
     \<lparr>res_status = 200, res_headers = [], res_body = ''{}'', res_is_streaming = False\<rparr> =
     (s', Inr \<lparr>res_status = 200, res_headers = [], res_body = ''short'', res_is_streaming = False\<rparr>)"
  using compress_response_behaviour [of sample_compress_json sample_compressors compress_new
      "\<lparr>res_status = 200, res_headers = [], res_body = ''{}'', res_is_streaming = False\<rparr>"]
  by (auto simp: compress_on_response_def sample_compress_defs)

text \<open>
  The estimate is the number of characters divided by four, rounded up, and never more than a
  quarter of the bytes rounded up; bytes that are not UTF-8 count as no tokens.
\<close>

theorem count_is_quarter_rounded_up:
  assumes "length data < 2 ^ 63"
  shows "unat (count data) = (if utf8_valid data then (char_count data + 3) div 4 else 0) \<and>
    unat (count data) \<le> (length data + 3) div 4"
proof -
  have le: "char_count data \<le> length data" by (simp add: char_count_def)
  have "(char_count data + 3) div 4 < 2 ^ 64" using le assms by simp
  moreover have "min (char_count data + 3) (2 ^ 64 - 1) = char_count data + 3" using le assms by simp
  ultimately have "unat (count data) = (if utf8_valid data then (char_count data + 3) div 4 else 0)"
    by (simp add: count_def unat_of_nat Let_def char_count_def)
  with le show ?thesis by (simp add: div_le_mono)
qed

theorem count_is_quarter_rounded_up_witness: "unat (count ''hello'') = 2"
  using count_is_quarter_rounded_up [of "''hello''"]
  by (simp add: utf8_valid_def char_count_def cont_byte_def)

end
