(* ===== verification/Storage_Types.thy ===== *)
theory Storage_Types
  imports F64
begin

text \<open>
  The rows and errors of \<open>crates/storage/src\<close>: what the router reads from the storage backend at
  start-up and on a reload, what the cost recorder writes to it, and what the admin API shows.
  \<open>storage\<close> holds the operations of the \<open>Storage\<close> trait as functions of the backend's state.
\<close>

datatype storage_error =
    Backend string
  | NotFound string
  | Duplicate string
  | Connection string
  | Migration string

fun storage_error_display :: "storage_error \<Rightarrow> string" where
  "storage_error_display (Backend e) = ''backend error: '' @ e"
| "storage_error_display (NotFound e) = ''not found: '' @ e"
| "storage_error_display (Duplicate e) = ''duplicate: '' @ e"
| "storage_error_display (Connection e) = ''connection error: '' @ e"
| "storage_error_display (Migration e) = ''migration error: '' @ e"

record protocol_entry =
  pe_protocol :: string
  pe_base_url :: string
  pe_rewrite_path :: "string option"

record channel =
  ch_id :: string
  ch_name :: string
  ch_api_key :: string
  ch_protocol :: string
  ch_protocols :: string
  ch_is_builtin :: bool
  ch_enabled :: bool
  ch_created_at :: i64
  ch_updated_at :: i64
  ch_health_status :: string
  ch_cooldown_until :: "string option"
  ch_consecutive_failures :: u32
  ch_billing_type :: string
  ch_monthly_quota :: "u64 option"
  ch_quota_policy :: string
  ch_priority :: u32
  ch_force_protocol :: "string option"

record model_mapping =
  mm_id :: string
  mm_channel_id :: string
  mm_client_name :: string
  mm_upstream_name :: string
  mm_billing :: string
  mm_pricing_json :: string
  mm_weight :: u32
  mm_enabled :: bool
  mm_protocols :: string

record cost_record =
  cr_id :: string
  cr_channel_id :: string
  cr_upstream_channel :: string
  cr_upstream_model :: string
  cr_request_time_ms :: i64
  cr_project :: string
  cr_user_id :: string
  cr_agent_type :: string
  cr_input_tokens :: i64
  cr_output_tokens :: i64
  cr_cache_write_tokens :: i64
  cr_cache_read_tokens :: i64
  cr_thinking_tokens :: i64
  cr_cost :: f64
  cr_schema_saved_tokens :: i64
  cr_response_saved_tokens :: i64
  cr_rtk_saved_tokens :: i64
  cr_pre_compress_tokens :: i64
  cr_post_compress_tokens :: i64
  cr_compression_tokens_saved :: i64
  cr_unit :: string
  cr_pricing_snapshot_json :: string
  cr_timestamp :: string
  cr_session_id :: "string option"
  cr_before_tokens :: i64
  cr_after_tokens :: i64
  cr_tokens_saved :: i64
  cr_compression_breakdown_json :: string

record model_alias =
  ma_id :: i64
  ma_alias_name :: string
  ma_target_model :: string
  ma_enabled :: bool
  ma_created_at :: string
  ma_updated_at :: string

record model_alias_request =
  mar_alias_name :: string
  mar_target_model :: string
  mar_enabled :: bool

datatype channel_health_status = HsHealthy | HsDegraded | HsCooldown | HsUnavailable

fun health_status_str :: "channel_health_status \<Rightarrow> string" where
  "health_status_str HsHealthy = ''Healthy''"
| "health_status_str HsDegraded = ''Degraded''"
| "health_status_str HsCooldown = ''Cooldown''"
| "health_status_str HsUnavailable = ''Unavailable''"

record provider =
  pv_id :: string
  pv_name :: string
  pv_created_at :: string

record model =
  md_id :: string
  md_provider_id :: string
  md_client_name :: string
  md_price_input :: f64
  md_price_output :: f64
  md_currency :: string
  md_context_window :: i64
  md_created_at :: string
  md_channel_count :: u32

record subscription_fee =
  sf_id :: i64
  sf_channel_name :: string
  sf_month :: string
  sf_monthly_price :: f64
  sf_currency :: string

record switch_log =
  sl_id :: string
  sl_from_channel_id :: string
  sl_to_channel_id :: string
  sl_reason :: string
  sl_cost_record_id :: "string option"
  sl_created_at :: string

record time_range =
  tr_start :: i64
  tr_end :: i64
  tr_project :: "string option"

record cost_filter =
  cf_project_path :: "string option"
  cf_model_name :: "string option"
  cf_channel_name :: "string option"
  cf_time_range :: "time_range option"
  cf_limit :: "u32 option"
  cf_offset :: "u32 option"

datatype cost_group_by =
  ByProject | ByModel | ByChannel | ByProjectModelMonth | ByProjectModelHour | ByHourly | ByDaily

record cost_aggregate =
  ca_group_key :: string
  ca_total_input_tokens :: i64
  ca_total_output_tokens :: i64
  ca_total_actual_cost :: f64
  ca_total_compression_tokens_saved :: i64
  ca_request_count :: i64

record available_model_info =
  am_mapping_id :: string
  am_client_name :: string
  am_upstream_name :: string

record available_channel_info =
  ac_channel_id :: string
  ac_channel_name :: string
  ac_protocol :: string
  ac_protocols :: string
  ac_health_status :: string
  ac_enabled :: bool
  ac_models :: "available_model_info list"

text \<open>The fields \<open>update_channel\<close> may change; \<open>None\<close> leaves a field alone.\<close>

record channel_update =
  cu_name :: "string option"
  cu_enabled :: "bool option"
  cu_priority :: "u32 option"
  cu_monthly_quota :: "u64 option"
  cu_quota_policy :: "string option"
  cu_protocols :: "string option"
  cu_force_protocol :: "string option"

text \<open>
  The trait: a query is a function of the backend's state, an update returns the new state as well. The
  operations of the connection pool (\<open>health_check\<close>, \<open>max_connections\<close>) are left out.
\<close>

record 's storage =
  list_providers :: "'s \<Rightarrow> storage_error + provider list"
  get_provider :: "'s \<Rightarrow> string \<Rightarrow> storage_error + provider option"
  list_models :: "'s \<Rightarrow> string option \<Rightarrow> storage_error + model list"
  get_model :: "'s \<Rightarrow> string \<Rightarrow> storage_error + model option"
  list_channels :: "'s \<Rightarrow> string option \<Rightarrow> storage_error + channel list"
  get_channel :: "'s \<Rightarrow> string \<Rightarrow> storage_error + channel option"
  upsert_channel :: "'s \<Rightarrow> channel \<Rightarrow> 's \<times> (storage_error + unit)"
  set_channel_enabled :: "'s \<Rightarrow> string \<Rightarrow> bool \<Rightarrow> 's \<times> (storage_error + unit)"
  set_channel_api_key :: "'s \<Rightarrow> string \<Rightarrow> string \<Rightarrow> 's \<times> (storage_error + unit)"
  update_channel :: "'s \<Rightarrow> string \<Rightarrow> channel_update \<Rightarrow> 's \<times> (storage_error + channel)"
  delete_channel :: "'s \<Rightarrow> string \<Rightarrow> 's \<times> (storage_error + unit)"
  mark_channel_healthy :: "'s \<Rightarrow> string \<Rightarrow> 's \<times> (storage_error + unit)"
  record_channel_failure :: "'s \<Rightarrow> string \<Rightarrow> 's \<times> (storage_error + unit)"
  list_mappings :: "'s \<Rightarrow> string \<Rightarrow> storage_error + model_mapping list"
  upsert_mapping :: "'s \<Rightarrow> model_mapping \<Rightarrow> 's \<times> (storage_error + unit)"
  set_mapping_enabled :: "'s \<Rightarrow> string \<Rightarrow> bool \<Rightarrow> 's \<times> (storage_error + unit)"
  delete_mapping :: "'s \<Rightarrow> string \<Rightarrow> 's \<times> (storage_error + unit)"
  list_all_mappings :: "'s \<Rightarrow> storage_error + model_mapping list"
  list_model_aliases :: "'s \<Rightarrow> storage_error + model_alias list"
  get_model_alias_target :: "'s \<Rightarrow> string \<Rightarrow> storage_error + string option"
  upsert_model_alias :: "'s \<Rightarrow> model_alias_request \<Rightarrow> 's \<times> (storage_error + model_alias)"
  delete_model_alias :: "'s \<Rightarrow> i64 \<Rightarrow> 's \<times> (storage_error + unit)"
  set_model_alias_enabled :: "'s \<Rightarrow> i64 \<Rightarrow> bool \<Rightarrow> 's \<times> (storage_error + unit)"
  insert_cost_record :: "'s \<Rightarrow> cost_record \<Rightarrow> 's \<times> (storage_error + unit)"
  query_cost_records :: "'s \<Rightarrow> cost_filter \<Rightarrow> storage_error + cost_record list"
  aggregate_costs :: "'s \<Rightarrow> cost_group_by \<Rightarrow> time_range \<Rightarrow> storage_error + cost_aggregate list"
  prune_cost_records :: "'s \<Rightarrow> u32 \<Rightarrow> 's \<times> (storage_error + u64)"
  list_projects :: "'s \<Rightarrow> storage_error + string list"
  insert_switch_log :: "'s \<Rightarrow> switch_log \<Rightarrow> 's \<times> (storage_error + unit)"
  query_switch_logs :: "'s \<Rightarrow> u32 option \<Rightarrow> storage_error + switch_log list"
  list_available_channels :: "'s \<Rightarrow> storage_error + available_channel_info list"
  insert_subscription_fee :: "'s \<Rightarrow> subscription_fee \<Rightarrow> 's \<times> (storage_error + unit)"
  query_subscription_fees :: "'s \<Rightarrow> string option \<Rightarrow> string option \<Rightarrow> storage_error + subscription_fee list"
  migrate :: "'s \<Rightarrow> 's \<times> (storage_error + unit)"
  health_check :: "'s \<Rightarrow> storage_error + bool"
  max_connections :: nat

end
