(* ===== verification/Keyed.thy ===== *)
theory Keyed
  imports Prelude
begin

text \<open>
  The interface of a component that keeps one state per channel behind a \<open>Mutex<HashMap<String, _>>\<close>
  or an \<open>RwLock<HashMap<String, _>>\<close>. Every access takes the lock for one operation, so a concurrent
  history is a sequence of operations. The laws say that an operation writes the entry of its own
  key only and depends on that entry only; the lemmas conclude that the history of one channel is
  the same whether or not other channels are used in between. The circuit breaker, the rate limiter
  and the router's health table are interpretations.
\<close>

fun run_ops :: "('e \<Rightarrow> 'v hashmap \<Rightarrow> 'v hashmap \<times> 'o) \<Rightarrow> 'e list \<Rightarrow> 'v hashmap \<Rightarrow> 'v hashmap \<times> 'o list"
where
  "run_ops step [] m = (m, [])"
| "run_ops step (e # es) m =
     (let (m', r) = step e m; (m'', rs) = run_ops step es m' in (m'', r # rs))"

definition outputs_of :: "('e \<Rightarrow> string) \<Rightarrow> string \<Rightarrow> 'e list \<Rightarrow> 'o list \<Rightarrow> 'o list" where
  "outputs_of key k es os = map snd (filter (\<lambda>p. key (fst p) = k) (zip es os))"

lemma outputs_of_Cons [simp]:
  "outputs_of key k (e # es) (r # rs) =
     (if key e = k then r # outputs_of key k es rs else outputs_of key k es rs)"
  by (simp add: outputs_of_def)

lemma outputs_of_Nil [simp]: "outputs_of key k [] rs = []"
  by (simp add: outputs_of_def)

lemma length_run_ops [simp]: "length (snd (run_ops step es m)) = length es"
  by (induction es arbitrary: m) (auto split: prod.splits, metis snd_conv)

lemma run_ops_Cons:
  "step e m = (m', r) \<Longrightarrow>
     fst (run_ops step (e # es) m) = fst (run_ops step es m') \<and>
     snd (run_ops step (e # es) m) = r # snd (run_ops step es m')"
  by (simp split: prod.splits)

locale keyed =
  fixes step :: "'e \<Rightarrow> 'v hashmap \<Rightarrow> 'v hashmap \<times> 'o"
    and key :: "'e \<Rightarrow> string"
  assumes step_frame: "k \<noteq> key e \<Longrightarrow> fst (step e m) k = m k"
    and step_local: "m (key e) = m' (key e) \<Longrightarrow>
      fst (step e m) (key e) = fst (step e m') (key e) \<and> snd (step e m) = snd (step e m')"
begin

lemma run_local:
  "m k = m' k \<Longrightarrow>
     fst (run_ops step es m) k = fst (run_ops step (filter (\<lambda>e. key e = k) es) m') k \<and>
     outputs_of key k es (snd (run_ops step es m))
       = snd (run_ops step (filter (\<lambda>e. key e = k) es) m')"
proof (induction es arbitrary: m m')
  case (Cons e es)
  show ?case
  proof (cases "key e = k")
    case True
    with Cons.prems step_local [of m e m']
    have "fst (step e m) k = fst (step e m') k" "snd (step e m) = snd (step e m')" by auto
    with Cons.IH [of "fst (step e m)" "fst (step e m')"] True show ?thesis
      by (auto simp: Let_def split: prod.splits)
  next
    case False
    with step_frame [of k e m] Cons.prems have "fst (step e m) k = m' k" by auto
    with Cons.IH [of "fst (step e m)" m'] False show ?thesis
      by (auto simp: Let_def split: prod.splits)
  qed
qed simp

lemma run_independent:
  "fst (run_ops step es m) k = fst (run_ops step (filter (\<lambda>e. key e = k) es) m) k"
  "outputs_of key k es (snd (run_ops step es m))
     = snd (run_ops step (filter (\<lambda>e. key e = k) es) m)"
  using run_local [of m k m es] by auto

lemma run_untouched: "\<forall>e\<in>set es. key e \<noteq> k \<Longrightarrow> fst (run_ops step es m) k = m k"
proof -
  assume "\<forall>e\<in>set es. key e \<noteq> k"
  then have "filter (\<lambda>e. key e = k) es = []" by (auto simp: filter_empty_conv)
  then show ?thesis using run_independent(1) [of es m k] by simp
qed

end

text \<open>A law on the entries, kept by every operation, holds of every entry after a history.\<close>

locale keyed_inv = keyed step key
  for step :: "'e \<Rightarrow> 'v hashmap \<Rightarrow> 'v hashmap \<times> 'o" and key :: "'e \<Rightarrow> string" +
  fixes Inv :: "'v \<Rightarrow> bool"
  assumes step_inv: "pred_option Inv (m (key e)) \<Longrightarrow> pred_option Inv (fst (step e m) (key e))"
begin

lemma step_inv_all:
  assumes "\<forall>k. pred_option Inv (m k)"
  shows "\<forall>k. pred_option Inv (fst (step e m) k)"
  using assms step_inv [of m e] step_frame [of _ e m] by metis

lemma run_inv: "\<forall>k. pred_option Inv (m k) \<Longrightarrow> \<forall>k. pred_option Inv (fst (run_ops step es m) k)"
proof (induction es arbitrary: m)
  case (Cons e es)
  from Cons.IH [OF step_inv_all [OF Cons.prems, of e]] show ?case
    by (auto simp: Let_def split: prod.splits)
qed simp

end

end
