(* ===== verification/Model_Router.thy ===== *)
theory Model_Router
  imports Middleware Storage_Types Keyed
begin

text \<open>
  \<open>crates/model-router/src/lib.rs\<close>: the in-memory channel table, its loading from storage, the
  selection strategy and the two hooks of the router middleware. The router's four shared tables
  (\<open>ArcSwap\<close> and \<open>DashMap\<close>s) are the fields of \<open>router_state\<close>. What a hook reads from its
  surroundings (the JSON package, the monotonic clock, the UTC month, the serialiser of a pricing)
  is the record \<open>router_env\<close>; one hook call uses one reading of each clock.
\<close>

section \<open>State\<close>

record resolved_mapping =
  rm_mapping_id :: string
  rm_client_name :: string
  rm_upstream_name :: string
  rm_billing :: channel_billing
  rm_allowed_protocols :: "string list"

record resolved_channel =
  rc_channel_id :: string
  rc_channel_name :: string
  rc_api_key :: string
  rc_protocols :: "protocol_entry list"
  rc_enabled :: bool
  rc_force_protocol :: "string option"
  rc_priority :: u32
  rc_mappings :: "resolved_mapping list"

type_synonym candidate = "resolved_channel \<times> resolved_mapping"

record router_state =
  channels :: "resolved_channel list"
  health_map :: "channel_state hashmap"
  quota_usage_map :: "quota_usage hashmap"
  channel_api_keys :: "string hashmap"

record router_env =
  env_json :: json_lib
  env_now :: instant
  env_month :: u32
  env_pricing_json :: "pricing \<Rightarrow> string option"

section \<open>Protocol names\<close>

fun protocol_to_str :: "api_format \<Rightarrow> string" where
  "protocol_to_str AnthropicMessages = ''anthropic_messages''"
| "protocol_to_str OpenaiChat = ''openai_chat''"
| "protocol_to_str OpenaiResponses = ''openai_responses''"
| "protocol_to_str (OtherFormat _) = []"

definition parse_protocol :: "string \<Rightarrow> proxy_error + api_format" where
  "parse_protocol s =
     (if s = ''anthropic_messages'' then Inr AnthropicMessages
      else if s = ''openai_chat'' then Inr OpenaiChat
      else if s = ''openai_responses'' then Inr OpenaiResponses
      else Inl (Internal (''unknown protocol in storage: '' @ s)))"

definition quoted :: "string \<Rightarrow> string" where
  "quoted s = [CHR 0x27] @ s @ [CHR 0x27]"

definition first_protocol :: "protocol_entry list \<Rightarrow> proxy_error + api_format" where
  "first_protocol protocols =
     (case protocols of
        first # _ \<Rightarrow>
          if pe_protocol first \<noteq> [] then parse_protocol (pe_protocol first)
          else Inl (Internal ''channel has no protocols configured'')
      | [] \<Rightarrow> Inl (Internal ''channel has no protocols configured''))"

definition resolve_target_protocol ::
  "string option \<Rightarrow> api_format option \<Rightarrow> protocol_entry list \<Rightarrow> proxy_error + api_format" where
  "resolve_target_protocol force_protocol detected protocols =
     (case force_protocol of
        Some fp \<Rightarrow>
          res_bind (parse_protocol fp) (\<lambda>target.
            if \<not> list_ex (\<lambda>p. pe_protocol p = protocol_to_str target) protocols
            then Inl (Internal (''force_protocol '' @ quoted fp @ '' not found in channel protocols''))
            else Inr target)
      | None \<Rightarrow>
          (case detected of
             Some df \<Rightarrow>
               if protocol_to_str df \<noteq> [] \<and>
                  list_ex (\<lambda>p. pe_protocol p = protocol_to_str df) protocols
               then Inr df
               else first_protocol protocols
           | None \<Rightarrow> first_protocol protocols))"

definition resolve_upstream_url ::
  "api_format \<Rightarrow> protocol_entry list \<Rightarrow> proxy_error + string \<times> string option" where
  "resolve_upstream_url protocol protocols =
     (let target = protocol_to_str protocol in
      case find (\<lambda>e. pe_protocol e = target) protocols of
        None \<Rightarrow> Inl (Internal (''no protocol entry for '' @ quoted target @ '' in channel protocols''))
      | Some entry \<Rightarrow>
          if pe_base_url entry = []
          then Inl (Internal (''protocol entry '' @ quoted target @ '' has empty base_url''))
          else Inr (pe_base_url entry, pe_rewrite_path entry))"

definition extract_token_count :: "json \<Rightarrow> u64" where
  "extract_token_count body =
     (case jget ''usage'' body of
        None \<Rightarrow> 0
      | Some u \<Rightarrow> get_u64 ''input_tokens'' u + get_u64 ''output_tokens'' u)"

section \<open>Loading the channel table\<close>

text \<open>
  The deserialisers of the JSON columns are arguments: a channel's \<open>protocols\<close>, a mapping's
  \<open>protocols\<close>, and its billing and pricing. \<open>None\<close> is a parse error.
\<close>

record router_parsers =
  parse_protocols :: "string \<Rightarrow> protocol_entry list option"
  parse_string_list :: "string \<Rightarrow> string list option"
  parse_billing :: billing_parsers

definition resolve_mapping :: "router_parsers \<Rightarrow> model_mapping \<Rightarrow> resolved_mapping option" where
  "resolve_mapping P m =
     (case channel_billing_from_storage (parse_billing P) (mm_billing m) (mm_pricing_json m) of
        Inl _ \<Rightarrow> None
      | Inr billing \<Rightarrow>
          Some \<lparr>rm_mapping_id = mm_id m, rm_client_name = mm_client_name m,
                rm_upstream_name = mm_upstream_name m, rm_billing = billing,
                rm_allowed_protocols = unwrap_or [] (parse_string_list P (mm_protocols m))\<rparr>)"

definition normalize_protocol :: "protocol_entry \<Rightarrow> protocol_entry" where
  "normalize_protocol p =
     p\<lparr>pe_base_url := trim_end_char (CHR ''/'') (pe_base_url p),
       pe_rewrite_path := Option.bind (pe_rewrite_path p) (\<lambda>rp. if rp \<noteq> [] then Some rp else None)\<rparr>"

text \<open>One channel row: \<open>Inr None\<close> when the row is skipped.\<close>

definition resolve_channel ::
  "'s storage \<Rightarrow> router_parsers \<Rightarrow> 's \<Rightarrow> channel \<Rightarrow> proxy_error + resolved_channel option" where
  "resolve_channel S P db ch =
     (let protocols = unwrap_or [] (parse_protocols P (ch_protocols ch)) in
      if protocols = [] then Inr None
      else (case list_mappings S db (ch_id ch) of
              Inl e \<Rightarrow> Inl (Internal (storage_error_display e))
            | Inr storage_mappings \<Rightarrow>
                Inr (Some
                  \<lparr>rc_channel_id = ch_id ch, rc_channel_name = ch_name ch,
                   rc_api_key = ch_api_key ch, rc_protocols = map normalize_protocol protocols,
                   rc_enabled = ch_enabled ch, rc_force_protocol = ch_force_protocol ch,
                   rc_priority = ch_priority ch,
                   rc_mappings =
                     List.map_filter (resolve_mapping P) (filter mm_enabled storage_mappings)\<rparr>)))"

fun resolve_channels ::
  "'s storage \<Rightarrow> router_parsers \<Rightarrow> 's \<Rightarrow> channel list \<Rightarrow> proxy_error + resolved_channel list" where
  "resolve_channels S P db [] = Inr []"
| "resolve_channels S P db (ch # chs) =
     res_bind (resolve_channel S P db ch) (\<lambda>r.
       res_bind (resolve_channels S P db chs) (\<lambda>rs.
         Inr (case r of None \<Rightarrow> rs | Some c \<Rightarrow> c # rs)))"

definition load_channels ::
  "'s storage \<Rightarrow> router_parsers \<Rightarrow> 's \<Rightarrow> proxy_error + resolved_channel list" where
  "load_channels S P db =
     (case list_channels S db None of
        Inl e \<Rightarrow> Inl (Internal (storage_error_display e))
      | Inr chs \<Rightarrow> resolve_channels S P db chs)"

definition initial_api_keys :: "resolved_channel list \<Rightarrow> string hashmap" where
  "initial_api_keys chs =
     fold (\<lambda>ch m. if rc_api_key ch \<noteq> [] then m(rc_channel_id ch \<mapsto> rc_api_key ch) else m) chs Map.empty"

definition router_from_storage ::
  "'s storage \<Rightarrow> router_parsers \<Rightarrow> 's \<Rightarrow> proxy_error + router_state" where
  "router_from_storage S P db =
     res_bind (load_channels S P db) (\<lambda>chs.
       Inr \<lparr>channels = chs, health_map = Map.empty, quota_usage_map = Map.empty,
            channel_api_keys = initial_api_keys chs\<rparr>)"

definition reload_channels_from_storage ::
  "'s storage \<Rightarrow> router_parsers \<Rightarrow> 's \<Rightarrow> router_state \<Rightarrow> router_state \<times> (proxy_error + unit)" where
  "reload_channels_from_storage S P db st =
     (case load_channels S P db of
        Inl e \<Rightarrow> (st, Inl e)
      | Inr chs \<Rightarrow> (st\<lparr>channels := chs\<rparr>, Inr ()))"

section \<open>Selection\<close>

definition find_candidates :: "resolved_channel list \<Rightarrow> string \<Rightarrow> candidate list" where
  "find_candidates chs client_name =
     concat (map (\<lambda>ch.
       if \<not> rc_enabled ch then []
       else map (\<lambda>m. (ch, m)) (filter (\<lambda>m. rm_client_name m = client_name) (rc_mappings ch))) chs)"

definition has_api_key :: "router_state \<Rightarrow> string \<Rightarrow> bool" where
  "has_api_key st cid =
     (case channel_api_keys st cid of
        Some key \<Rightarrow> key \<noteq> []
      | None \<Rightarrow> list_ex (\<lambda>ch. rc_channel_id ch = cid \<and> rc_api_key ch \<noteq> []) (channels st))"

definition is_healthy :: "router_state \<Rightarrow> instant \<Rightarrow> string \<Rightarrow> bool" where
  "is_healthy st now cid = is_none_or (is_tryable_past_cooldown now) (health_map st cid)"

definition router_is_tryable_past_cooldown :: "router_state \<Rightarrow> instant \<Rightarrow> string \<Rightarrow> bool" where
  "router_is_tryable_past_cooldown st now cid =
     is_none_or (is_tryable_past_cooldown now) (health_map st cid)"

definition candidate_priority :: "candidate \<Rightarrow> nat" where
  "candidate_priority c = unat (rc_priority (fst c))"

text \<open>\<open>self.quota_usage.entry(id).or_default()\<close>\<close>

definition quota_entry :: "u32 \<Rightarrow> quota_usage hashmap \<Rightarrow> string \<Rightarrow> quota_usage" where
  "quota_entry cur m k = unwrap_or (quota_usage_new cur) (m k)"

text \<open>The first loop; \<open>None\<close> when it ends without a return.\<close>

fun try_flatfee ::
  "router_env \<Rightarrow> string \<Rightarrow> candidate list \<Rightarrow> router_state \<Rightarrow>
    router_state \<times> (proxy_error + candidate) option" where
  "try_flatfee E client_name [] st = (st, None)"
| "try_flatfee E client_name ((ch, m) # cs) st =
     (if \<not> has_api_key st (rc_channel_id ch) then try_flatfee E client_name cs st
      else if \<not> is_healthy st (env_now E) (rc_channel_id ch) then try_flatfee E client_name cs st
      else (case rm_billing m of
              Metered _ \<Rightarrow> try_flatfee E client_name cs st
            | FlatFee _ quota on_exhausted \<Rightarrow>
                (let u = quota_entry (env_month E) (quota_usage_map st) (rm_mapping_id m);
                     st' = st\<lparr>quota_usage_map := (quota_usage_map st)(rm_mapping_id m \<mapsto> u)\<rparr>
                 in if is_within_quota u quota then (st', Some (Inr (ch, m)))
                    else if on_exhausted = Block then (st', Some (Inl (ChannelSelection client_name)))
                    else try_flatfee E client_name cs st')))"

definition try_metered :: "router_env \<Rightarrow> candidate list \<Rightarrow> router_state \<Rightarrow> candidate option" where
  "try_metered E cs st =
     find (\<lambda>(ch, m). has_api_key st (rc_channel_id ch) \<and>
       is_healthy st (env_now E) (rc_channel_id ch)) cs"

definition try_past_cooldown :: "router_env \<Rightarrow> candidate list \<Rightarrow> router_state \<Rightarrow> candidate option" where
  "try_past_cooldown E cs st =
     find (\<lambda>(ch, m). has_api_key st (rc_channel_id ch) \<and>
       router_is_tryable_past_cooldown st (env_now E) (rc_channel_id ch)) cs"

definition select_channel ::
  "router_env \<Rightarrow> candidate list \<Rightarrow> string \<Rightarrow> router_state \<Rightarrow> router_state \<times> (proxy_error + candidate)"
where
  "select_channel E candidates client_name st =
     (let flatfee = sort_desc candidate_priority (filter (\<lambda>c. is_flat_fee (rm_billing (snd c))) candidates);
          metered = sort_desc candidate_priority (filter (\<lambda>c. \<not> is_flat_fee (rm_billing (snd c))) candidates)
      in case try_flatfee E client_name flatfee st of
           (st', Some r) \<Rightarrow> (st', r)
         | (st', None) \<Rightarrow>
             (case try_metered E metered st' of
                Some c \<Rightarrow> (st', Inr c)
              | None \<Rightarrow>
                  (case try_past_cooldown E candidates st' of
                     Some c \<Rightarrow> (st', Inr c)
                   | None \<Rightarrow> (st', Inl (ChannelSelection client_name)))))"

section \<open>The request hook\<close>

text \<open>
  The text of an \<open>Internal\<close> error is logged and never sent. \<open>{:?}\<close> of a list of strings is written
  without the escapes of unusual characters.
\<close>

definition debug_strings :: "string list \<Rightarrow> string" where
  "debug_strings xs = ''['' @ join '', '' (map (\<lambda>s. [CHR 0x22] @ s @ [CHR 0x22]) xs) @ '']''"

definition constrain_protocol ::
  "resolved_channel \<Rightarrow> resolved_mapping \<Rightarrow> api_format \<Rightarrow> proxy_error + api_format" where
  "constrain_protocol channel mapping target =
     (if rm_allowed_protocols mapping \<noteq> [] \<and>
         protocol_to_str target \<notin> set (rm_allowed_protocols mapping)
      then (case find (\<lambda>pe. pe_protocol pe \<in> set (rm_allowed_protocols mapping)) (rc_protocols channel) of
              Some entry \<Rightarrow> parse_protocol (pe_protocol entry)
            | None \<Rightarrow>
                Inl (Internal (''mapping '' @ quoted (rm_mapping_id mapping) @
                  '' protocol constraint '' @ debug_strings (rm_allowed_protocols mapping) @
                  '' incompatible with channel protocols '' @
                  debug_strings (map pe_protocol (rc_protocols channel)))))
      else Inr target)"

definition pricing_snapshot :: "router_env \<Rightarrow> channel_billing \<Rightarrow> pricing option \<times> string" where
  "pricing_snapshot E billing =
     (case billing of
        Metered p \<Rightarrow> (Some p, unwrap_or [] (env_pricing_json E p))
      | FlatFee _ _ _ \<Rightarrow>
          (None, ''{'' @ [CHR 0x22] @ ''type'' @ [CHR 0x22] @ '':'' @ [CHR 0x22] @ ''flat_fee'' @
             [CHR 0x22] @ ''}''))"

text \<open>The part of the hook after the selection: it reads the key table and changes no table.\<close>

definition apply_selection ::
  "router_env \<Rightarrow> router_state \<Rightarrow> json \<Rightarrow> candidate \<Rightarrow> proxy_request \<Rightarrow> connection_context \<Rightarrow>
    proxy_error + proxy_request \<times> connection_context" where
  "apply_selection E st body cand req ctx =
     (let (channel, mapping) = cand;
          body' = jreplace ''model'' (JString (rm_upstream_name mapping)) body
      in case to_vec (env_json E) body' of
           Inl e \<Rightarrow> Inl (BadRequest e)
         | Inr new_body \<Rightarrow>
             res_bind (resolve_target_protocol (rc_force_protocol channel) (detected_format ctx)
                 (rc_protocols channel)) (\<lambda>target0.
             res_bind (constrain_protocol channel mapping target0) (\<lambda>target.
             res_bind (resolve_upstream_url target (rc_protocols channel)) (\<lambda>(base_url, rewrite_path).
               let api_key = unwrap_or (rc_api_key channel)
                     (channel_api_keys st (rc_channel_id channel));
                   (pr, snapshot_json) = pricing_snapshot E (rm_billing mapping);
                   ctx1 = ctx\<lparr>target_protocol := Some target\<rparr>;
                   ctx2 = ctx_insert EXT_SELECTED_CHANNEL (ExtChannel
                     \<lparr>cc_url = base_url, cc_api_key = api_key, cc_protocol = target,
                      cc_name = rc_channel_name channel, cc_rewrite_path = rewrite_path\<rparr>) ctx1;
                   ctx3 = ctx_insert EXT_SELECTED_MAPPING (ExtMapping
                     \<lparr>smi_channel_id = rc_channel_id channel,
                      smi_mapping_id = rm_mapping_id mapping,
                      smi_client_name = rm_client_name mapping,
                      smi_upstream_name = rm_upstream_name mapping,
                      smi_is_flat_fee = is_flat_fee (rm_billing mapping),
                      smi_pricing = pr, smi_pricing_snapshot_json = snapshot_json\<rparr>) ctx2
               in Inr (req\<lparr>req_body := new_body\<rparr>, ctx3)))))"

definition request_model :: "json \<Rightarrow> string" where
  "request_model body = unwrap_or [] (Option.bind (jget ''model'' body) as_str)"

definition router_on_request ::
  "router_env \<Rightarrow> router_state \<Rightarrow> proxy_request \<Rightarrow> connection_context \<Rightarrow>
    router_state \<times> (proxy_error + proxy_request \<times> connection_context)" where
  "router_on_request E st req ctx =
     (case from_slice (env_json E) (req_body req) of
        Inl e \<Rightarrow> (st, Inl (BadRequest e))
      | Inr body \<Rightarrow>
          (let client_name = request_model body in
           if client_name = []
           then (st, Inl (BadRequest (''request body missing '' @ quoted ''model'' @ '' field'')))
           else
             let candidates = find_candidates (channels st) client_name in
             if candidates = [] then (st, Inl (ChannelSelection client_name))
             else (case select_channel E candidates client_name st of
                     (st', Inl e) \<Rightarrow> (st', Inl e)
                   | (st', Inr cand) \<Rightarrow> (st', apply_selection E st' body cand req ctx))))"

section \<open>The response hook\<close>

definition mark_healthy :: "string \<Rightarrow> channel_state hashmap \<Rightarrow> channel_state hashmap" where
  "mark_healthy cid h = (case h cid of None \<Rightarrow> h | Some s \<Rightarrow> h(cid \<mapsto> record_success s))"

definition router_record_failure ::
  "instant \<Rightarrow> string \<Rightarrow> channel_state hashmap \<Rightarrow> channel_state hashmap" where
  "router_record_failure now cid h =
     h(cid \<mapsto> record_failure now (unwrap_or channel_state_new (h cid)))"

definition router_mark_rate_limited ::
  "instant \<Rightarrow> string \<Rightarrow> channel_state hashmap \<Rightarrow> channel_state hashmap" where
  "router_mark_rate_limited now cid h =
     h(cid \<mapsto> mark_rate_limited now (unwrap_or channel_state_new (h cid)))"

definition mark_unhealthy_immediate ::
  "instant \<Rightarrow> string \<Rightarrow> channel_state hashmap \<Rightarrow> channel_state hashmap" where
  "mark_unhealthy_immediate now cid h =
     h(cid \<mapsto> mark_unhealthy now (unwrap_or channel_state_new (h cid)))"

definition update_health ::
  "instant \<Rightarrow> string \<Rightarrow> status \<Rightarrow> channel_state hashmap \<Rightarrow> channel_state hashmap" where
  "update_health now cid st h =
     (if is_server_error st \<or> st = 401 then mark_unhealthy_immediate now cid h
      else if is_client_error st \<and> st \<noteq> 429 then h
      else if st = 429 then router_mark_rate_limited now cid h
      else mark_healthy cid h)"

definition record_quota ::
  "router_env \<Rightarrow> proxy_response \<Rightarrow> connection_context \<Rightarrow> quota_usage hashmap \<Rightarrow> quota_usage hashmap" where
  "record_quota E res ctx q =
     (case selected_mapping ctx of
        None \<Rightarrow> q
      | Some info \<Rightarrow>
          if smi_is_flat_fee info then
            (let token_count = (case from_slice (env_json E) (res_body res) of
                                  Inl _ \<Rightarrow> 0 | Inr body \<Rightarrow> extract_token_count body)
             in q(smi_mapping_id info \<mapsto>
                  record_usage (env_month E) token_count
                    (quota_entry (env_month E) q (smi_mapping_id info))))
          else q)"

definition router_on_response ::
  "router_env \<Rightarrow> router_state \<Rightarrow> proxy_response \<Rightarrow> connection_context \<Rightarrow>
    router_state \<times> (proxy_error + proxy_response)" where
  "router_on_response E st res ctx =
     (let channel_id = channel_key ctx in
      if channel_id = [] then (st, Inr res)
      else (st\<lparr>quota_usage_map := record_quota E res ctx (quota_usage_map st),
               health_map := update_health (env_now E) channel_id (res_status res) (health_map st)\<rparr>,
            Inr res))"

definition model_router_middleware :: "router_env \<Rightarrow> (router_state, proxy_error) middleware" where
  "model_router_middleware E =
     \<lparr>mw_name = ''model-router'', on_request = router_on_request E, on_response = router_on_response E\<rparr>"

end
