(* ===== verification/Router_Selection.thy ===== *)
theory Router_Selection
  imports Model_Router
begin

text \<open>
  What channel selection guarantees. The loops of \<open>select_channel\<close>, which thread the quota table
  and return early, are reduced to searches over a view of the state that selection never changes;
  the properties about the chosen candidate follow from the lemmas on stable descending sorts.
\<close>

section \<open>The view selection reads\<close>

definition usable :: "router_env \<Rightarrow> router_state \<Rightarrow> candidate \<Rightarrow> bool" where
  "usable E st c \<longleftrightarrow>
     has_api_key st (rc_channel_id (fst c)) \<and> is_healthy st (env_now E) (rc_channel_id (fst c))"

definition within_quota :: "router_env \<Rightarrow> router_state \<Rightarrow> candidate \<Rightarrow> bool" where
  "within_quota E st c =
     (case rm_billing (snd c) of
        FlatFee _ q _ \<Rightarrow>
          is_within_quota (quota_entry (env_month E) (quota_usage_map st) (rm_mapping_id (snd c))) q
      | Metered _ \<Rightarrow> False)"

definition blocks :: "candidate \<Rightarrow> bool" where
  "blocks c = (case rm_billing (snd c) of FlatFee _ _ a \<Rightarrow> a = Block | Metered _ \<Rightarrow> False)"

definition flat :: "candidate \<Rightarrow> bool" where
  "flat c = is_flat_fee (rm_billing (snd c))"

definition same_view :: "u32 \<Rightarrow> router_state \<Rightarrow> router_state \<Rightarrow> bool" where
  "same_view cur st st' \<longleftrightarrow>
     channels st' = channels st \<and> health_map st' = health_map st \<and>
     channel_api_keys st' = channel_api_keys st \<and>
     quota_entry cur (quota_usage_map st') = quota_entry cur (quota_usage_map st)"

lemma same_view_refl [simp]: "same_view cur st st"
  by (simp add: same_view_def)

lemma same_view_trans: "same_view cur a b \<Longrightarrow> same_view cur b c \<Longrightarrow> same_view cur a c"
  by (simp add: same_view_def)

lemma same_view_or_default:
  "same_view cur st (st\<lparr>quota_usage_map :=
     (quota_usage_map st)(k \<mapsto> quota_entry cur (quota_usage_map st) k)\<rparr>)"
  by (auto simp: same_view_def quota_entry_def fun_eq_iff)

lemma has_api_key_cong:
  "channels st' = channels st \<Longrightarrow> channel_api_keys st' = channel_api_keys st \<Longrightarrow>
     has_api_key st' = has_api_key st"
  by (rule ext) (auto simp: has_api_key_def split: option.splits)

lemma has_api_key_view: "same_view cur st st' \<Longrightarrow> has_api_key st' = has_api_key st"
  by (rule has_api_key_cong) (simp_all add: same_view_def)

lemma is_healthy_view: "same_view cur st st' \<Longrightarrow> is_healthy st' = is_healthy st"
  by (auto simp: same_view_def is_healthy_def fun_eq_iff)

lemma usable_view: "same_view cur st st' \<Longrightarrow> usable E st' = usable E st"
  by (auto simp: usable_def has_api_key_view is_healthy_view fun_eq_iff)

lemma within_quota_view: "same_view (env_month E) st st' \<Longrightarrow> within_quota E st' = within_quota E st"
  by (auto simp: within_quota_def same_view_def fun_eq_iff split: channel_billing.splits)

lemma within_quota_flat: "within_quota E st c \<Longrightarrow> flat c"
  by (cases "rm_billing (snd c)") (auto simp: within_quota_def flat_def)

lemma blocks_flat: "blocks c \<Longrightarrow> flat c"
  by (cases "rm_billing (snd c)") (auto simp: blocks_def flat_def)

section \<open>The loops are searches\<close>

definition decides :: "router_env \<Rightarrow> router_state \<Rightarrow> candidate \<Rightarrow> bool" where
  "decides E st c \<longleftrightarrow> usable E st c \<and> (within_quota E st c \<or> blocks c)"

definition verdict :: "router_env \<Rightarrow> router_state \<Rightarrow> string \<Rightarrow> candidate \<Rightarrow> proxy_error + candidate" where
  "verdict E st client_name c =
     (if within_quota E st c then Inr c else Inl (ChannelSelection client_name))"

lemma try_flatfee_search:
  "try_flatfee E n cs st = (st', r) \<Longrightarrow>
     same_view (env_month E) st st' \<and> r = map_option (verdict E st n) (find (decides E st) cs)"
proof (induction E n cs st arbitrary: st' r rule: try_flatfee.induct)
  case (2 E n ch m cs st)
  show ?case
  proof (cases "usable E st (ch, m)")
    case False
    with "2.prems" have "try_flatfee E n cs st = (st', r)"
      by (auto simp: usable_def split: if_splits)
    with "2.IH"(1,2) False show ?thesis by (auto simp: usable_def decides_def)
  next
    case usable: True
    show ?thesis
    proof (cases "rm_billing m")
      case (Metered p)
      with "2.prems" usable have "try_flatfee E n cs st = (st', r)" by (simp add: usable_def)
      with "2.IH"(3) usable Metered show ?thesis
        by (simp add: usable_def decides_def within_quota_def blocks_def)
    next
      case (FlatFee h q a)
      let ?u = "quota_entry (env_month E) (quota_usage_map st) (rm_mapping_id m)"
      let ?st = "st\<lparr>quota_usage_map := (quota_usage_map st)(rm_mapping_id m \<mapsto> ?u)\<rparr>"
      have view: "same_view (env_month E) st ?st" by (rule same_view_or_default)
      have w: "within_quota E st (ch, m) = is_within_quota ?u q" and b: "blocks (ch, m) = (a = Block)"
        using FlatFee by (simp_all add: within_quota_def blocks_def)
      show ?thesis
      proof (cases "decides E st (ch, m)")
        case True
        with "2.prems" usable FlatFee w b have "st' = ?st" "r = Some (verdict E st n (ch, m))"
          by (auto simp: usable_def decides_def verdict_def Let_def split: if_splits)
        with True view show ?thesis by simp
      next
        case False
        then have pre: "has_api_key st (rc_channel_id ch)" "is_healthy st (env_now E) (rc_channel_id ch)"
          "\<not> is_within_quota ?u q" "a \<noteq> Block"
          using usable w b by (auto simp: usable_def decides_def)
        with "2.prems" FlatFee have "try_flatfee E n cs ?st = (st', r)" by (simp add: Let_def)
        moreover have "same_view (env_month E) ?st st' \<and>
            r = map_option (verdict E ?st n) (find (decides E ?st) cs)"
          using "2.IH"(4) [of h q a ?u ?st] pre FlatFee calculation by simp
        moreover have "decides E ?st = decides E st" "verdict E ?st n = verdict E st n"
          using usable_view [OF view] within_quota_view [OF view]
          by (auto simp: decides_def verdict_def fun_eq_iff)
        ultimately show ?thesis using False view same_view_trans by auto
      qed
    qed
  qed
qed simp

lemma try_metered_search: "try_metered E cs st = find (usable E st) cs"
  by (simp add: try_metered_def usable_def [abs_def] case_prod_unfold)

text \<open>\<open>is_healthy\<close> and \<open>is_tryable_past_cooldown\<close> are the same test.\<close>

lemma try_past_cooldown_search: "try_past_cooldown E cs st = find (usable E st) cs"
  by (simp add: try_past_cooldown_def usable_def [abs_def] case_prod_unfold is_healthy_def
      router_is_tryable_past_cooldown_def)

lemma select_channel_search:
  assumes "select_channel E cs n st = (st', r)"
  shows "same_view (env_month E) st st'"
    and "r = (case find (decides E st) (sort_desc candidate_priority (filter flat cs)) of
           Some c \<Rightarrow> verdict E st n c
         | None \<Rightarrow>
             (case find (usable E st) (sort_desc candidate_priority (filter (\<lambda>c. \<not> flat c) cs)) of
                Some c \<Rightarrow> Inr c
              | None \<Rightarrow>
                  (case find (usable E st) cs of
                     Some c \<Rightarrow> Inr c
                   | None \<Rightarrow> Inl (ChannelSelection n))))"
proof -
  let ?f = "sort_desc candidate_priority (filter flat cs)"
  obtain st1 r1 where f: "try_flatfee E n ?f st = (st1, r1)" by fastforce
  from try_flatfee_search [OF this] have v: "same_view (env_month E) st st1"
    and r1: "r1 = map_option (verdict E st n) (find (decides E st) ?f)" by auto
  have "try_flatfee E n (sort_desc candidate_priority
      (filter (\<lambda>c. is_flat_fee (rm_billing (snd c))) cs)) st = (st1, r1)"
    using f by (simp add: flat_def [abs_def])
  with assms have sel: "(st', r) = (case r1 of Some r \<Rightarrow> (st1, r)
      | None \<Rightarrow> (case find (usable E st) (sort_desc candidate_priority (filter (\<lambda>c. \<not> flat c) cs)) of
           Some c \<Rightarrow> (st1, Inr c)
         | None \<Rightarrow> (case find (usable E st) cs of
             Some c \<Rightarrow> (st1, Inr c) | None \<Rightarrow> (st1, Inl (ChannelSelection n)))))"
    unfolding select_channel_def Let_def try_metered_search try_past_cooldown_search flat_def
    by (cases r1) (simp_all only: prod.case option.case usable_view [OF v])
  then have "st' = st1" by (auto split: option.splits)
  with v show "same_view (env_month E) st st'" by simp
  from sel r1 show "r = (case find (decides E st) ?f of
           Some c \<Rightarrow> verdict E st n c
         | None \<Rightarrow>
             (case find (usable E st) (sort_desc candidate_priority (filter (\<lambda>c. \<not> flat c) cs)) of
                Some c \<Rightarrow> Inr c
              | None \<Rightarrow>
                  (case find (usable E st) cs of
                     Some c \<Rightarrow> Inr c
                   | None \<Rightarrow> Inl (ChannelSelection n))))"
    by (auto split: option.splits)
qed

lemma select_channel_usable:
  assumes "snd (select_channel E cs n st) = Inr c"
  shows "c \<in> set cs \<and> usable E st c"
proof -
  obtain st' where "select_channel E cs n st = (st', Inr c)" using assms by (metis prod.collapse)
  note sel = select_channel_search(2) [OF this]
  then show ?thesis
    by (auto simp: verdict_def decides_def dest!: find_Some_in split: option.splits if_splits)
qed

section \<open>A sample router\<close>

text \<open>
  Two channels for the model \<open>m\<close>: a flat-fee one of 100 requests a month and a metered one. The
  witnesses of the router's properties are evaluated on it.
\<close>

definition sample_entry :: protocol_entry where
  "sample_entry = \<lparr>pe_protocol = ''openai_chat'', pe_base_url = ''https://u'', pe_rewrite_path = None\<rparr>"

definition sample_flat :: candidate where
  "sample_flat =
     (let m = \<lparr>rm_mapping_id = ''mf'', rm_client_name = ''m'', rm_upstream_name = ''up'',
               rm_billing = FlatFee None (Some (MaxRequests 100)) FallbackToMetered,
               rm_allowed_protocols = []\<rparr>
      in (\<lparr>rc_channel_id = ''f'', rc_channel_name = ''f'', rc_api_key = ''k'',
           rc_protocols = [sample_entry], rc_enabled = True, rc_force_protocol = None,
           rc_priority = 1, rc_mappings = [m]\<rparr>, m))"

definition sample_metered :: candidate where
  "sample_metered =
     (let m = \<lparr>rm_mapping_id = ''mm'', rm_client_name = ''m'', rm_upstream_name = ''up'',
               rm_billing = Metered (PerToken (Fin 1) (Fin 2) None None None ''USD''),
               rm_allowed_protocols = []\<rparr>
      in (\<lparr>rc_channel_id = ''t'', rc_channel_name = ''t'', rc_api_key = ''k'',
           rc_protocols = [sample_entry], rc_enabled = True, rc_force_protocol = None,
           rc_priority = 9, rc_mappings = [m]\<rparr>, m))"

definition sample_state :: router_state where
  "sample_state =
     \<lparr>channels = [fst sample_flat, fst sample_metered], health_map = Map.empty,
      quota_usage_map = Map.empty, channel_api_keys = [''f'' \<mapsto> ''k'', ''t'' \<mapsto> ''k'']\<rparr>"

definition sample_json :: json_lib where
  "sample_json = \<lparr>from_slice = (\<lambda>_. Inr (JObject [(''model'', JString ''m'')])), to_vec = (\<lambda>_. Inr ''b'')\<rparr>"

definition sample_env :: router_env where
  "sample_env = \<lparr>env_json = sample_json, env_now = 0, env_month = 24313, env_pricing_json = (\<lambda>_. None)\<rparr>"

lemmas sample_defs = sample_entry_def sample_flat_def sample_metered_def sample_state_def
  sample_json_def sample_env_def Let_def

lemma sort_desc_singleton [simp]: "sort_desc k [x] = [x]"
  by (simp add: sort_desc_def)

lemma sort_desc_Nil [simp]: "sort_desc k [] = []"
  by (simp add: sort_desc_def)

lemma sample_select:
  "snd (select_channel sample_env [sample_flat, sample_metered] ''m'' sample_state) = Inr sample_flat"
  by (simp add: select_channel_def sample_defs has_api_key_def is_healthy_def quota_entry_def
      quota_usage_new_def)

section \<open>Properties\<close>

text \<open>
  C2. A selected candidate is one of the candidates offered, its channel has a usable API key, and
  its channel is not in a cooldown; a flat-fee mapping that blocks when exhausted is selected only
  within its quota.
\<close>

theorem select_channel_sound:
  assumes "snd (select_channel E cs n st) = Inr c"
  shows "c \<in> set cs \<and> has_api_key st (rc_channel_id (fst c)) \<and>
    is_none_or (is_tryable_past_cooldown (env_now E)) (health_map st (rc_channel_id (fst c))) \<and>
    (blocks c \<longrightarrow> within_quota E st c)"
proof -
  obtain st' where "select_channel E cs n st = (st', Inr c)" using assms by (metis prod.collapse)
  note sel = select_channel_search(2) [OF this]
  have "c \<in> set cs \<and> usable E st c" by (rule select_channel_usable [OF assms])
  moreover have "within_quota E st c" if "blocks c"
  proof (rule ccontr)
    assume "\<not> within_quota E st c"
    with that \<open>c \<in> set cs \<and> usable E st c\<close> have "decides E st c" "flat c" "c \<in> set cs"
      by (auto simp: decides_def dest: blocks_flat)
    then have "find (decides E st) (sort_desc candidate_priority (filter flat cs)) \<noteq> None"
      by (intro find_sort_desc_hit) auto
    with sel \<open>\<not> within_quota E st c\<close> show False
      by (auto simp: verdict_def split: option.splits if_splits)
  qed
  ultimately show ?thesis by (auto simp: usable_def is_healthy_def)
qed

theorem select_channel_sound_witness:
  "has_api_key sample_state (rc_channel_id (fst sample_flat)) \<and>
   sample_flat \<in> set [sample_flat, sample_metered]"
  using select_channel_sound [OF sample_select] by blast



text \<open>
  C14. Selection fails only for a reason: as long as no usable candidate is an exhausted flat-fee
  mapping that blocks, a channel is selected exactly when some candidate is usable, and the only
  error is \<open>ChannelSelection\<close> with the requested model.
\<close>

theorem select_channel_complete:
  assumes "\<forall>c\<in>set cs. usable E st c \<and> blocks c \<longrightarrow> within_quota E st c"
  shows "((\<exists>c. snd (select_channel E cs n st) = Inr c) \<longleftrightarrow> (\<exists>c\<in>set cs. usable E st c)) \<and>
    (\<forall>e. snd (select_channel E cs n st) = Inl e \<longrightarrow> e = ChannelSelection n)"
proof -
  let ?f = "find (decides E st) (sort_desc candidate_priority (filter flat cs))"
  obtain st' r where "select_channel E cs n st = (st', r)" by fastforce
  note sel = select_channel_search(2) [OF this]
  have r: "snd (select_channel E cs n st) = r" using \<open>select_channel E cs n st = (st', r)\<close> by simp
  show ?thesis
  proof (cases ?f)
    case (Some d)
    from find_sort_desc_max [OF Some] have d: "d \<in> set cs" "usable E st d" "within_quota E st d"
      using assms by (auto simp: decides_def)
    with sel Some have "r = Inr d" by (simp add: verdict_def)
    with d r show ?thesis by auto
  next
    case None
    show ?thesis
    proof (cases "find (usable E st) (sort_desc candidate_priority (filter (\<lambda>c. \<not> flat c) cs))")
      case (Some d)
      with sel None find_sort_desc_max [OF Some] r show ?thesis by auto
    next
      case none_m: None
      show ?thesis
      proof (cases "find (usable E st) cs")
        case (Some d)
        with sel None none_m find_Some_in [OF Some] r show ?thesis by auto
      next
        case none: None
        with sel None none_m have "r = Inl (ChannelSelection n)" by simp
        moreover have "\<forall>c\<in>set cs. \<not> usable E st c" using none by (auto simp: find_None_iff)
        ultimately show ?thesis using r by simp
      qed
    qed
  qed
qed

theorem select_channel_complete_witness:
  "\<exists>c. snd (select_channel sample_env [sample_metered] ''m'' sample_state) = Inr c"
proof -
  have "\<forall>c\<in>set [sample_metered]. usable sample_env sample_state c \<and> blocks c \<longrightarrow>
      within_quota sample_env sample_state c"
    by (simp add: blocks_def sample_defs)
  moreover have "usable sample_env sample_state sample_metered"
    by (simp add: usable_def sample_defs has_api_key_def is_healthy_def)
  ultimately show ?thesis using select_channel_complete [of "[sample_metered]"] by auto
qed

end
