(* ===== verification/Router_Hooks.thy ===== *)
theory Router_Hooks
  imports Router_Selection
begin

text \<open>
  What the two hooks of the router guarantee: the request leaves for an endpoint the selected channel
  declares, in a protocol the mapping allows, with a key; the response updates the health of a
  channel and the quota of a mapping. The theory also shows where the two hooks do not fit together.
\<close>

section \<open>Protocol resolution\<close>

lemma parse_protocol_Inr: "parse_protocol s = Inr f \<Longrightarrow> protocol_to_str f = s \<and> s \<noteq> []"
  by (auto simp: parse_protocol_def split: if_splits)

lemma parse_protocol_to_str: "protocol_to_str f \<noteq> [] \<Longrightarrow> parse_protocol (protocol_to_str f) = Inr f"
  by (cases f) (auto simp: parse_protocol_def)

lemma protocol_to_str_inject:
  "protocol_to_str f = protocol_to_str g \<Longrightarrow> protocol_to_str f \<noteq> [] \<Longrightarrow> f = g"
  by (metis parse_protocol_to_str Inr_inject)

lemma first_protocol_Inr:
  "first_protocol ps = Inr f \<Longrightarrow> protocol_to_str f \<in> pe_protocol ` set ps \<and> protocol_to_str f \<noteq> []"
  by (auto simp: first_protocol_def dest!: parse_protocol_Inr split: list.splits if_splits)

lemma resolve_target_protocol_Inr:
  "resolve_target_protocol force df ps = Inr f \<Longrightarrow>
     protocol_to_str f \<in> pe_protocol ` set ps \<and> protocol_to_str f \<noteq> []"
  by (auto simp: resolve_target_protocol_def res_bind_Inr_iff list_ex_iff image_iff
      dest!: first_protocol_Inr parse_protocol_Inr split: option.splits if_splits) metis+

lemma constrain_protocol_Inr:
  assumes "constrain_protocol ch m f = Inr g"
    and "protocol_to_str f \<in> pe_protocol ` set (rc_protocols ch)" "protocol_to_str f \<noteq> []"
  shows "protocol_to_str g \<in> pe_protocol ` set (rc_protocols ch) \<and> protocol_to_str g \<noteq> [] \<and>
    (rm_allowed_protocols m = [] \<or> protocol_to_str g \<in> set (rm_allowed_protocols m))"
  using assms
  by (auto simp: constrain_protocol_def dest!: parse_protocol_Inr find_Some_in
      split: if_splits option.splits)

lemma resolve_upstream_url_Inr:
  "resolve_upstream_url f ps = Inr (url, rw) \<longleftrightarrow>
     (\<exists>pe. find (\<lambda>e. pe_protocol e = protocol_to_str f) ps = Some pe \<and> pe_base_url pe \<noteq> [] \<and>
       url = pe_base_url pe \<and> rw = pe_rewrite_path pe)"
  by (auto simp: resolve_upstream_url_def Let_def split: option.splits)

section \<open>The request hook\<close>

lemma find_candidates_iff:
  "(ch, m) \<in> set (find_candidates chs n) \<longleftrightarrow>
     ch \<in> set chs \<and> rc_enabled ch \<and> m \<in> set (rc_mappings ch) \<and> rm_client_name m = n"
  by (auto simp: find_candidates_def split: if_splits)

text \<open>What the context says of a selection, in terms of the channel and the mapping.\<close>

definition routed ::
  "router_state \<Rightarrow> resolved_channel \<Rightarrow> resolved_mapping \<Rightarrow> connection_context \<Rightarrow> bool" where
  "routed st ch m ctx \<longleftrightarrow>
     (\<exists>cc info pe.
        selected_channel ctx = Some cc \<and> selected_mapping ctx = Some info \<and>
        target_protocol ctx = Some (cc_protocol cc) \<and>
        pe \<in> set (rc_protocols ch) \<and> pe_protocol pe = protocol_to_str (cc_protocol cc) \<and>
        cc_url cc = pe_base_url pe \<and> cc_url cc \<noteq> [] \<and> cc_rewrite_path cc = pe_rewrite_path pe \<and>
        (rm_allowed_protocols m = [] \<or> pe_protocol pe \<in> set (rm_allowed_protocols m)) \<and>
        cc_api_key cc = unwrap_or (rc_api_key ch) (channel_api_keys st (rc_channel_id ch)) \<and>
        cc_name cc = rc_channel_name ch \<and>
        smi_channel_id info = rc_channel_id ch \<and> smi_mapping_id info = rm_mapping_id m \<and>
        smi_upstream_name info = rm_upstream_name m \<and> smi_client_name info = rm_client_name m \<and>
        smi_is_flat_fee info = is_flat_fee (rm_billing m) \<and>
        smi_pricing info = billing_pricing (rm_billing m))"

lemma pricing_snapshot_fst [simp]: "fst (pricing_snapshot E b) = billing_pricing b"
  by (cases b) (simp_all add: pricing_snapshot_def)

text \<open>
  The price a call is billed by, in print, and what a hook leaves of the values that the middleware
  before it put in the context.
\<close>

definition snapshot_text :: "router_env \<Rightarrow> channel_billing \<Rightarrow> string" where
  "snapshot_text E billing =
     (if is_flat_fee billing then ''{\"type\":\"flat_fee\"}''
      else unwrap_or [] (Option.bind (billing_pricing billing) (env_pricing_json E)))"

lemma pricing_snapshot_snd [simp]: "snd (pricing_snapshot E b) = snapshot_text E b"
  by (cases b) (simp_all add: pricing_snapshot_def snapshot_text_def)

definition same_extensions :: "string set \<Rightarrow> connection_context \<Rightarrow> connection_context \<Rightarrow> bool" where
  "same_extensions ks c c' \<longleftrightarrow> (\<forall>k. k \<notin> ks \<longrightarrow> extensions c' k = extensions c k)"

lemma same_extensions_insert: "same_extensions ks c c' \<Longrightarrow> k \<in> ks \<Longrightarrow> same_extensions ks c (ctx_insert k v c')"
  by (auto simp: same_extensions_def ctx_insert_def)

lemma same_extensions_target: "same_extensions ks c (c\<lparr>target_protocol := p\<rparr>)"
  by (simp add: same_extensions_def)

lemma apply_selection_Inr:
  assumes "apply_selection E st body (ch, m) req ctx = Inr (req', ctx')"
  shows "routed st ch m ctx'" and "same_request ctx ctx'"
    and "same_extensions {EXT_SELECTED_CHANNEL, EXT_SELECTED_MAPPING} ctx ctx'"
    and "map_option smi_pricing_snapshot_json (selected_mapping ctx') = Some (snapshot_text E (rm_billing m))"
    and "\<exists>b. to_vec (env_json E) (jreplace ''model'' (JString (rm_upstream_name m)) body) = Inr b \<and>
      req' = req\<lparr>req_body := b\<rparr>"
proof -
  obtain b f g url rw where
    b: "to_vec (env_json E) (jreplace ''model'' (JString (rm_upstream_name m)) body) = Inr b"
    and f: "resolve_target_protocol (rc_force_protocol ch) (detected_format ctx) (rc_protocols ch) = Inr f"
    and g: "constrain_protocol ch m f = Inr g"
    and u: "resolve_upstream_url g (rc_protocols ch) = Inr (url, rw)"
    and req': "req' = req\<lparr>req_body := b\<rparr>"
    and ctx': "ctx' = ctx_insert EXT_SELECTED_MAPPING (ExtMapping
        \<lparr>smi_channel_id = rc_channel_id ch, smi_mapping_id = rm_mapping_id m,
         smi_client_name = rm_client_name m, smi_upstream_name = rm_upstream_name m,
         smi_is_flat_fee = is_flat_fee (rm_billing m),
         smi_pricing = billing_pricing (rm_billing m),
         smi_pricing_snapshot_json = snapshot_text E (rm_billing m)\<rparr>)
      (ctx_insert EXT_SELECTED_CHANNEL (ExtChannel
        \<lparr>cc_url = url, cc_api_key = unwrap_or (rc_api_key ch) (channel_api_keys st (rc_channel_id ch)),
         cc_protocol = g, cc_name = rc_channel_name ch, cc_rewrite_path = rw\<rparr>)
        (ctx\<lparr>target_protocol := Some g\<rparr>))"
    using assms
    by (auto simp: apply_selection_def res_bind_Inr_iff Let_def case_prod_unfold split: sum.splits)
  have g': "rm_allowed_protocols m = [] \<or> protocol_to_str g \<in> set (rm_allowed_protocols m)"
    using constrain_protocol_Inr [OF g] resolve_target_protocol_Inr [OF f] by blast
  obtain pe where pe: "pe \<in> set (rc_protocols ch)" "pe_protocol pe = protocol_to_str g"
    "pe_base_url pe \<noteq> []" "url = pe_base_url pe" "rw = pe_rewrite_path pe"
    using u by (auto simp: resolve_upstream_url_Inr dest: find_Some_in)
  obtain cc info where "selected_channel ctx' = Some cc" "selected_mapping ctx' = Some info"
    and "cc = \<lparr>cc_url = url, cc_api_key = unwrap_or (rc_api_key ch) (channel_api_keys st (rc_channel_id ch)),
         cc_protocol = g, cc_name = rc_channel_name ch, cc_rewrite_path = rw\<rparr>"
    and "info = \<lparr>smi_channel_id = rc_channel_id ch, smi_mapping_id = rm_mapping_id m,
         smi_client_name = rm_client_name m, smi_upstream_name = rm_upstream_name m,
         smi_is_flat_fee = is_flat_fee (rm_billing m), smi_pricing = billing_pricing (rm_billing m),
         smi_pricing_snapshot_json = snapshot_text E (rm_billing m)\<rparr>"
    unfolding ctx' by (simp add: ctx_simps)
  moreover have "target_protocol ctx' = Some g" unfolding ctx' by (simp add: ctx_simps)
  ultimately show "routed st ch m ctx'"
    unfolding routed_def using pe g' by (intro exI [of _ cc] exI [of _ info] exI [of _ pe]) simp
  show "same_request ctx ctx'" unfolding ctx' by blast
  show "same_extensions {EXT_SELECTED_CHANNEL, EXT_SELECTED_MAPPING} ctx ctx'"
    unfolding ctx' by (intro same_extensions_insert same_extensions_target) simp_all
  show "map_option smi_pricing_snapshot_json (selected_mapping ctx') = Some (snapshot_text E (rm_billing m))"
    unfolding ctx' by (simp add: ctx_simps)
  show "\<exists>b. to_vec (env_json E) (jreplace ''model'' (JString (rm_upstream_name m)) body) = Inr b \<and>
      req' = req\<lparr>req_body := b\<rparr>" using b req' by blast
qed

text \<open>Inversion of a successful request hook.\<close>

lemma router_on_request_Inr:
  assumes "router_on_request E st req ctx = (st', Inr (req', ctx'))"
  shows "\<exists>body ch m. from_slice (env_json E) (req_body req) = Inr body \<and> request_model body \<noteq> [] \<and>
    select_channel E (find_candidates (channels st) (request_model body)) (request_model body) st
      = (st', Inr (ch, m)) \<and>
    apply_selection E st' body (ch, m) req ctx = Inr (req', ctx')"
  using assms by (auto simp: router_on_request_def Let_def split: sum.splits if_splits prod.splits)

lemma router_on_request_view:
  "same_view (env_month E) st (fst (router_on_request E st req ctx))"
proof -
  have "same_view (env_month E) st (fst (select_channel E cs n st))" for cs n
    using select_channel_search(1) [of E cs n st] by (metis prod.collapse)
  then show ?thesis
    by (auto simp: router_on_request_def Let_def split: sum.splits prod.splits) (metis fst_conv)+
qed

lemma routed_view: "same_view cur st st' \<Longrightarrow> routed st' ch m ctx = routed st ch m ctx"
  by (simp add: routed_def same_view_def)

lemma router_on_request_routes:
  assumes "router_on_request E st req ctx = (st', Inr (req', ctx'))"
  shows "\<exists>body ch m b. from_slice (env_json E) (req_body req) = Inr body \<and>
    (ch, m) \<in> set (find_candidates (channels st) (request_model body)) \<and>
    usable E st (ch, m) \<and> routed st ch m ctx' \<and> same_request ctx ctx' \<and>
    to_vec (env_json E) (jreplace ''model'' (JString (rm_upstream_name m)) body) = Inr b \<and>
    req' = req\<lparr>req_body := b\<rparr> \<and>
    same_extensions {EXT_SELECTED_CHANNEL, EXT_SELECTED_MAPPING} ctx ctx' \<and>
    map_option smi_pricing_snapshot_json (selected_mapping ctx') = Some (snapshot_text E (rm_billing m))"
proof -
  obtain body ch m where
    body: "from_slice (env_json E) (req_body req) = Inr body"
    and sel: "select_channel E (find_candidates (channels st) (request_model body))
      (request_model body) st = (st', Inr (ch, m))"
    and app: "apply_selection E st' body (ch, m) req ctx = Inr (req', ctx')"
    using router_on_request_Inr [OF assms] by blast
  have view: "same_view (env_month E) st st'" by (rule select_channel_search(1) [OF sel])
  have "(ch, m) \<in> set (find_candidates (channels st) (request_model body)) \<and> usable E st (ch, m)"
    by (rule select_channel_usable [where n = "request_model body"]) (simp add: sel)
  with body apply_selection_Inr [OF app] routed_view [OF view] show ?thesis by blast
qed

section \<open>Health of the channels\<close>

definition health_op :: "instant \<times> string \<times> status \<Rightarrow> channel_state hashmap \<Rightarrow> channel_state hashmap \<times> unit"
where
  "health_op e h = (update_health (fst e) (fst (snd e)) (snd (snd e)) h, ())"

abbreviation health_key :: "instant \<times> string \<times> status \<Rightarrow> string" where
  "health_key \<equiv> \<lambda>e. fst (snd e)"

lemmas update_health_defs = update_health_def mark_unhealthy_immediate_def
  router_mark_rate_limited_def mark_healthy_def

lemma health_inv_ops:
  "health_inv s \<Longrightarrow> health_inv (mark_unhealthy now s)"
  "health_inv s \<Longrightarrow> health_inv (mark_rate_limited now s)"
  "health_inv s \<Longrightarrow> health_inv (record_success s)"
  using health_inv_step [of s "ServerError now"] health_inv_step [of s "RateLimit now"]
    health_inv_step [of s Success] by simp_all

interpretation health: keyed_inv health_op health_key health_inv
proof unfold_locales
  fix k :: string and e m
  assume "k \<noteq> health_key e"
  then show "fst (health_op e m) k = m k"
    by (auto simp: health_op_def update_health_defs split: option.splits)
next
  fix m m' :: "channel_state hashmap" and e
  assume "m (health_key e) = m' (health_key e)"
  then show "fst (health_op e m) (health_key e) = fst (health_op e m') (health_key e) \<and>
      snd (health_op e m) = snd (health_op e m')"
    by (auto simp: health_op_def update_health_defs split: option.splits)
next
  fix m :: "channel_state hashmap" and e
  assume inv: "pred_option health_inv (m (health_key e))"
  then have "health_inv (unwrap_or channel_state_new (m (health_key e)))"
    by (cases "m (health_key e)") (simp_all add: health_inv_new)
  with inv show "pred_option health_inv (fst (health_op e m) (health_key e))"
    by (auto simp: health_op_def update_health_defs health_inv_ops split: option.splits)
qed

text \<open>How long a status keeps the channel out of selection.\<close>

definition cooldown_of :: "status \<Rightarrow> duration option" where
  "cooldown_of st =
     (if is_server_error st \<or> st = 401 then Some (secs 900) else if st = 429 then Some (secs 30) else None)"

lemma update_health_other: "k \<noteq> cid \<Longrightarrow> update_health now cid st h k = h k"
  using health.step_frame [of k "(now, cid, st)" h] by (simp add: health_op_def)

lemma update_health_cooldown:
  assumes "cooldown_of st = Some d"
  shows "is_none_or (is_tryable_past_cooldown now') (update_health now cid st h cid) \<longleftrightarrow> d \<le> now' - now"
proof -
  have "\<not> is_server_error 429" "\<not> is_client_error 500" by (simp_all add: is_server_error_def is_client_error_def)
  then show ?thesis using assms
    by (auto simp: cooldown_of_def update_health_defs health_intros split: if_splits)
qed

lemma update_health_success:
  assumes "is_success st"
  shows "is_none_or (is_tryable_past_cooldown now') (update_health now cid st h cid)"
  using assms
  by (auto simp: is_success_def is_server_error_def is_client_error_def update_health_defs health_intros
      split: option.splits)

lemma router_on_response_health:
  "channel_key ctx \<noteq> [] \<Longrightarrow>
     health_map (fst (router_on_response E st res ctx))
       = update_health (env_now E) (channel_key ctx) (res_status res) (health_map st)"
  by (simp add: router_on_response_def Let_def)

lemma router_on_response_tables [simp]:
  "channels (fst (router_on_response E st res ctx)) = channels st"
  "channel_api_keys (fst (router_on_response E st res ctx)) = channel_api_keys st"
  "snd (router_on_response E st res ctx) = Inr res"
  by (simp_all add: router_on_response_def Let_def)

lemma router_on_response_has_api_key [simp]:
  "has_api_key (fst (router_on_response E st res ctx)) = has_api_key st"
  by (rule has_api_key_cong) simp_all

lemma router_on_response_other:
  assumes "channel_key ctx \<noteq> k"
  shows "health_map (fst (router_on_response E st res ctx)) k = health_map st k"
  using assms by (cases "channel_key ctx = []")
    (simp_all add: router_on_response_health update_health_other, simp add: router_on_response_def)

text \<open>The response hook is invisible to a selection among channels with other identifiers.\<close>

lemma router_on_response_view:
  assumes "\<forall>ch\<in>set (channels st). rc_channel_id ch \<noteq> channel_key ctx"
    and "\<forall>info. selected_mapping ctx = Some info \<longrightarrow> \<not> smi_is_flat_fee info"
    and "set cs \<subseteq> {c. fst c \<in> set (channels st)}"
  shows "snd (select_channel E' cs n (fst (router_on_response E st res ctx))) = snd (select_channel E' cs n st)"
proof -
  let ?st = "fst (router_on_response E st res ctx)"
  have q: "quota_usage_map ?st = quota_usage_map st"
    using assms(2) by (auto simp: router_on_response_def record_quota_def Let_def split: option.splits)
  have h: "health_map ?st k = health_map st k" if "k \<noteq> channel_key ctx" for k
    using that by (simp add: router_on_response_other)
  have u: "usable E' ?st c = usable E' st c" if "c \<in> set cs" for c
    using that assms(1,3) h by (auto simp: usable_def is_healthy_def)
  have w: "within_quota E' ?st = within_quota E' st"
    by (auto simp: within_quota_def q fun_eq_iff split: channel_billing.splits)
  have d: "decides E' ?st c = decides E' st c" if "c \<in> set cs" for c
    using u [OF that] w by (simp add: decides_def)
  have f: "find p xs = find p' xs" if "\<And>c. c \<in> set xs \<Longrightarrow> p c = p' c" for p p' and xs :: "candidate list"
    using that by (induction xs) auto
  obtain st1 r1 where s1: "select_channel E' cs n ?st = (st1, r1)" by fastforce
  obtain st2 r2 where s2: "select_channel E' cs n st = (st2, r2)" by fastforce
  have 1: "find (decides E' ?st) (sort_desc candidate_priority (filter flat cs))
      = find (decides E' st) (sort_desc candidate_priority (filter flat cs))"
    by (rule f) (simp add: d)
  have 2: "find (usable E' ?st) (sort_desc candidate_priority (filter (\<lambda>c. \<not> flat c) cs))
      = find (usable E' st) (sort_desc candidate_priority (filter (\<lambda>c. \<not> flat c) cs))"
    by (rule f) (simp add: u)
  have 3: "find (usable E' ?st) cs = find (usable E' st) cs" by (rule f) (simp add: u)
  have 4: "verdict E' ?st n = verdict E' st n" by (simp add: verdict_def w fun_eq_iff)
  have "r1 = r2"
    unfolding select_channel_search(2) [OF s1] select_channel_search(2) [OF s2] 1 2 3 4 by (rule refl)
  with s1 s2 show ?thesis by simp
qed

section \<open>Quota accounting\<close>

lemma record_quota_flat:
  assumes "selected_mapping ctx = Some info" "smi_is_flat_fee info"
  shows "\<exists>t. record_quota E res ctx q = q(smi_mapping_id info \<mapsto>
    record_usage (env_month E) t (quota_entry (env_month E) q (smi_mapping_id info)))"
  using assms by (auto simp: record_quota_def Let_def)

fun respond_all ::
  "router_env \<Rightarrow> connection_context \<Rightarrow> proxy_response list \<Rightarrow> router_state \<Rightarrow> router_state" where
  "respond_all E ctx [] st = st"
| "respond_all E ctx (r # rs) st = respond_all E ctx rs (fst (router_on_response E st r ctx))"

lemma respond_all_count:
  assumes "selected_mapping ctx = Some info" "smi_is_flat_fee info" "channel_key ctx \<noteq> []"
  shows "month_key (quota_entry (env_month E) (quota_usage_map st) (smi_mapping_id info)) = env_month E \<Longrightarrow>
    requests_this_month (quota_entry (env_month E)
        (quota_usage_map (respond_all E ctx rs st)) (smi_mapping_id info))
      = requests_this_month (quota_entry (env_month E) (quota_usage_map st) (smi_mapping_id info))
        + of_nat (length rs)"
proof (induction rs arbitrary: st)
  case (Cons r rs)
  let ?st = "fst (router_on_response E st r ctx)"
  let ?u = "quota_entry (env_month E) (quota_usage_map st) (smi_mapping_id info)"
  obtain t where t: "record_quota E r ctx (quota_usage_map st)
      = (quota_usage_map st)(smi_mapping_id info \<mapsto> record_usage (env_month E) t ?u)"
    using record_quota_flat [OF assms(1,2)] by blast
  have "quota_entry (env_month E) (quota_usage_map ?st) (smi_mapping_id info)
      = record_usage (env_month E) t ?u"
    using assms(3) by (simp add: router_on_response_def t quota_entry_def)
  with Cons.IH [of ?st] record_usage_same_month [OF Cons.prems, of t] show ?case
    by simp
qed simp

section \<open>The channel table\<close>

text \<open>What loading establishes of every channel, and every operation keeps.\<close>

definition channel_wf :: "resolved_channel \<Rightarrow> bool" where
  "channel_wf ch \<longleftrightarrow>
     rc_protocols ch \<noteq> [] \<and>
     (\<forall>pe\<in>set (rc_protocols ch).
        (pe_base_url pe = [] \<or> last (pe_base_url pe) \<noteq> CHR ''/'') \<and> pe_rewrite_path pe \<noteq> Some [])"

definition router_wf :: "router_state \<Rightarrow> bool" where
  "router_wf st \<longleftrightarrow>
     (\<forall>ch\<in>set (channels st). channel_wf ch) \<and>
     (\<forall>k. pred_option health_inv (health_map st k))"

lemma normalize_protocol_wf:
  "(pe_base_url (normalize_protocol p) = [] \<or> last (pe_base_url (normalize_protocol p)) \<noteq> CHR ''/'') \<and>
   pe_rewrite_path (normalize_protocol p) \<noteq> Some []"
  using trim_end_char_no_suffix [of "CHR ''/''" "pe_base_url p"]
  by (auto simp: normalize_protocol_def bind_eq_Some_conv split: if_splits)

lemma resolve_channel_wf: "resolve_channel S P db ch = Inr (Some c) \<Longrightarrow> channel_wf c"
  by (auto simp: resolve_channel_def channel_wf_def Let_def normalize_protocol_wf [THEN conjunct2]
      dest: normalize_protocol_wf [THEN conjunct1, THEN disjE] split: if_splits sum.splits)
    (metis normalize_protocol_wf)

lemma resolve_channels_wf:
  "resolve_channels S P db chs = Inr cs \<Longrightarrow> \<forall>c\<in>set cs. channel_wf c"
  by (induction chs arbitrary: cs)
    (auto simp: res_bind_Inr_iff dest: resolve_channel_wf split: option.splits)

lemma load_channels_wf: "load_channels S P db = Inr cs \<Longrightarrow> \<forall>c\<in>set cs. channel_wf c"
  by (auto simp: load_channels_def dest: resolve_channels_wf split: sum.splits)

lemma router_wf_from_storage: "router_from_storage S P db = Inr st \<Longrightarrow> router_wf st"
  by (auto simp: router_from_storage_def res_bind_Inr_iff router_wf_def dest: load_channels_wf)

lemma router_wf_reload: "router_wf st \<Longrightarrow> router_wf (fst (reload_channels_from_storage S P db st))"
  by (auto simp: reload_channels_from_storage_def router_wf_def dest: load_channels_wf split: sum.splits)

lemma router_wf_view: "same_view cur st st' \<Longrightarrow> router_wf st \<Longrightarrow> router_wf st'"
  by (simp add: router_wf_def same_view_def)

lemma router_wf_on_request: "router_wf st \<Longrightarrow> router_wf (fst (router_on_request E st req ctx))"
  by (rule router_wf_view [OF router_on_request_view])

lemma router_wf_on_response:
  assumes "router_wf st"
  shows "router_wf (fst (router_on_response E st res ctx))"
proof (cases "channel_key ctx = []")
  case True
  with assms show ?thesis by (simp add: router_on_response_def)
next
  case False
  have "\<forall>k. pred_option health_inv (update_health (env_now E) (channel_key ctx) (res_status res) (health_map st) k)"
    using health.step_inv_all [of "health_map st" "(env_now E, channel_key ctx, res_status res)"] assms
    by (simp add: health_op_def router_wf_def)
  with assms False show ?thesis by (simp add: router_wf_def router_on_response_health)
qed

inductive router_reachable :: "'s storage \<Rightarrow> router_parsers \<Rightarrow> router_state \<Rightarrow> bool"
  for S :: "'s storage" and P :: router_parsers where
  loaded: "router_from_storage S P db = Inr st \<Longrightarrow> router_reachable S P st"
| reloaded: "router_reachable S P st \<Longrightarrow> reload_channels_from_storage S P db st = (st', r) \<Longrightarrow>
    router_reachable S P st'"
| requested: "router_reachable S P st \<Longrightarrow> router_on_request E st req ctx = (st', r') \<Longrightarrow>
    router_reachable S P st'"
| responded: "router_reachable S P st \<Longrightarrow> router_on_response E st res ctx = (st', r'') \<Longrightarrow>
    router_reachable S P st'"

lemma reachable_router_wf: "router_reachable S P st \<Longrightarrow> router_wf st"
proof (induction rule: router_reachable.induct)
  case (loaded db st)
  then show ?case by (rule router_wf_from_storage)
next
  case (reloaded st db st' r)
  then show ?case using router_wf_reload by (metis fst_conv)
next
  case (requested st E req ctx st' r)
  then show ?case using router_wf_on_request by (metis fst_conv)
next
  case (responded st E res ctx st' r')
  then show ?case using router_wf_on_response by (metis fst_conv)
qed

text \<open>
  The runs of the router that leave one channel's health alone: any number of reloads, requests,
  changes of the key table, and responses or probes of other channels.
\<close>

inductive quiet_run :: "'s storage \<Rightarrow> router_parsers \<Rightarrow> string \<Rightarrow> router_state \<Rightarrow> router_state \<Rightarrow> bool"
  for S :: "'s storage" and P :: router_parsers and k :: string and st :: router_state where
  quiet_start: "quiet_run S P k st st"
| quiet_reload: "quiet_run S P k st st1 \<Longrightarrow> reload_channels_from_storage S P db st1 = (st2, r) \<Longrightarrow>
    quiet_run S P k st st2"
| quiet_request: "quiet_run S P k st st1 \<Longrightarrow> router_on_request E st1 req ctx = (st2, r') \<Longrightarrow>
    quiet_run S P k st st2"
| quiet_response: "quiet_run S P k st st1 \<Longrightarrow> channel_key ctx \<noteq> k \<Longrightarrow>
    router_on_response E st1 res ctx = (st2, r'') \<Longrightarrow> quiet_run S P k st st2"
| quiet_keys: "quiet_run S P k st st1 \<Longrightarrow> quiet_run S P k st (st1\<lparr>channel_api_keys := ks\<rparr>)"
| quiet_probe: "quiet_run S P k st st1 \<Longrightarrow> j \<noteq> k \<Longrightarrow>
    quiet_run S P k st (st1\<lparr>health_map := (health_map st1)(j := v)\<rparr>)"

lemma quiet_run_health: "quiet_run S P k st st' \<Longrightarrow> health_map st' k = health_map st k"
proof (induction rule: quiet_run.induct)
  case (quiet_reload st1 db st2 r)
  then show ?case by (auto simp: reload_channels_from_storage_def split: sum.splits)
next
  case (quiet_request st1 E req ctx st2 r)
  then show ?case using router_on_request_view [of E st1 req ctx] by (simp add: same_view_def)
next
  case (quiet_response st1 ctx E res st2 r)
  then show ?case using router_on_response_other [of ctx k E st1 res] by simp
qed simp_all

lemma apply_selection_cong:
  assumes "channel_api_keys st = channel_api_keys st'"
  shows "apply_selection E st body c req ctx = apply_selection E st' body c req ctx"
  unfolding apply_selection_def assms by (rule refl)

text \<open>Two states that select alike and share the channel and key tables answer requests alike.\<close>

lemma router_on_request_cong:
  assumes "channels st' = channels st" "channel_api_keys st' = channel_api_keys st"
    and "\<And>cs n. set cs \<subseteq> {c. fst c \<in> set (channels st)} \<Longrightarrow>
      snd (select_channel E cs n st') = snd (select_channel E cs n st)"
  shows "snd (router_on_request E st' req ctx) = snd (router_on_request E st req ctx)"
proof -
  have sel: "snd (select_channel E (find_candidates (channels st) n) n st')
      = snd (select_channel E (find_candidates (channels st) n) n st)" for n
    by (rule assms(3)) (auto simp: find_candidates_iff)
  have keys: "channel_api_keys (fst (select_channel E cs n s)) = channel_api_keys s" for cs n s
    using select_channel_search(1) [of E cs n s] by (metis prod.collapse same_view_def)
  have app: "apply_selection E (fst (select_channel E cs n st')) body c req ctx
      = apply_selection E (fst (select_channel E cs n st)) body c req ctx" for cs n body c
    by (rule apply_selection_cong) (simp add: keys assms(2))
  show ?thesis
  proof (cases "from_slice (env_json E) (req_body req)")
    case (Inr body)
    let ?n = "request_model body"
    let ?cs = "find_candidates (channels st) ?n"
    obtain a r where s1: "select_channel E ?cs ?n st' = (a, r)" by fastforce
    obtain b r' where s2: "select_channel E ?cs ?n st = (b, r')" by fastforce
    have r: "r = r'" using sel [of ?n] s1 s2 by simp
    have "apply_selection E a body c req ctx = apply_selection E b body c req ctx" for c
      using app [of ?cs ?n body c] s1 s2 by simp
    then show ?thesis
      by (cases r') (simp_all add: router_on_request_def Inr assms(1) Let_def s1 s2 r)
  qed (simp add: router_on_request_def)
qed

text \<open>The key the router attaches: with distinct identifiers, \<open>has_api_key\<close> speaks of that key.\<close>

lemma attached_key_nonempty:
  assumes "distinct (map rc_channel_id (channels st))" "ch \<in> set (channels st)"
    and "has_api_key st (rc_channel_id ch)"
  shows "unwrap_or (rc_api_key ch) (channel_api_keys st (rc_channel_id ch)) \<noteq> []"
proof (cases "channel_api_keys st (rc_channel_id ch)")
  case None
  with assms(3) obtain ch' where "ch' \<in> set (channels st)" "rc_channel_id ch' = rc_channel_id ch"
    "rc_api_key ch' \<noteq> []" by (auto simp: has_api_key_def list_ex_iff)
  with assms(1,2) None show ?thesis by (auto simp: distinct_map inj_on_def)
next
  case (Some k)
  with assms(3) show ?thesis by (simp add: has_api_key_def)
qed

section \<open>Properties\<close>

abbreviation sample_req :: proxy_request where
  "sample_req \<equiv> \<lparr>req_method = ''POST'', req_path = ''/v1/chat/completions'', req_headers = [], req_body = []\<rparr>"

abbreviation sample_ctx :: connection_context where
  "sample_ctx \<equiv> connection_context_new 0 1 Claude None (Some OpenaiChat)"

lemma sample_candidates: "find_candidates (channels sample_state) ''m'' = [sample_flat, sample_metered]"
  by (simp add: find_candidates_def sample_defs)

lemma sample_apply:
  assumes "detected_format ctx = Some OpenaiChat"
  shows "\<exists>req' ctx'. apply_selection sample_env st (JObject [(''model'', JString ''m'')]) sample_flat
     req ctx = Inr (req', ctx') \<and> target_protocol ctx' = Some OpenaiChat \<and>
     ctx_get dc_bool EXT_BRIDGE_REVERSE ctx' = ctx_get dc_bool EXT_BRIDGE_REVERSE ctx"
  using assms by (simp add: apply_selection_def sample_defs resolve_target_protocol_def constrain_protocol_def
      resolve_upstream_url_def pricing_snapshot_def ctx_simps)

lemma sample_routes_from:
  assumes "detected_format ctx = Some OpenaiChat"
  shows "\<exists>st' req' ctx'. router_on_request sample_env sample_state req ctx = (st', Inr (req', ctx')) \<and>
     target_protocol ctx' = Some OpenaiChat \<and>
     ctx_get dc_bool EXT_BRIDGE_REVERSE ctx' = ctx_get dc_bool EXT_BRIDGE_REVERSE ctx"
proof -
  obtain st' where "select_channel sample_env [sample_flat, sample_metered] ''m'' sample_state
      = (st', Inr sample_flat)" using sample_select by (metis prod.collapse)
  moreover obtain req' ctx' where "apply_selection sample_env st' (JObject [(''model'', JString ''m'')])
      sample_flat req ctx = Inr (req', ctx') \<and> target_protocol ctx' = Some OpenaiChat \<and>
      ctx_get dc_bool EXT_BRIDGE_REVERSE ctx' = ctx_get dc_bool EXT_BRIDGE_REVERSE ctx"
    using sample_apply [OF assms] by blast
  moreover have "from_slice (env_json sample_env) b = Inr (JObject [(''model'', JString ''m'')])" for b
    by (simp add: sample_env_def sample_json_def)
  moreover have "request_model (JObject [(''model'', JString ''m'')]) = ''m''"
    by (simp add: request_model_def)
  ultimately show ?thesis by (simp add: router_on_request_def sample_candidates)
qed

lemma sample_routes:
  "\<exists>st' req' ctx'. router_on_request sample_env sample_state req sample_ctx = (st', Inr (req', ctx')) \<and>
     target_protocol ctx' = Some OpenaiChat \<and> ctx_get dc_bool EXT_BRIDGE_REVERSE ctx' = None"
  using sample_routes_from [of sample_ctx req] by (simp add: connection_context_new_def ctx_get_def)

text \<open>The state after the flat-fee channel answered 503, and the request that fails over.\<close>

abbreviation sample_failed :: router_state where
  "sample_failed \<equiv> fst (router_on_response sample_env sample_state
     \<lparr>res_status = 503, res_headers = [], res_body = [], res_is_streaming = False\<rparr>
     (ctx_insert EXT_SELECTED_CHANNEL (ExtChannel \<lparr>cc_url = ''u'', cc_api_key = ''k'',
        cc_protocol = OpenaiChat, cc_name = ''f'', cc_rewrite_path = None\<rparr>) sample_ctx))"

lemma sample_select_failed:
  "snd (select_channel sample_env [sample_flat, sample_metered] ''m'' sample_failed) = Inr sample_metered"
  by (simp add: router_on_response_def channel_key_def ctx_simps record_quota_def update_health_defs
      is_server_error_def select_channel_def sample_defs has_api_key_def is_healthy_def health_intros
      secs_def try_metered_def)

lemma sample_apply_metered:
  assumes "detected_format ctx = Some OpenaiChat"
  shows "\<exists>req' ctx'. apply_selection sample_env st (JObject [(''model'', JString ''m'')]) sample_metered
     req ctx = Inr (req', ctx')"
  using assms by (simp add: apply_selection_def sample_defs resolve_target_protocol_def constrain_protocol_def
      resolve_upstream_url_def pricing_snapshot_def ctx_simps)

lemma sample_fails_over:
  "\<exists>req' ctx'. snd (router_on_request sample_env sample_failed sample_req sample_ctx) = Inr (req', ctx')"
proof -
  obtain st' where sel: "select_channel sample_env [sample_flat, sample_metered] ''m'' sample_failed
      = (st', Inr sample_metered)" using sample_select_failed by (metis prod.collapse)
  obtain req' ctx' where app: "apply_selection sample_env st' (JObject [(''model'', JString ''m'')])
      sample_metered sample_req sample_ctx = Inr (req', ctx')"
    using sample_apply_metered [of sample_ctx st' sample_req] by (auto simp: connection_context_new_def)
  have "from_slice (env_json sample_env) b = Inr (JObject [(''model'', JString ''m'')])" for b
    by (simp add: sample_env_def sample_json_def)
  moreover have "request_model (JObject [(''model'', JString ''m'')]) = ''m''"
    by (simp add: request_model_def)
  ultimately show ?thesis using sel app by (simp add: router_on_request_def sample_candidates)
qed

text \<open>
  C5. A request that the router accepts is routed to an enabled channel that has a mapping for the
  requested model, that has a key and is not in a cooldown; the context names that channel and
  mapping; the URL and the protocol are those of one entry of the channel, with a URL that is not
  empty; the mapping's protocol constraint is respected; the price recorded for the call is the
  mapping's own, or the marker of a flat fee; the body is the client's body with the upstream model
  name; and nothing else changes: not the method, path or headers of the request, not the identity
  of the call, and no value that an earlier middleware put in the context.
\<close>

theorem router_routes_correctly:
  assumes "snd (router_on_request E st req ctx) = Inr (req', ctx')"
  shows "\<exists>body ch m b. from_slice (env_json E) (req_body req) = Inr body \<and>
    ch \<in> set (channels st) \<and> rc_enabled ch \<and> m \<in> set (rc_mappings ch) \<and>
    rm_client_name m = request_model body \<and> has_api_key st (rc_channel_id ch) \<and>
    is_healthy st (env_now E) (rc_channel_id ch) \<and> routed st ch m ctx' \<and>
    map_option smi_pricing_snapshot_json (selected_mapping ctx') =
      Some (if is_flat_fee (rm_billing m) then ''{\"type\":\"flat_fee\"}''
            else unwrap_or [] (Option.bind (billing_pricing (rm_billing m)) (env_pricing_json E))) \<and>
    to_vec (env_json E) (jreplace ''model'' (JString (rm_upstream_name m)) body) = Inr b \<and>
    req' = req\<lparr>req_body := b\<rparr> \<and> same_request ctx ctx' \<and>
    (\<forall>k. k \<noteq> EXT_SELECTED_CHANNEL \<and> k \<noteq> EXT_SELECTED_MAPPING \<longrightarrow> extensions ctx' k = extensions ctx k)"
proof -
  obtain st' where "router_on_request E st req ctx = (st', Inr (req', ctx'))"
    using assms by (metis prod.collapse)
  from router_on_request_routes [OF this] obtain body ch m b where
    r: "from_slice (env_json E) (req_body req) = Inr body"
    "(ch, m) \<in> set (find_candidates (channels st) (request_model body))" "usable E st (ch, m)"
    "routed st ch m ctx'" "same_request ctx ctx'"
    "to_vec (env_json E) (jreplace ''model'' (JString (rm_upstream_name m)) body) = Inr b"
    "req' = req\<lparr>req_body := b\<rparr>"
    and x: "same_extensions {EXT_SELECTED_CHANNEL, EXT_SELECTED_MAPPING} ctx ctx'"
    and p: "map_option smi_pricing_snapshot_json (selected_mapping ctx') = Some (snapshot_text E (rm_billing m))"
    by blast
  show ?thesis
    using r x p unfolding find_candidates_iff usable_def fst_conv same_extensions_def snapshot_text_def
    by (intro exI [of _ body] exI [of _ ch] exI [of _ m] exI [of _ b]) simp
qed

theorem router_routes_correctly_witness:
  "\<exists>req' ctx' ch m. snd (router_on_request sample_env sample_state sample_req
       (ctx_insert EXT_BRIDGE_REVERSE (ExtBool True) sample_ctx)) = Inr (req', ctx') \<and>
     routed sample_state ch m ctx' \<and> extensions ctx' EXT_BRIDGE_REVERSE = Some (ExtBool True)"
proof -
  have "detected_format (ctx_insert EXT_BRIDGE_REVERSE (ExtBool True) sample_ctx) = Some OpenaiChat"
    by (simp add: ctx_simps connection_context_new_def)
  from sample_routes_from [OF this, of sample_req] obtain st' req' ctx' where
    "router_on_request sample_env sample_state sample_req
      (ctx_insert EXT_BRIDGE_REVERSE (ExtBool True) sample_ctx) = (st', Inr (req', ctx'))" by blast
  then have r: "snd (router_on_request sample_env sample_state sample_req
      (ctx_insert EXT_BRIDGE_REVERSE (ExtBool True) sample_ctx)) = Inr (req', ctx')" by simp
  from router_routes_correctly [OF r] obtain ch m where "routed sample_state ch m ctx'"
    "extensions ctx' EXT_BRIDGE_REVERSE =
      extensions (ctx_insert EXT_BRIDGE_REVERSE (ExtBool True) sample_ctx) EXT_BRIDGE_REVERSE"
    by (auto simp: ctx_simps)
  with r show ?thesis by (auto simp: ctx_insert_def)
qed

text \<open>
  No request leaves without a key: when channel identifiers are distinct, the key attached to an
  accepted request is not empty.
\<close>

theorem router_attaches_key:
  assumes "distinct (map rc_channel_id (channels st))"
    and "snd (router_on_request E st req ctx) = Inr (req', ctx')"
  shows "\<exists>cc. selected_channel ctx' = Some cc \<and> cc_api_key cc \<noteq> []"
proof -
  obtain st' where "router_on_request E st req ctx = (st', Inr (req', ctx'))"
    using assms(2) by (metis prod.collapse)
  from router_on_request_routes [OF this] obtain ch m where
    "ch \<in> set (channels st)" "has_api_key st (rc_channel_id ch)" and "routed st ch m ctx'"
    unfolding find_candidates_iff usable_def by auto
  with attached_key_nonempty [OF assms(1)] show ?thesis by (auto simp: routed_def)
qed

theorem router_attaches_key_witness:
  "\<exists>req' ctx' cc. snd (router_on_request sample_env sample_state sample_req sample_ctx) = Inr (req', ctx') \<and>
     selected_channel ctx' = Some cc \<and> cc_api_key cc \<noteq> []"
proof -
  obtain req' ctx' where r: "snd (router_on_request sample_env sample_state sample_req sample_ctx) = Inr (req', ctx')"
    using sample_routes [of sample_req] by fastforce
  have "distinct (map rc_channel_id (channels sample_state))" by (simp add: sample_defs)
  from router_attaches_key [OF this r] r show ?thesis by blast
qed

text \<open>
  C7. Failover. From an upstream answer of 5xx or 401 on, for 900 s, and from an answer of 429 on,
  for 30 s, no accepted request is routed to the channel whose identifier is the recorded key,
  whatever else the router does in the meantime: requests, responses and probes of other channels,
  reloads of the channel table and changes of the keys. The cooldown is neither shorter nor longer
  than that. It is this answer's cooldown: the next response or probe of the same channel starts
  over, so a success that was under way ends it and a 429 after a 5xx leaves 30 s of it.
\<close>

theorem failed_channel_not_selected:
  assumes "channel_key ctx \<noteq> []"
    and "(is_server_error (res_status res) \<or> res_status res = 401) \<and> d = secs 900 \<or>
      res_status res = 429 \<and> d = secs 30"
    and "quiet_run S P (channel_key ctx) (fst (router_on_response E st res ctx)) st'"
  shows "(is_healthy st' now (channel_key ctx) \<longleftrightarrow> d \<le> now - env_now E) \<and>
    (env_now E' < env_now E + d \<and> snd (router_on_request E' st' req ctx0) = Inr (req', ctx') \<longrightarrow>
      (\<exists>info. selected_mapping ctx' = Some info \<and> smi_channel_id info \<noteq> channel_key ctx))"
proof -
  have d: "cooldown_of (res_status res) = Some d" "0 < d"
    using assms(2) by (auto simp: cooldown_of_def is_server_error_def secs_def)
  have h: "is_healthy st' now (channel_key ctx) \<longleftrightarrow> d \<le> now - env_now E" for now
    by (simp add: is_healthy_def quiet_run_health [OF assms(3)] router_on_response_health assms(1)
        update_health_cooldown [OF d(1)])
  have "\<exists>info. selected_mapping ctx' = Some info \<and> smi_channel_id info \<noteq> channel_key ctx"
    if early: "env_now E' < env_now E + d"
      and acc: "snd (router_on_request E' st' req ctx0) = Inr (req', ctx')"
  proof -
    obtain st'' where "router_on_request E' st' req ctx0 = (st'', Inr (req', ctx'))"
      using acc by (metis prod.collapse)
    from router_on_request_routes [OF this] obtain ch m where
      "is_healthy st' (env_now E') (rc_channel_id ch)" and "routed st' ch m ctx'"
      by (auto simp: usable_def)
    moreover have "\<not> d \<le> env_now E' - env_now E" using early d(2) by linarith
    ultimately show ?thesis using h [of "env_now E'"] by (auto simp: routed_def)
  qed
  with h show ?thesis by blast
qed

theorem failed_channel_not_selected_witness:
  "\<exists>req' ctx' info. snd (router_on_request sample_env sample_failed sample_req sample_ctx) = Inr (req', ctx') \<and>
     selected_mapping ctx' = Some info \<and> smi_channel_id info \<noteq> ''f''"
proof -
  let ?ctx = "ctx_insert EXT_SELECTED_CHANNEL (ExtChannel
     \<lparr>cc_url = ''u'', cc_api_key = ''k'', cc_protocol = OpenaiChat, cc_name = ''f'', cc_rewrite_path = None\<rparr>)
     sample_ctx"
  have key: "channel_key ?ctx = ''f''" by (simp add: channel_key_def ctx_simps)
  obtain req' ctx' where r: "snd (router_on_request sample_env sample_failed sample_req sample_ctx)
      = Inr (req', ctx')" using sample_fails_over by blast
  from failed_channel_not_selected [of ?ctx
      "\<lparr>res_status = 503, res_headers = [], res_body = [], res_is_streaming = False\<rparr>" "secs 900",
      OF _ _ quiet_start, of sample_env sample_state 0 sample_env sample_req sample_ctx req' ctx'] r
  show ?thesis by (auto simp: key is_server_error_def secs_def)
qed


text \<open>
  C39. The response hook files a response under the channel's display name, and selection looks a
  channel up by its identifier. When the name is not the identifier of any channel, a response of
  any status (5xx included) to a metered mapping leaves every later answer of the router, to any
  request at any time, as if the response had not come: there is no failover.
\<close>

theorem response_invisible_when_name_is_not_id:
  assumes "\<forall>ch\<in>set (channels st). rc_channel_id ch \<noteq> channel_key ctx"
    and "\<forall>info. selected_mapping ctx = Some info \<longrightarrow> \<not> smi_is_flat_fee info"
  shows "snd (router_on_request E' (fst (router_on_response E st res ctx)) req ctx')
    = snd (router_on_request E' st req ctx')"
  by (rule router_on_request_cong) (simp_all add: router_on_response_view [OF assms])

theorem response_invisible_when_name_is_not_id_witness:
  "snd (router_on_request sample_env (fst (router_on_response sample_env sample_state
       \<lparr>res_status = 503, res_headers = [], res_body = [], res_is_streaming = False\<rparr>
       (ctx_insert EXT_SELECTED_CHANNEL (ExtChannel \<lparr>cc_url = ''u'', cc_api_key = ''k'',
          cc_protocol = OpenaiChat, cc_name = ''F Official'', cc_rewrite_path = None\<rparr>) sample_ctx)))
       sample_req sample_ctx)
   = snd (router_on_request sample_env sample_state sample_req sample_ctx)"
  by (rule response_invisible_when_name_is_not_id)
    (simp_all add: sample_defs channel_key_def ctx_simps)

text \<open>
  C15. Quota accounting: from a flat-fee mapping without usage, within one month, a limit of \<open>per_month\<close>
  requests is exhausted by exactly that many responses of a channel whose name is not empty, whatever
  their status.
\<close>

theorem quota_exhausted_after_limit:
  assumes "selected_mapping ctx = Some info" and "smi_is_flat_fee info" and "channel_key ctx \<noteq> []"
    and "quota_usage_map st (smi_mapping_id info) = None" and "length rs < 2 ^ 64"
  shows "is_within_quota (quota_entry (env_month E) (quota_usage_map (respond_all E ctx rs st))
      (smi_mapping_id info)) (Some (MaxRequests per_month)) \<longleftrightarrow> length rs < unat per_month"
proof -
  have "quota_entry (env_month E) (quota_usage_map st) (smi_mapping_id info) = quota_usage_new (env_month E)"
    by (simp add: quota_entry_def assms(4))
  then have "requests_this_month (quota_entry (env_month E)
      (quota_usage_map (respond_all E ctx rs st)) (smi_mapping_id info)) = of_nat (length rs)"
    using respond_all_count [OF assms(1-3), of E st rs] by (simp add: quota_usage_new_def)
  moreover have "unat (of_nat (length rs) :: u64) = length rs"
    using assms(5) by (simp add: unat_of_nat)
  ultimately show ?thesis by (simp add: word_less_nat_alt)
qed

theorem quota_exhausted_after_limit_witness:
  "\<exists>ctx info. selected_mapping ctx = Some info \<and>
     \<not> is_within_quota (quota_entry 24313 (quota_usage_map (respond_all sample_env ctx
          [\<lparr>res_status = 200, res_headers = [], res_body = [], res_is_streaming = False\<rparr>] sample_state))
        (smi_mapping_id info)) (Some (MaxRequests 1))"
proof -
  let ?info = "\<lparr>smi_channel_id = ''f'', smi_mapping_id = ''mf'', smi_client_name = ''m'',
    smi_upstream_name = ''up'', smi_is_flat_fee = True, smi_pricing = None, smi_pricing_snapshot_json = []\<rparr>"
  let ?ctx = "ctx_insert EXT_SELECTED_MAPPING (ExtMapping ?info) (ctx_insert EXT_SELECTED_CHANNEL (ExtChannel
     \<lparr>cc_url = ''u'', cc_api_key = ''k'', cc_protocol = OpenaiChat, cc_name = ''f'', cc_rewrite_path = None\<rparr>)
     sample_ctx)"
  have i: "selected_mapping ?ctx = Some ?info" by (simp add: ctx_simps)
  have "\<not> is_within_quota (quota_entry (env_month sample_env) (quota_usage_map (respond_all sample_env ?ctx
        [\<lparr>res_status = 200, res_headers = [], res_body = [], res_is_streaming = False\<rparr>] sample_state))
      (smi_mapping_id ?info)) (Some (MaxRequests 1))"
    by (subst quota_exhausted_after_limit [OF i])
      (simp_all add: channel_key_def ctx_simps sample_state_def)
  moreover have "env_month sample_env = 24313" by (simp add: sample_env_def)
  ultimately show ?thesis using i by metis
qed

text \<open>
  A quota counter is reset only when a response is recorded, never by the selection: once the
  only candidate is an exhausted mapping that blocks, no request is accepted in any later month, and
  the counter stays as it is.
\<close>

theorem exhausted_block_never_resets:
  assumes "rm_billing m = FlatFee h (Some q) Block"
    and "quota_usage_map st (rm_mapping_id m) = Some u" and "\<not> is_within_quota u (Some q)"
  shows "select_channel E [(ch, m)] n st = (st, Inl (ChannelSelection n)) \<or>
    \<not> usable E st (ch, m) \<and> snd (select_channel E [(ch, m)] n st) = Inl (ChannelSelection n)"
proof (cases "usable E st (ch, m)")
  case True
  have "st\<lparr>quota_usage_map := (quota_usage_map st)(rm_mapping_id m \<mapsto> u)\<rparr> = st"
    using assms(2) by (simp add: fun_upd_idem)
  with True assms show ?thesis by (simp add: select_channel_def usable_def quota_entry_def)
next
  case False
  have "snd (select_channel E [(ch, m)] n st) \<noteq> Inr c" for c
    using select_channel_usable [of E "[(ch, m)]" n st c] False by auto
  moreover have "\<exists>st'. select_channel E [(ch, m)] n st = (st', Inl (ChannelSelection n))"
    using False assms(1)
    by (auto simp: select_channel_def usable_def try_metered_def try_past_cooldown_def is_healthy_def
        router_is_tryable_past_cooldown_def)
  ultimately show ?thesis using False by auto
qed

theorem exhausted_block_never_resets_witness:
  "\<exists>m u. snd (select_channel (sample_env\<lparr>env_month := 99999\<rparr>) [(fst sample_flat, m)] ''m''
     (sample_state\<lparr>quota_usage_map := [''mf'' \<mapsto> u]\<rparr>)) = Inl (ChannelSelection ''m'') \<and> month_key u = 24313"
proof -
  let ?m = "(snd sample_flat)\<lparr>rm_billing := FlatFee None (Some (MaxRequests 1)) Block\<rparr>"
  let ?u = "\<lparr>requests_this_month = 1, tokens_this_month = 0, month_key = 24313\<rparr>"
  let ?st = "sample_state\<lparr>quota_usage_map := [''mf'' \<mapsto> ?u]\<rparr>"
  have "snd (select_channel (sample_env\<lparr>env_month := 99999\<rparr>) [(fst sample_flat, ?m)] ''m'' ?st)
      = Inl (ChannelSelection ''m'')"
    using exhausted_block_never_resets [of ?m None "MaxRequests 1" ?st ?u "sample_env\<lparr>env_month := 99999\<rparr>"
        "fst sample_flat" "''m''"]
    by (auto simp: sample_flat_def Let_def)
  then show ?thesis by (intro exI [of _ ?m] exI [of _ ?u]) simp
qed

end
