(* ===== verification/Bridge.thy ===== *)
theory Bridge
  imports Middleware
begin

text \<open>
  \<open>crates/bridge/src/lib.rs\<close>: the protocol bridge. The transforms of the package \<open>llm_bridge_core\<close> and
  the header constructors of the package \<open>http\<close> are not part of the repository; they are the fields
  of \<open>llm_bridge\<close> and \<open>http_lib\<close>, and every definition that calls them takes them as an argument.
\<close>

section \<open>What the bridge calls\<close>

record transform_request =
  treq_headers :: "string hashmap"
  treq_path :: string
  treq_body :: bytes

text \<open>The headers of a transform's result in the iteration order of its \<open>HashMap\<close>.\<close>

record transform_response =
  tres_headers :: "(string \<times> string) list"
  tres_path :: string
  tres_body :: bytes

text \<open>A \<open>TransformError\<close> with its two texts.\<close>

record transform_error =
  sanitized_message :: string
  error_display :: string

type_synonym transform = "transform_request \<Rightarrow> transform_error + transform_response"

record 'st llm_bridge =
  anthropic_to_openai :: transform
  anthropic_to_openai_responses :: transform
  openai_to_anthropic :: transform
  responses_to_anthropic :: transform
  responses_to_openai :: transform
  openai_response_to_anthropic_message :: transform
  anthropic_response_to_openai_response :: transform
  anthropic_response_to_responses_response :: transform
  transform_stream_to_anthropic_sse :: "bytes \<Rightarrow> api_format \<Rightarrow> 'st \<Rightarrow> 'st \<times> (string + bytes)"
  transform_stream_to_openai_sse :: "bytes \<Rightarrow> api_format \<Rightarrow> 'st \<Rightarrow> 'st \<times> (string + bytes)"
  transform_stream_to_openai_responses_sse :: "bytes \<Rightarrow> api_format \<Rightarrow> 'st \<Rightarrow> 'st \<times> (string + bytes)"
  stream_state_default :: 'st
  validate_json_depth :: "json \<Rightarrow> string + unit"

record http_lib =
  header_name_from_bytes :: "string \<Rightarrow> string + string"
  header_value_from_str :: "string \<Rightarrow> string + bytes"

text \<open>\<open>Result::map_err\<close>\<close>

definition map_err :: "('e \<Rightarrow> 'f) \<Rightarrow> 'e + 'a \<Rightarrow> 'f + 'a" where
  "map_err f r = (case r of Inl e \<Rightarrow> Inl (f e) | Inr x \<Rightarrow> Inr x)"

section \<open>Directions\<close>

datatype conversion_direction =
    AnthropicToOpenai
  | AnthropicToResponses
  | OpenaiToAnthropic
  | ResponsesToAnthropic
  | ResponsesToOpenai
  | Passthrough

definition direction_resolve :: "api_format \<Rightarrow> api_format \<Rightarrow> conversion_direction" where
  "direction_resolve client upstream =
     (if client = upstream then Passthrough
      else (case (client, upstream) of
              (AnthropicMessages, OpenaiChat) \<Rightarrow> AnthropicToOpenai
            | (AnthropicMessages, OpenaiResponses) \<Rightarrow> AnthropicToResponses
            | (OpenaiChat, AnthropicMessages) \<Rightarrow> OpenaiToAnthropic
            | (OpenaiResponses, AnthropicMessages) \<Rightarrow> ResponsesToAnthropic
            | (OpenaiResponses, OpenaiChat) \<Rightarrow> ResponsesToOpenai
            | (OpenaiChat, OpenaiResponses) \<Rightarrow> ResponsesToOpenai
            | _ \<Rightarrow> Passthrough))"

section \<open>Requests\<close>

definition validate_input :: "json_lib \<Rightarrow> 'st llm_bridge \<Rightarrow> proxy_request \<Rightarrow> proxy_error + unit" where
  "validate_input J B req =
     (case from_slice J (req_body req) of
        Inl e \<Rightarrow> Inl (BadRequest (''invalid JSON: '' @ e))
      | Inr v \<Rightarrow> (case validate_json_depth B v of Inl e \<Rightarrow> Inl (BadRequest e) | Inr _ \<Rightarrow> Inr ()))"

definition proxy_request_to_transform_request :: "proxy_request \<Rightarrow> transform_request" where
  "proxy_request_to_transform_request req =
     \<lparr>treq_headers =
        fold (\<lambda>(k, v) m. m(to_lowercase k \<mapsto> unwrap_or [] (to_str v))) (req_headers req) Map.empty,
      treq_path = req_path req, treq_body = req_body req\<rparr>"

fun build_headers ::
  "http_lib \<Rightarrow> (string \<times> string) list \<Rightarrow> header_map \<Rightarrow> proxy_error + header_map" where
  "build_headers H [] h = Inr h"
| "build_headers H ((k, v) # kvs) h =
     (case header_name_from_bytes H k of
        Inl e \<Rightarrow> Inl (Internal e)
      | Inr name \<Rightarrow>
          (case header_value_from_str H v of
             Inl e \<Rightarrow> Inl (Internal e)
           | Inr val \<Rightarrow> build_headers H kvs (header_insert name val h)))"

definition apply_transform_response_to_request ::
  "http_lib \<Rightarrow> transform_response \<Rightarrow> proxy_request \<Rightarrow> proxy_error + proxy_request" where
  "apply_transform_response_to_request H resp req =
     res_bind (build_headers H (tres_headers resp) []) (\<lambda>h.
       Inr (req\<lparr>req_path := tres_path resp, req_body := tres_body resp, req_headers := h\<rparr>))"

text \<open>The last arm of both conversions is \<open>unreachable!\<close>, a panic; the hooks never take it.\<close>

fun convert_request ::
  "'st llm_bridge \<Rightarrow> transform_request \<Rightarrow> conversion_direction \<Rightarrow>
    failure + transform_response" where
  "convert_request B r AnthropicToOpenai =
     map_err (\<lambda>e. Err (BadRequest (sanitized_message e))) (anthropic_to_openai B r)"
| "convert_request B r AnthropicToResponses =
     map_err (\<lambda>e. Err (BadRequest (sanitized_message e))) (anthropic_to_openai_responses B r)"
| "convert_request B r OpenaiToAnthropic =
     map_err (\<lambda>e. Err (BadRequest (sanitized_message e))) (openai_to_anthropic B r)"
| "convert_request B r ResponsesToAnthropic =
     map_err (\<lambda>e. Err (BadRequest (sanitized_message e))) (responses_to_anthropic B r)"
| "convert_request B r ResponsesToOpenai =
     map_err (\<lambda>e. Err (BadRequest (sanitized_message e))) (responses_to_openai B r)"
| "convert_request B r Passthrough = Inl Panic"

fun convert_response ::
  "'st llm_bridge \<Rightarrow> transform_request \<Rightarrow> conversion_direction \<Rightarrow>
    failure + transform_response" where
  "convert_response B r OpenaiToAnthropic =
     map_err (\<lambda>e. Err (Internal (error_display e))) (openai_response_to_anthropic_message B r)"
| "convert_response B r AnthropicToOpenai =
     map_err (\<lambda>e. Err (Internal (error_display e))) (anthropic_response_to_openai_response B r)"
| "convert_response B r AnthropicToResponses =
     map_err (\<lambda>e. Err (Internal (error_display e))) (anthropic_response_to_responses_response B r)"
| "convert_response B r ResponsesToAnthropic =
     map_err (\<lambda>e. Err (Internal (error_display e))) (openai_response_to_anthropic_message B r)"
| "convert_response B r ResponsesToOpenai =
     map_err (\<lambda>e. Err (Internal (error_display e)))
       (case openai_response_to_anthropic_message B r of
          Inl e \<Rightarrow> Inl e
        | Inr i \<Rightarrow>
            anthropic_response_to_responses_response B
              \<lparr>treq_headers = map_of (tres_headers i), treq_path = tres_path i, treq_body = tres_body i\<rparr>)"
| "convert_response B r Passthrough = Inl Panic"

definition bridge_on_request ::
  "json_lib \<Rightarrow> http_lib \<Rightarrow> 'st llm_bridge \<Rightarrow> proxy_request \<Rightarrow> connection_context \<Rightarrow>
    failure + proxy_request \<times> connection_context" where
  "bridge_on_request J H B req ctx =
     res_bind (map_err Err (validate_input J B req)) (\<lambda>_.
     res_bind (ok_or (Err (BadRequest ''client protocol not detected'')) (detected_format ctx)) (\<lambda>client.
     res_bind (ok_or (Err (BadRequest ''upstream protocol not set by model-router'')) (target_protocol ctx))
       (\<lambda>upstream.
       let direction = direction_resolve client upstream in
       if direction = Passthrough then Inr (req, ctx)
       else
         let bridge_req = proxy_request_to_transform_request req in
         res_bind (convert_request B bridge_req direction) (\<lambda>bridge_resp.
         res_bind (map_err Err (apply_transform_response_to_request H bridge_resp req)) (\<lambda>req'.
           Inr (req', ctx_insert EXT_BRIDGE_REVERSE (ExtBool True) ctx))))))"

section \<open>Responses\<close>

definition is_upstream_error_body :: "json_lib \<Rightarrow> bytes \<Rightarrow> bool" where
  "is_upstream_error_body J body =
     (case from_slice J body of Inl _ \<Rightarrow> False | Inr v \<Rightarrow> jget ''error'' v \<noteq> None)"

text \<open>\<open>None\<close> for a client format that has no transform.\<close>

fun stream_transform ::
  "'st llm_bridge \<Rightarrow> api_format \<Rightarrow> (bytes \<Rightarrow> api_format \<Rightarrow> 'st \<Rightarrow> 'st \<times> (string + bytes)) option" where
  "stream_transform B AnthropicMessages = Some (transform_stream_to_anthropic_sse B)"
| "stream_transform B OpenaiChat = Some (transform_stream_to_openai_sse B)"
| "stream_transform B OpenaiResponses = Some (transform_stream_to_openai_responses_sse B)"
| "stream_transform B (OtherFormat _) = None"

definition on_response_streaming ::
  "'st llm_bridge \<Rightarrow> proxy_response \<Rightarrow> api_format \<Rightarrow> api_format \<Rightarrow> proxy_error + proxy_response" where
  "on_response_streaming B res upstream_format client_format =
     (case stream_transform B client_format of
        None \<Rightarrow> Inr res
      | Some tr \<Rightarrow>
          (case snd (tr (res_body res) upstream_format (stream_state_default B)) of
             Inl e \<Rightarrow> Inl (Internal e)
           | Inr output \<Rightarrow> Inr (res\<lparr>res_body := output\<rparr>)))"

definition bridge_on_response ::
  "json_lib \<Rightarrow> 'st llm_bridge \<Rightarrow> proxy_response \<Rightarrow> connection_context \<Rightarrow> failure + proxy_response" where
  "bridge_on_response J B res ctx =
     (if \<not> unwrap_or False (ctx_get dc_bool EXT_BRIDGE_REVERSE ctx) then Inr res
      else
        res_bind (ok_or (Err (Internal ''client protocol missing in response phase'')) (detected_format ctx))
          (\<lambda>client.
        res_bind (ok_or (Err (Internal ''upstream protocol missing in response phase'')) (target_protocol ctx))
          (\<lambda>upstream.
          let reverse_direction = direction_resolve upstream client in
          if reverse_direction = Passthrough then Inr res
          else if is_upstream_error_body J (res_body res) then Inr res
          else if res_is_streaming res then map_err Err (on_response_streaming B res upstream client)
          else
            let bridge_req = \<lparr>treq_headers = Map.empty, treq_path = [], treq_body = res_body res\<rparr> in
            res_bind (convert_response B bridge_req reverse_direction) (\<lambda>bridge_resp.
              Inr (res\<lparr>res_body := tres_body bridge_resp\<rparr>)))))"

definition bridge_middleware :: "json_lib \<Rightarrow> http_lib \<Rightarrow> 'st llm_bridge \<Rightarrow> (unit, failure) middleware" where
  "bridge_middleware J H B =
     \<lparr>mw_name = ''bridge'',
      on_request = (\<lambda>u req ctx. (u, bridge_on_request J H B req ctx)),
      on_response = (\<lambda>u res ctx. (u, bridge_on_response J B res ctx))\<rparr>"

section \<open>Streams\<close>

text \<open>
  \<open>bridge_stream\<close> on the sequence of chunks the upstream delivers (\<open>Inl\<close> a transport error): the
  items sent to the client. A client that disconnects receives a prefix of them.
\<close>

fun bridge_stream_from ::
  "'st llm_bridge \<Rightarrow> api_format \<Rightarrow> api_format \<Rightarrow> 'st \<Rightarrow> (string + bytes) list \<Rightarrow> (proxy_error + bytes) list"
where
  "bridge_stream_from B src tgt st [] = []"
| "bridge_stream_from B src tgt st (Inl e # cs) = [Inl (Internal e)]"
| "bridge_stream_from B src tgt st (Inr chunk # cs) =
     (if chunk = [] then bridge_stream_from B src tgt st cs
      else
        let (st', output) = (case stream_transform B tgt of
                               Some tr \<Rightarrow> tr chunk src st | None \<Rightarrow> (st, Inr chunk))
        in case output of
             Inl e \<Rightarrow> [Inl (Internal e)]
           | Inr out \<Rightarrow>
               if out \<noteq> [] then Inr out # bridge_stream_from B src tgt st' cs
               else bridge_stream_from B src tgt st' cs)"

definition bridge_stream ::
  "'st llm_bridge \<Rightarrow> (string + bytes) list \<Rightarrow> api_format \<Rightarrow> api_format \<Rightarrow> (proxy_error + bytes) list" where
  "bridge_stream B upstream source_format target_format =
     bridge_stream_from B source_format target_format (stream_state_default B) upstream"

section \<open>Lemmas\<close>

lemma direction_passthrough_sym:
  "direction_resolve a b = Passthrough \<longleftrightarrow> direction_resolve b a = Passthrough"
  by (cases a; cases b) (auto simp: direction_resolve_def)

lemma direction_refl [simp]: "direction_resolve a a = Passthrough"
  by (simp add: direction_resolve_def)

lemma map_err_simps [simp]:
  "map_err f (Inl e) = Inl (f e)"
  "map_err f (Inr x) = Inr x"
  by (simp_all add: map_err_def)

lemma map_err_Inr_iff [simp]: "map_err f r = Inr x \<longleftrightarrow> r = Inr x"
  by (cases r) auto

lemma map_err_not_Panic [simp]: "map_err (\<lambda>e. Err (f e)) r \<noteq> Inl Panic"
  by (cases r) auto

lemma map_err_Err_not_Panic [simp]: "map_err Err r \<noteq> Inl Panic"
  by (cases r) auto

lemma convert_request_total: "d \<noteq> Passthrough \<Longrightarrow> convert_request B r d \<noteq> Inl Panic"
  by (cases d) auto

lemma convert_response_total: "d \<noteq> Passthrough \<Longrightarrow> convert_response B r d \<noteq> Inl Panic"
  by (cases d) auto

lemma ok_or_not_Panic [simp]: "ok_or (Err e) x \<noteq> Inl Panic"
  by (cases x) auto

lemma res_bind_not_Panic:
  "r \<noteq> Inl Panic \<Longrightarrow> (\<And>x. f x \<noteq> Inl Panic) \<Longrightarrow> res_bind r f \<noteq> Inl Panic"
  by (cases r) auto

lemma bridge_on_request_never_panics: "bridge_on_request J H B req ctx \<noteq> Inl Panic"
  unfolding bridge_on_request_def Let_def
  by (intro res_bind_not_Panic) (simp_all add: res_bind_not_Panic convert_request_total)

lemma bridge_on_response_never_panics: "bridge_on_response J B res ctx \<noteq> Inl Panic"
  unfolding bridge_on_response_def Let_def
  by (simp add: res_bind_not_Panic convert_response_total)

lemmas bridge_never_panics = bridge_on_request_never_panics bridge_on_response_never_panics

lemma bridge_on_request_Inr:
  assumes "bridge_on_request J H B req ctx = Inr (req', ctx')"
  shows "\<exists>c u. detected_format ctx = Some c \<and> target_protocol ctx = Some u \<and>
    (if direction_resolve c u = Passthrough then req' = req \<and> ctx' = ctx
     else ctx' = ctx_insert EXT_BRIDGE_REVERSE (ExtBool True) ctx)"
  using assms
  by (auto simp: bridge_on_request_def res_bind_Inr_iff Let_def split: if_splits)

lemma bridge_on_request_frame:
  "bridge_on_request J H B req ctx = Inr (req', ctx') \<Longrightarrow>
     same_request ctx ctx' \<and> selected_channel ctx' = selected_channel ctx \<and>
     selected_mapping ctx' = selected_mapping ctx \<and> target_protocol ctx' = target_protocol ctx"
  by (auto dest!: bridge_on_request_Inr simp: ctx_simps split: if_splits)

lemma bridge_on_response_frame:
  "bridge_on_response J B res ctx = Inr res' \<Longrightarrow>
     res_status res' = res_status res \<and> res_headers res' = res_headers res \<and>
     res_is_streaming res' = res_is_streaming res"
  by (auto simp: bridge_on_response_def on_response_streaming_def res_bind_Inr_iff Let_def
      split: if_splits option.splits sum.splits)

text \<open>
  The conversions, one row for each pair of a client's and an upstream's protocol that has one: the
  transforms of the request, of a plain response and of an event stream. A chat response becomes a
  Responses response by way of an Anthropic message.
\<close>

definition chat_response_to_responses :: "'st llm_bridge \<Rightarrow> transform" where
  "chat_response_to_responses B r =
     res_bind (openai_response_to_anthropic_message B r) (\<lambda>i.
       anthropic_response_to_responses_response B
         \<lparr>treq_headers = map_of (tres_headers i), treq_path = tres_path i, treq_body = tres_body i\<rparr>)"

definition conversion_table ::
  "'st llm_bridge \<Rightarrow>
    (api_format \<times> api_format \<times> transform \<times> transform \<times> (bytes \<Rightarrow> api_format \<Rightarrow> 'st \<Rightarrow> 'st \<times> (string + bytes))) list"
where
  "conversion_table B =
     [(AnthropicMessages, OpenaiChat, anthropic_to_openai B, openai_response_to_anthropic_message B,
         transform_stream_to_anthropic_sse B),
      (AnthropicMessages, OpenaiResponses, anthropic_to_openai_responses B, openai_response_to_anthropic_message B,
         transform_stream_to_anthropic_sse B),
      (OpenaiChat, AnthropicMessages, openai_to_anthropic B, anthropic_response_to_openai_response B,
         transform_stream_to_openai_sse B),
      (OpenaiResponses, AnthropicMessages, responses_to_anthropic B, anthropic_response_to_responses_response B,
         transform_stream_to_openai_responses_sse B),
      (OpenaiResponses, OpenaiChat, responses_to_openai B, chat_response_to_responses B,
         transform_stream_to_openai_responses_sse B),
      (OpenaiChat, OpenaiResponses, responses_to_openai B, chat_response_to_responses B,
         transform_stream_to_openai_sse B)]"

lemma conversion_row:
  assumes "(c, u, f, g, s) \<in> set (conversion_table B)"
  shows "direction_resolve c u \<noteq> Passthrough" "direction_resolve u c \<noteq> Passthrough"
    and "convert_request B r (direction_resolve c u) = map_err (\<lambda>e. Err (BadRequest (sanitized_message e))) (f r)"
    and "convert_response B r (direction_resolve u c) = map_err (\<lambda>e. Err (Internal (error_display e))) (g r)"
    and "stream_transform B c = Some s"
  using assms
  by (auto simp: conversion_table_def direction_resolve_def chat_response_to_responses_def res_bind_def
      cong: if_cong)

lemma conversion_none:
  assumes "\<forall>f g s. (c, u, f, g, s) \<notin> set (conversion_table B)"
  shows "direction_resolve c u = Passthrough" "direction_resolve u c = Passthrough"
  using assms by (cases c; cases u; auto simp: conversion_table_def direction_resolve_def)+

lemma bridge_request_row:
  assumes "bridge_on_request J H B req ctx = Inr (req', ctx')"
    and "detected_format ctx = Some c" "target_protocol ctx = Some u" "(c, u, f, g, s) \<in> set (conversion_table B)"
  shows "\<exists>t. f (proxy_request_to_transform_request req) = Inr t \<and> req_method req' = req_method req \<and>
    req_path req' = tres_path t \<and> req_body req' = tres_body t \<and> build_headers H (tres_headers t) [] = Inr (req_headers req')"
    and "ctx' = ctx_insert EXT_BRIDGE_REVERSE (ExtBool True) ctx"
  using assms(1-3) conversion_row [OF assms(4)]
  by (auto simp: bridge_on_request_def res_bind_Inr_iff map_err_def apply_transform_response_to_request_def Let_def
      split: sum.splits)

lemma bridge_stream_from_shape:
  "\<exists>outs tail. bridge_stream_from B src tgt st cs = map Inr outs @ tail \<and> [] \<notin> set outs \<and>
     (tail = [] \<or> (\<exists>e. tail = [Inl (Internal e)]))"
proof (induction B src tgt st cs rule: bridge_stream_from.induct)
  case (1 B src tgt st)
  then show ?case by simp
next
  case (2 B src tgt st e cs)
  have "bridge_stream_from B src tgt st (Inl e # cs) = map Inr [] @ [Inl (Internal e)]" by simp
  then show ?case by (metis empty_iff empty_set)
next
  case (3 B src tgt st chunk cs)
  obtain st' r where o: "(case stream_transform B tgt of Some tr \<Rightarrow> tr chunk src st
      | None \<Rightarrow> (st, Inr chunk)) = (st', r)" by fastforce
  show ?case
  proof (cases "chunk = []")
    case True
    with 3 show ?thesis by simp
  next
    case ne: False
    show ?thesis
    proof (cases r)
      case (Inl e)
      with ne o show ?thesis by (intro exI [of _ "[]"] exI [of _ "[Inl (Internal e)]"]) simp
    next
      case (Inr out)
      obtain outs tail where IH: "bridge_stream_from B src tgt st' cs = map Inr outs @ tail" "[] \<notin> set outs"
        "tail = [] \<or> (\<exists>e. tail = [Inl (Internal e)])"
        using "3.IH"(2) [OF ne o [symmetric] refl Inr] "3.IH"(3) [OF ne o [symmetric] refl Inr]
        by (cases "out = []") auto
      show ?thesis
      proof (cases "out = []")
        case True
        with ne o Inr IH show ?thesis by (intro exI [of _ outs] exI [of _ tail]) simp
      next
        case False
        with ne o Inr IH show ?thesis by (intro exI [of _ "out # outs"] exI [of _ tail]) simp
      qed
    qed
  qed
qed

section \<open>A sample bridge\<close>

definition sample_transform :: transform where
  "sample_transform r = Inr \<lparr>tres_headers = [], tres_path = ''/v1/x'', tres_body = ''t'' @ treq_body r\<rparr>"

definition sample_bridge :: "unit llm_bridge" where
  "sample_bridge =
     \<lparr>anthropic_to_openai = sample_transform, anthropic_to_openai_responses = sample_transform,
      openai_to_anthropic = sample_transform, responses_to_anthropic = sample_transform,
      responses_to_openai = sample_transform, openai_response_to_anthropic_message = sample_transform,
      anthropic_response_to_openai_response = sample_transform,
      anthropic_response_to_responses_response = sample_transform,
      transform_stream_to_anthropic_sse = (\<lambda>b f st. (st, Inr b)),
      transform_stream_to_openai_sse = (\<lambda>b f st. (st, Inr b)),
      transform_stream_to_openai_responses_sse = (\<lambda>b f st. (st, Inr b)),
      stream_state_default = (), validate_json_depth = (\<lambda>_. Inr ())\<rparr>"

definition sample_bridge_json :: json_lib where
  "sample_bridge_json = \<lparr>from_slice = (\<lambda>_. Inr JNull), to_vec = (\<lambda>_. Inr [])\<rparr>"

definition sample_http :: http_lib where
  "sample_http = \<lparr>header_name_from_bytes = Inr, header_value_from_str = Inr\<rparr>"

definition sample_bridge_ctx :: "api_format \<Rightarrow> api_format \<Rightarrow> connection_context" where
  "sample_bridge_ctx c u =
     (connection_context_new 0 1 Claude None (Some c))\<lparr>target_protocol := Some u\<rparr>"

definition sample_bridge_req :: proxy_request where
  "sample_bridge_req = \<lparr>req_method = ''POST'', req_path = ''/v1/messages'', req_headers = [], req_body = ''b''\<rparr>"

lemmas sample_bridge_defs = sample_transform_def sample_bridge_def sample_bridge_json_def
  sample_http_def sample_bridge_ctx_def sample_bridge_req_def connection_context_new_def

section \<open>Properties\<close>

text \<open>
  Same protocol on both sides: a request with a valid body passes the bridge unchanged, and so
  does every response to it, whatever the transforms do.
\<close>

theorem bridge_transparent_same_protocol:
  assumes "detected_format ctx = Some f" and "target_protocol ctx = Some f"
    and "ctx_get dc_bool EXT_BRIDGE_REVERSE ctx = None" and "validate_input J B req = Inr ()"
  shows "bridge_on_request J H B req ctx = Inr (req, ctx) \<and> bridge_on_response J B res ctx = Inr res"
  using assms by (simp add: bridge_on_request_def bridge_on_response_def)

theorem bridge_transparent_same_protocol_witness:
  "bridge_on_request sample_bridge_json sample_http sample_bridge sample_bridge_req
     (sample_bridge_ctx OpenaiChat OpenaiChat) = Inr (sample_bridge_req, sample_bridge_ctx OpenaiChat OpenaiChat)"
  using bridge_transparent_same_protocol [of "sample_bridge_ctx OpenaiChat OpenaiChat" OpenaiChat
      sample_bridge_json sample_bridge sample_bridge_req]
  by (simp add: validate_input_def sample_bridge_defs ctx_get_def)

text \<open>
  C31. Which conversions happen, for both hooks of one call. If the client's and the upstream's
  protocols are a row of the table, the request that leaves is the result of the row's request
  transform on the client's request, and the response to it comes back through the row's response
  transform, or for an event stream through its stream transform, unless the upstream sent an error
  body, which passes; status and headers of the response are never changed. For every other pair
  neither hook changes anything. The table's last row is the one pair whose transforms are not its
  own: a chat client in front of a Responses upstream gets those of the opposite pair.
\<close>

theorem bridge_converts_by_table:
  assumes "bridge_on_request J H B req ctx = Inr (req', ctx')"
    and "detected_format ctx = Some c" and "target_protocol ctx = Some u"
  shows "(\<forall>f g s. (c, u, f, g, s) \<in> set (conversion_table B) \<longrightarrow>
      (\<exists>t. f (proxy_request_to_transform_request req) = Inr t \<and> req_method req' = req_method req \<and>
         req_path req' = tres_path t \<and> req_body req' = tres_body t \<and>
         build_headers H (tres_headers t) [] = Inr (req_headers req')) \<and>
      bridge_on_response J B res ctx' =
        (if \<exists>v. from_slice J (res_body res) = Inr v \<and> jget ''error'' v \<noteq> None then Inr res
         else if res_is_streaming res
         then (case snd (s (res_body res) u (stream_state_default B)) of
                 Inl e \<Rightarrow> Inl (Err (Internal e)) | Inr b \<Rightarrow> Inr (res\<lparr>res_body := b\<rparr>))
         else (case g \<lparr>treq_headers = Map.empty, treq_path = [], treq_body = res_body res\<rparr> of
                 Inl e \<Rightarrow> Inl (Err (Internal (error_display e)))
               | Inr t \<Rightarrow> Inr (res\<lparr>res_body := tres_body t\<rparr>)))) \<and>
    ((\<forall>f g s. (c, u, f, g, s) \<notin> set (conversion_table B)) \<longrightarrow>
      req' = req \<and> ctx' = ctx \<and> bridge_on_response J B res ctx' = Inr res)"
proof (intro conjI allI impI)
  fix f g s
  assume row: "(c, u, f, g, s) \<in> set (conversion_table B)"
  show "\<exists>t. f (proxy_request_to_transform_request req) = Inr t \<and> req_method req' = req_method req \<and>
      req_path req' = tres_path t \<and> req_body req' = tres_body t \<and>
      build_headers H (tres_headers t) [] = Inr (req_headers req')"
    by (rule bridge_request_row(1) [OF assms row])
  show "bridge_on_response J B res ctx' =
      (if \<exists>v. from_slice J (res_body res) = Inr v \<and> jget ''error'' v \<noteq> None then Inr res
       else if res_is_streaming res
       then (case snd (s (res_body res) u (stream_state_default B)) of
               Inl e \<Rightarrow> Inl (Err (Internal e)) | Inr b \<Rightarrow> Inr (res\<lparr>res_body := b\<rparr>))
       else (case g \<lparr>treq_headers = Map.empty, treq_path = [], treq_body = res_body res\<rparr> of
               Inl e \<Rightarrow> Inl (Err (Internal (error_display e)))
             | Inr t \<Rightarrow> Inr (res\<lparr>res_body := tres_body t\<rparr>)))"
    unfolding bridge_request_row(2) [OF assms row]
    using assms(2,3) conversion_row [OF row]
    by (auto simp: bridge_on_response_def on_response_streaming_def is_upstream_error_body_def map_err_def
        ctx_simps res_bind_def split: sum.splits)
next
  assume "\<forall>f g s. (c, u, f, g, s) \<notin> set (conversion_table B)"
  note none = conversion_none [OF this]
  show "req' = req" and same: "ctx' = ctx"
    using bridge_on_request_Inr [OF assms(1)] assms(2,3) none(1) by auto
  show "bridge_on_response J B res ctx' = Inr res"
    unfolding same using assms(2,3) none(2) by (simp add: bridge_on_response_def)
qed

theorem bridge_converts_by_table_witness:
  "\<exists>ctx'. bridge_on_response sample_bridge_json sample_bridge
       \<lparr>res_status = 200, res_headers = [], res_body = ''r'', res_is_streaming = False\<rparr> ctx'
     = Inr \<lparr>res_status = 200, res_headers = [], res_body = ''tr'', res_is_streaming = False\<rparr>"
proof -
  let ?ctx = "sample_bridge_ctx AnthropicMessages OpenaiChat"
  let ?res = "\<lparr>res_status = 200, res_headers = [], res_body = ''r'', res_is_streaming = False\<rparr>"
  have row: "(AnthropicMessages, OpenaiChat, anthropic_to_openai sample_bridge,
      openai_response_to_anthropic_message sample_bridge, transform_stream_to_anthropic_sse sample_bridge)
      \<in> set (conversion_table sample_bridge)"
    by (simp add: conversion_table_def)
  obtain req' ctx' where r: "bridge_on_request sample_bridge_json sample_http sample_bridge sample_bridge_req ?ctx
      = Inr (req', ctx')"
    by (simp add: bridge_on_request_def validate_input_def direction_resolve_def map_err_def
        apply_transform_response_to_request_def proxy_request_to_transform_request_def sample_bridge_defs)
  have p: "detected_format ?ctx = Some AnthropicMessages" "target_protocol ?ctx = Some OpenaiChat"
    by (simp_all add: sample_bridge_defs)
  from bridge_converts_by_table [OF r p, of ?res, THEN conjunct1, THEN spec, THEN spec, THEN spec, THEN mp,
      OF row, THEN conjunct2]
  have "bridge_on_response sample_bridge_json sample_bridge ?res ctx' =
      Inr \<lparr>res_status = 200, res_headers = [], res_body = ''tr'', res_is_streaming = False\<rparr>"
    by (simp add: sample_bridge_defs)
  then show ?thesis by blast
qed

text \<open>
  A chat request for an upstream that speaks the Responses protocol is sent through the
  transform for the opposite pair, \<open>responses_to_openai\<close>: no other transform of the package has any
  influence on the result.
\<close>

theorem chat_to_responses_uses_wrong_transform:
  assumes "detected_format ctx = Some OpenaiChat" and "target_protocol ctx = Some OpenaiResponses"
    and "validate_input J B req = Inr ()"
  shows "bridge_on_request J H B req ctx =
    res_bind (map_err (\<lambda>e. Err (BadRequest (sanitized_message e)))
        (responses_to_openai B (proxy_request_to_transform_request req))) (\<lambda>t.
      map_sum Err (\<lambda>req'. (req', ctx_insert EXT_BRIDGE_REVERSE (ExtBool True) ctx))
        (apply_transform_response_to_request H t req))"
  using assms
  by (auto simp: bridge_on_request_def direction_resolve_def res_bind_def map_err_def split: sum.splits)

theorem chat_to_responses_uses_wrong_transform_witness:
  "\<exists>e. bridge_on_request sample_bridge_json sample_http
     (sample_bridge\<lparr>responses_to_openai := (\<lambda>_. Inl \<lparr>sanitized_message = ''input missing'', error_display = []\<rparr>)\<rparr>)
     sample_bridge_req (sample_bridge_ctx OpenaiChat OpenaiResponses) = Inl e"
  by (subst chat_to_responses_uses_wrong_transform)
    (simp_all add: sample_bridge_defs validate_input_def map_err_def)

text \<open>
  The items of a converted stream: no empty item is sent, and an error item, from the transport
  or from the transform, is sent at most once and last.
\<close>

theorem bridge_stream_items:
  "\<exists>outs tail. bridge_stream B upstream src tgt = map Inr outs @ tail \<and> [] \<notin> set outs \<and>
     (tail = [] \<or> (\<exists>e. tail = [Inl (Internal e)]))"
  unfolding bridge_stream_def by (rule bridge_stream_from_shape)

end
