(* ===== verification/Cost.thy ===== *)
theory Cost
  imports Context Storage_Types
begin

text \<open>
  \<open>crates/cost/src/lib.rs\<close>: token usage from a response body, the price of a usage, and the record
  written for a request. Token counts are 64-bit words with the wrap-around of the shipped build,
  prices and costs are \<open>f64\<close>. The identifier, the two clocks and the storage are arguments.
\<close>

section \<open>Usage\<close>

record usage =
  input_tokens :: u64
  output_tokens :: u64
  cache_write_tokens :: u64
  cache_read_tokens :: u64
  thinking_tokens :: u64

definition usage_default :: usage where
  "usage_default =
     \<lparr>input_tokens = 0, output_tokens = 0, cache_write_tokens = 0, cache_read_tokens = 0, thinking_tokens = 0\<rparr>"

definition nested_u64 :: "string \<Rightarrow> string \<Rightarrow> json \<Rightarrow> u64" where
  "nested_u64 k1 k2 v =
     unwrap_or 0 (Option.bind (Option.bind (jget k1 v) (jget k2)) as_u64)"

definition extract_anthropic_from_usage :: "json \<Rightarrow> usage" where
  "extract_anthropic_from_usage u =
     \<lparr>input_tokens = get_u64 ''input_tokens'' u, output_tokens = get_u64 ''output_tokens'' u,
      cache_write_tokens = get_u64 ''cache_creation_input_tokens'' u,
      cache_read_tokens = get_u64 ''cache_read_input_tokens'' u, thinking_tokens = 0\<rparr>"

definition extract_anthropic :: "json \<Rightarrow> usage" where
  "extract_anthropic body =
     (case jget ''usage'' body of
        None \<Rightarrow> usage_default
      | Some u \<Rightarrow>
          \<lparr>input_tokens = get_u64 ''input_tokens'' u, output_tokens = get_u64 ''output_tokens'' u,
           cache_write_tokens = get_u64 ''cache_creation_input_tokens'' u,
           cache_read_tokens = get_u64 ''cache_read_input_tokens'' u, thinking_tokens = 0\<rparr>)"

definition extract_openai_chat :: "json \<Rightarrow> usage" where
  "extract_openai_chat body =
     (case jget ''usage'' body of
        None \<Rightarrow> usage_default
      | Some u \<Rightarrow>
          (let cache_read = nested_u64 ''prompt_tokens_details'' ''cached_tokens'' u;
               prompt = get_u64 ''prompt_tokens'' u;
               completion = get_u64 ''completion_tokens'' u;
               (inp, out) =
                 (if 0 < prompt \<or> 0 < completion then (prompt, completion)
                  else (case Option.bind (jget ''total_tokens'' u) as_u64 of
                          Some tot \<Rightarrow> (tot div 2, tot div 2)
                        | None \<Rightarrow> (get_u64 ''input'' u, get_u64 ''output'' u)))
           in \<lparr>input_tokens = inp, output_tokens = out, cache_write_tokens = 0,
               cache_read_tokens = cache_read, thinking_tokens = 0\<rparr>))"

definition extract_openai_responses :: "json \<Rightarrow> usage" where
  "extract_openai_responses body =
     (case jget ''usage'' body of
        None \<Rightarrow> usage_default
      | Some u \<Rightarrow>
          \<lparr>input_tokens = get_u64 ''input_tokens'' u, output_tokens = get_u64 ''output_tokens'' u,
           cache_write_tokens = 0,
           cache_read_tokens = nested_u64 ''input_tokens_details'' ''cached_tokens'' u,
           thinking_tokens = 0\<rparr>)"

definition auto_detect_usage :: "json \<Rightarrow> usage" where
  "auto_detect_usage body =
     (case jget ''usage'' body of
        None \<Rightarrow> usage_default
      | Some u \<Rightarrow>
          if jget ''prompt_tokens'' u \<noteq> None then extract_openai_chat body
          else if jget ''input_tokens_details'' u \<noteq> None then extract_openai_responses body
          else if jget ''input_tokens'' u \<noteq> None then extract_anthropic body
          else usage_default)"

fun extract_usage :: "json \<Rightarrow> api_format option \<Rightarrow> usage" where
  "extract_usage body (Some AnthropicMessages) = extract_anthropic body"
| "extract_usage body (Some OpenaiChat) = extract_openai_chat body"
| "extract_usage body (Some OpenaiResponses) = extract_openai_responses body"
| "extract_usage body None = auto_detect_usage body"
| "extract_usage body (Some (OtherFormat _)) = auto_detect_usage body"

definition extract_openai_chat_from_usage :: "json \<Rightarrow> usage" where
  "extract_openai_chat_from_usage u =
     \<lparr>input_tokens = get_u64 ''prompt_tokens'' u, output_tokens = get_u64 ''completion_tokens'' u,
      cache_write_tokens = 0, cache_read_tokens = 0, thinking_tokens = 0\<rparr>"

definition extract_openai_responses_from_usage :: "json \<Rightarrow> usage" where
  "extract_openai_responses_from_usage u =
     \<lparr>input_tokens = get_u64 ''input_tokens'' u, output_tokens = get_u64 ''output_tokens'' u,
      cache_write_tokens = 0, cache_read_tokens = 0, thinking_tokens = 0\<rparr>"

text \<open>One line of an event stream, on the usage collected so far.\<close>

definition sse_usage_line :: "json_lib \<Rightarrow> string \<Rightarrow> usage \<Rightarrow> usage" where
  "sse_usage_line J line acc =
     (let data = unwrap_or line (strip_prefix ''data: '' line) in
      if data = [] \<or> data = ''[DONE]'' then acc
      else (case from_slice J data of
              Inl _ \<Rightarrow> acc
            | Inr event \<Rightarrow>
                (let ty = Option.bind (jget ''type'' event) as_str;
                     acc = (case (ty = Some ''message_delta'', jget ''usage'' event) of
                              (True, Some u) \<Rightarrow> extract_anthropic_from_usage u | _ \<Rightarrow> acc);
                     acc = (case (ty = Some ''response.completed'',
                                  Option.bind (jget ''response'' event) (jget ''usage'')) of
                              (True, Some u) \<Rightarrow> extract_openai_responses_from_usage u | _ \<Rightarrow> acc)
                 in (case (jget ''choices'' event \<noteq> None, jget ''usage'' event) of
                       (True, Some u) \<Rightarrow> extract_openai_chat_from_usage u | _ \<Rightarrow> acc))))"

definition extract_usage_sse :: "json_lib \<Rightarrow> string \<Rightarrow> usage" where
  "extract_usage_sse J body = fold (sse_usage_line J) (lines body) usage_default"

section \<open>Prices\<close>

definition per_mtok :: "u64 \<Rightarrow> f64 \<Rightarrow> f64" where
  "per_mtok n rate = f64_mul (f64_div (f64_of_u64 n) (Fin 1000000)) rate"

definition calc_per_token ::
  "usage \<Rightarrow> f64 \<Rightarrow> f64 \<Rightarrow> f64 option \<Rightarrow> f64 option \<Rightarrow> f64 option \<Rightarrow> string \<Rightarrow> f64 \<times> string" where
  "calc_per_token u inp out cw cr th currency =
     (let input_cost = per_mtok (input_tokens u) inp;
          output_cost = per_mtok (output_tokens u) out;
          cache_write_cost = per_mtok (cache_write_tokens u) (unwrap_or (Fin 0) cw);
          cache_read_cost = per_mtok (cache_read_tokens u) (unwrap_or (Fin 0) cr);
          thinking_cost = per_mtok (thinking_tokens u) (unwrap_or (Fin 0) th)
      in (f64_add (f64_add (f64_add (f64_add input_cost output_cost) cache_write_cost) cache_read_cost)
            thinking_cost, currency))"

definition find_tier :: "u64 \<Rightarrow> pricing_tier list \<Rightarrow> pricing_tier option" where
  "find_tier tot tiers =
     find (\<lambda>t. case up_to t of None \<Rightarrow> True | Some limit \<Rightarrow> tot \<le> limit) tiers"

definition calc_tiered_tokens :: "usage \<Rightarrow> pricing_tier list \<Rightarrow> string \<Rightarrow> f64 \<times> string" where
  "calc_tiered_tokens u tiers currency =
     (case Option.bind (find_tier (input_tokens u + output_tokens u) tiers)
             (\<lambda>t. case price t of
                TokenPrice inp out cw cr th \<Rightarrow> Some (calc_per_token u inp out cw cr th currency)
              | UnitPrice _ \<Rightarrow> None) of
        Some result \<Rightarrow> result
      | None \<Rightarrow> (Fin 0, currency))"

fun calc_cost :: "usage \<Rightarrow> pricing \<Rightarrow> f64 \<times> string" where
  "calc_cost u (PerToken inp out cw cr th currency) = calc_per_token u inp out cw cr th currency"
| "calc_cost u (Credits cin cout creq) =
     (let inp = per_mtok (input_tokens u) (unwrap_or (Fin 0) cin);
          out = per_mtok (output_tokens u) (unwrap_or (Fin 0) cout);
          per_req = unwrap_or (Fin 0) creq
      in (f64_add (f64_add inp out) per_req, ''credits''))"
| "calc_cost u (CharBased rate mult) =
     (let input_chars = f64_mul (f64_of_u64 (input_tokens u)) (Fin (3 / 4));
          output_chars = f64_mul (f64_mul (f64_of_u64 (output_tokens u)) (Fin (3 / 4))) (unwrap_or (Fin 1) mult)
      in (f64_mul (f64_div (f64_add input_chars output_chars) (Fin 1000000)) rate, ''CNY''))"
| "calc_cost u (PerUnit _ per_unit currency) = (per_unit, currency)"
| "calc_cost u (Tiered Tokens tiers currency) = calc_tiered_tokens u tiers currency"
| "calc_cost u (Tiered _ tiers currency) = (Fin 0, currency)"

definition calc_subscription_cost :: "f64 \<times> string" where
  "calc_subscription_cost = (Fin 0, ''USD'')"

section \<open>The record\<close>

record cost_env =
  ce_uuid :: string
  ce_now :: instant
  ce_rfc3339 :: string
  ce_user_name :: string

text \<open>\<open>i64::try_from(elapsed.as_millis()).unwrap_or(i64::MAX)\<close>\<close>

definition millis_i64 :: "duration \<Rightarrow> i64" where
  "millis_i64 d = (let ms = d div 1000000 in if ms < 2 ^ 63 then of_nat ms else of_nat (2 ^ 63 - 1))"

definition with_stats :: "(compression_stats \<Rightarrow> u64) \<Rightarrow> compression_stats option \<Rightarrow> u64" where
  "with_stats f stats = (case stats of None \<Rightarrow> 0 | Some s \<Rightarrow> f s)"

abbreviation compression_stats_of :: "connection_context \<Rightarrow> compression_stats option" where
  "compression_stats_of ctx \<equiv> ctx_get dc_stats EXT_COMPRESSION_STATS ctx"

definition build_cost_record :: "cost_env \<Rightarrow> connection_context \<Rightarrow> json \<Rightarrow> cost_record" where
  "build_cost_record C ctx body =
     (let mapping_info = selected_mapping ctx;
          channel_config = selected_channel ctx;
          stats = compression_stats_of ctx;
          u = extract_usage body (detected_format ctx);
          (actual_cost, unit) = (case Option.bind mapping_info smi_pricing of
                                   Some p \<Rightarrow> calc_cost u p | None \<Rightarrow> (Fin 0, ''USD''));
          schema_saved = tokenless_schema_saved ctx + with_stats proxy_schema_saved stats;
          response_saved = tokenless_response_saved ctx + with_stats proxy_response_saved stats;
          rtk_saved = tokenless_rtk_saved ctx + with_stats stats_rtk_saved stats;
          tokenless = with_stats tokenless_saved stats;
          experimental = with_stats tokenless_experimental stats;
          pre = with_stats (\<lambda>s. tokenless_pre s + proxy_req_pre s) stats;
          post = with_stats (\<lambda>s. tokenless_post s + proxy_req_post s) stats;
          compression_saved = tokenless + experimental + schema_saved + response_saved + rtk_saved;
          after = input_tokens u + output_tokens u;
          tot = tokenless_saved_tokens ctx + compression_saved
      in \<lparr>cr_id = ce_uuid C,
          cr_channel_id = unwrap_or [] (map_option smi_channel_id mapping_info),
          cr_upstream_channel = unwrap_or [] (map_option cc_name channel_config),
          cr_upstream_model = unwrap_or [] (map_option smi_upstream_name mapping_info),
          cr_request_time_ms = millis_i64 (elapsed (ce_now C) (started_at ctx)),
          cr_project = unwrap_or [] (project_path ctx),
          cr_user_id = unwrap_or (ce_user_name C) (user_name ctx),
          cr_agent_type = agent_type_display (ctx_agent_type ctx),
          cr_input_tokens = input_tokens u, cr_output_tokens = output_tokens u,
          cr_cache_write_tokens = cache_write_tokens u, cr_cache_read_tokens = cache_read_tokens u,
          cr_thinking_tokens = thinking_tokens u, cr_cost = actual_cost,
          cr_schema_saved_tokens = schema_saved, cr_response_saved_tokens = response_saved,
          cr_rtk_saved_tokens = rtk_saved, cr_pre_compress_tokens = pre,
          cr_post_compress_tokens = post, cr_compression_tokens_saved = compression_saved,
          cr_unit = unit,
          cr_pricing_snapshot_json = unwrap_or [] (map_option smi_pricing_snapshot_json mapping_info),
          cr_timestamp = ce_rfc3339 C, cr_session_id = session_id ctx,
          cr_before_tokens = after + tot, cr_after_tokens = after, cr_tokens_saved = tot,
          cr_compression_breakdown_json = unwrap_or [] (tokenless_breakdown_json ctx)\<rparr>)"

definition cost_record_op ::
  "'s storage \<Rightarrow> cost_env \<Rightarrow> connection_context \<Rightarrow> json \<Rightarrow> 's \<Rightarrow> 's \<times> (proxy_error + unit)" where
  "cost_record_op S C ctx body db =
     (case insert_cost_record S db (build_cost_record C ctx body) of
        (db', Inl e) \<Rightarrow> (db', Inl (Internal (storage_error_display e)))
      | (db', Inr _) \<Rightarrow> (db', Inr ()))"

definition cost_query :: "'s storage \<Rightarrow> cost_filter \<Rightarrow> 's \<Rightarrow> proxy_error + cost_record list" where
  "cost_query S f db = map_sum (\<lambda>e. Internal (storage_error_display e)) id (query_cost_records S db f)"

definition cost_aggregate :: "'s storage \<Rightarrow> cost_group_by \<Rightarrow> time_range \<Rightarrow> 's \<Rightarrow> proxy_error + cost_aggregate list" where
  "cost_aggregate S group_by tr db =
     map_sum (\<lambda>e. Internal (storage_error_display e)) id (aggregate_costs S db group_by tr)"

section \<open>Lemmas\<close>

lemma per_mtok_upto: "f64_upto 400 r \<Longrightarrow> f64_upto 464 (per_mtok n r)"
  unfolding per_mtok_def
  using f64_upto_mul [OF f64_upto_div [OF f64_upto_u64], of 1000000 400 r n] by simp

definition rate_opt_ok :: "f64 option \<Rightarrow> bool" where
  "rate_opt_ok r = pred_option (f64_upto 400) r"

lemma rate_opt_ok_default:
  "rate_opt_ok r \<Longrightarrow> f64_upto 400 (unwrap_or (Fin 0) r)"
  "rate_opt_ok r \<Longrightarrow> f64_upto 400 (unwrap_or (Fin 1) r)"
  by (cases r; auto simp: rate_opt_ok_def f64_upto_def)+

lemma f64_upto_add_to:
  "f64_upto k x \<Longrightarrow> f64_upto j y \<Longrightarrow> j \<le> k \<Longrightarrow> k < 1023 \<Longrightarrow> f64_upto (Suc k) (f64_add x y)"
  by (rule f64_upto_add) (auto intro: f64_upto_mono)

lemma calc_per_token_upto:
  assumes "f64_upto 400 inp" "f64_upto 400 out" "rate_opt_ok cw" "rate_opt_ok cr" "rate_opt_ok th"
  shows "f64_upto 468 (fst (calc_per_token u inp out cw cr th currency))"
proof -
  have 1: "f64_upto 465 (f64_add (per_mtok (input_tokens u) inp) (per_mtok (output_tokens u) out))"
    using f64_upto_add_to [OF per_mtok_upto per_mtok_upto, of inp out] assms(1,2) by simp
  have 2: "f64_upto 466 (f64_add (f64_add (per_mtok (input_tokens u) inp) (per_mtok (output_tokens u) out))
      (per_mtok (cache_write_tokens u) (unwrap_or (Fin 0) cw)))"
    using f64_upto_add_to [OF 1 per_mtok_upto [OF rate_opt_ok_default(1) [OF assms(3)]]] by simp
  have 3: "f64_upto 467 (f64_add (f64_add (f64_add (per_mtok (input_tokens u) inp) (per_mtok (output_tokens u) out))
      (per_mtok (cache_write_tokens u) (unwrap_or (Fin 0) cw)))
      (per_mtok (cache_read_tokens u) (unwrap_or (Fin 0) cr)))"
    using f64_upto_add_to [OF 2 per_mtok_upto [OF rate_opt_ok_default(1) [OF assms(4)]]] by simp
  show ?thesis
    using f64_upto_add_to [OF 3 per_mtok_upto [OF rate_opt_ok_default(1) [OF assms(5)], of "thinking_tokens u"]]
    by (simp add: calc_per_token_def)
qed

text \<open>Prices that a configuration can reasonably hold: finite, not negative, at most \<open>2 ^ 400\<close>.\<close>

fun tier_ok :: "tier_price \<Rightarrow> bool" where
  "tier_ok (TokenPrice inp out cw cr th) =
     (f64_upto 400 inp \<and> f64_upto 400 out \<and> rate_opt_ok cw \<and> rate_opt_ok cr \<and> rate_opt_ok th)"
| "tier_ok (UnitPrice p) = f64_upto 400 p"

fun pricing_ok :: "pricing \<Rightarrow> bool" where
  "pricing_ok (PerToken inp out cw cr th _) =
     (f64_upto 400 inp \<and> f64_upto 400 out \<and> rate_opt_ok cw \<and> rate_opt_ok cr \<and> rate_opt_ok th)"
| "pricing_ok (Credits a b c) = (rate_opt_ok a \<and> rate_opt_ok b \<and> rate_opt_ok c)"
| "pricing_ok (CharBased p m) = (f64_upto 400 p \<and> rate_opt_ok m)"
| "pricing_ok (PerUnit _ p _) = f64_upto 400 p"
| "pricing_ok (Tiered _ tiers _) = list_all (\<lambda>t. tier_ok (price t)) tiers"

lemma calc_credits_upto:
  assumes "rate_opt_ok a" "rate_opt_ok b" "rate_opt_ok c"
  shows "f64_upto 466 (fst (calc_cost u (Credits a b c)))"
proof -
  have 1: "f64_upto 465 (f64_add (per_mtok (input_tokens u) (unwrap_or (Fin 0) a))
      (per_mtok (output_tokens u) (unwrap_or (Fin 0) b)))"
    using f64_upto_add_to [OF per_mtok_upto [OF rate_opt_ok_default(1) [OF assms(1)]]
        per_mtok_upto [OF rate_opt_ok_default(1) [OF assms(2)]]] by simp
  show ?thesis
    using f64_upto_add_to [OF 1 rate_opt_ok_default(1) [OF assms(3)]] by (simp add: Let_def)
qed

lemma calc_char_upto:
  assumes "f64_upto 400 p" "rate_opt_ok m"
  shows "f64_upto 865 (fst (calc_cost u (CharBased p m)))"
proof -
  have q: "f64_upto 0 (Fin (3 / 4))" by simp
  have i: "f64_upto 64 (f64_mul (f64_of_u64 n) (Fin (3 / 4)))" for n
    using f64_upto_mul [OF f64_upto_u64 q] by simp
  have o: "f64_upto 464 (f64_mul (f64_mul (f64_of_u64 (output_tokens u)) (Fin (3 / 4))) (unwrap_or (Fin 1) m))"
    using f64_upto_mul [OF i rate_opt_ok_default(2) [OF assms(2)]] by simp
  have s: "f64_upto 465 (f64_add (f64_mul (f64_of_u64 (input_tokens u)) (Fin (3 / 4)))
      (f64_mul (f64_mul (f64_of_u64 (output_tokens u)) (Fin (3 / 4))) (unwrap_or (Fin 1) m)))"
    using f64_upto_add [OF f64_upto_mono [OF i] o] by simp
  have d: "f64_upto 465 (f64_div (f64_add (f64_mul (f64_of_u64 (input_tokens u)) (Fin (3 / 4)))
      (f64_mul (f64_mul (f64_of_u64 (output_tokens u)) (Fin (3 / 4))) (unwrap_or (Fin 1) m))) (Fin 1000000))"
    by (rule f64_upto_div [OF s]) simp_all
  show ?thesis using f64_upto_mul [OF d assms(1)] by (simp add: Let_def)
qed

lemma calc_tiered_upto:
  assumes "list_all (\<lambda>t. tier_ok (price t)) tiers"
  shows "f64_upto 468 (fst (calc_tiered_tokens u tiers currency))"
proof (cases "find_tier (input_tokens u + output_tokens u) tiers")
  case None
  then show ?thesis by (simp add: calc_tiered_tokens_def f64_upto_def)
next
  case (Some t)
  then have "t \<in> set tiers" unfolding find_tier_def by (auto dest: find_Some_in)
  with assms have ok: "tier_ok (price t)" by (auto simp: list_all_iff)
  show ?thesis
    using Some ok calc_per_token_upto
    by (cases "price t") (auto simp: calc_tiered_tokens_def f64_upto_def)
qed

lemma calc_cost_upto: "pricing_ok p \<Longrightarrow> f64_upto 865 (fst (calc_cost u p))"
proof (induction u p rule: calc_cost.induct)
  case (1 u inp out cw cr th currency)
  then show ?case using calc_per_token_upto f64_upto_mono [of 468 _ 865] by auto
next
  case (2 u a b c)
  then show ?case using calc_credits_upto f64_upto_mono [of 466 _ 865] by (auto simp del: calc_cost.simps)
next
  case (3 u p m)
  then show ?case using calc_char_upto by (simp del: calc_cost.simps)
next
  case (5 u tiers currency)
  then show ?case using calc_tiered_upto f64_upto_mono [of 468 _ 865] by auto
qed (auto simp: f64_upto_def intro: order.trans)

lemma per_mtok_mono:
  assumes "unat m \<le> unat n" "f64_upto 400 r"
  shows "f64_le (per_mtok m r) (per_mtok n r)"
proof -
  obtain x where x: "r = Fin x" "0 \<le> x" using assms(2) by (auto simp: f64_upto_def)
  have "f64_le (f64_div (f64_of_u64 m) (Fin 1000000)) (f64_div (f64_of_u64 n) (Fin 1000000))"
    using f64_of_u64_mono [OF assms(1)] by (intro f64_div_Fin_mono [OF f64_upto_u64 f64_upto_u64]) auto
  then show ?thesis unfolding per_mtok_def x(1)
    by (intro f64_mul_Fin_mono [OF f64_upto_div [OF f64_upto_u64] f64_upto_div [OF f64_upto_u64]] x(2)) auto
qed

definition usage_le :: "usage \<Rightarrow> usage \<Rightarrow> bool" where
  "usage_le u v \<longleftrightarrow>
     unat (input_tokens u) \<le> unat (input_tokens v) \<and> unat (output_tokens u) \<le> unat (output_tokens v) \<and>
     unat (cache_write_tokens u) \<le> unat (cache_write_tokens v) \<and>
     unat (cache_read_tokens u) \<le> unat (cache_read_tokens v) \<and>
     unat (thinking_tokens u) \<le> unat (thinking_tokens v)"

lemma calc_per_token_mono:
  assumes "usage_le u v" and "f64_upto 400 inp" "f64_upto 400 out" "rate_opt_ok cw" "rate_opt_ok cr" "rate_opt_ok th"
  shows "f64_le (fst (calc_per_token u inp out cw cr th c)) (fst (calc_per_token v inp out cw cr th c))"
proof -
  have nn: "f64_nonneg (per_mtok n r)" if "f64_upto 400 r" for n r
    using per_mtok_upto [OF that] by (rule f64_upto_nonneg)
  note d = assms(2,3) rate_opt_ok_default(1) [OF assms(4)] rate_opt_ok_default(1) [OF assms(5)]
    rate_opt_ok_default(1) [OF assms(6)]
  show ?thesis
    unfolding calc_per_token_def Let_def fst_conv
    using assms(1) d
    by (intro f64_add_mono f64_add_nonneg nn per_mtok_mono) (auto simp: usage_le_def)
qed

lemma find_tier_Some:
  "find_tier n tiers = Some t \<longleftrightarrow>
     (\<exists>xs ys. tiers = xs @ t # ys \<and> (\<forall>l. up_to t = Some l \<longrightarrow> n \<le> l) \<and>
       (\<forall>s\<in>set xs. \<exists>l. up_to s = Some l \<and> l < n))"
  unfolding find_tier_def find_split
  by (auto split: option.splits) (metis linorder_not_le option.distinct(1) option.exhaust_sel option.sel)+

lemma sse_usage_line_default:
  "data \<noteq> [] \<Longrightarrow> data \<noteq> ''[DONE]'' \<Longrightarrow> from_slice J data = Inl e \<Longrightarrow>
     sse_usage_line J (''data: '' @ data) acc = acc"
  using strip_prefix_append [of "''data: ''" data] by (simp add: sse_usage_line_def)

section \<open>Properties\<close>

text \<open>
  C33. With finite, non-negative prices (of at most \<open>2 ^ 400\<close>), the cost of every usage under every
  pricing scheme is a finite non-negative number: no infinity and no undefined value is recorded.
\<close>

theorem calc_cost_finite:
  assumes "pricing_ok p"
  shows "\<exists>c. fst (calc_cost u p) = Fin c \<and> 0 \<le> c"
  using calc_cost_upto [OF assms, of u] by (auto simp: f64_upto_def)

theorem calc_cost_finite_witness:
  "\<exists>c. fst (calc_cost \<lparr>input_tokens = 5, output_tokens = - 1, cache_write_tokens = 0, cache_read_tokens = 0,
       thinking_tokens = 0\<rparr> (PerToken (Fin 3) (Fin 15) None (Some (Fin 1)) None ''USD'')) = Fin c \<and> 0 \<le> c"
  by (rule calc_cost_finite) (simp add: rate_opt_ok_def)



text \<open>
  Tier selection: the tier applied to a request is the one whose bound covers input plus output
  tokens, while every earlier tier's bound is exceeded; cache and thinking tokens do not matter. The
  price of a token tier is then the plain per-token price.
\<close>

theorem tier_selection_correct:
  assumes "find_tier (input_tokens u + output_tokens u) tiers = Some t"
    and "price t = TokenPrice inp out cw cr th"
  shows "calc_cost u (Tiered Tokens tiers c) = calc_cost u (PerToken inp out cw cr th c) \<and>
    (\<forall>l. up_to t = Some l \<longrightarrow> input_tokens u + output_tokens u \<le> l) \<and>
    (\<exists>xs ys. tiers = xs @ t # ys \<and>
      (\<forall>s\<in>set xs. \<exists>l. up_to s = Some l \<and> l < input_tokens u + output_tokens u))"
  using assms find_tier_Some [of "input_tokens u + output_tokens u" tiers t]
  by (auto simp: calc_tiered_tokens_def)

theorem tier_selection_correct_witness:
  "calc_cost (usage_default\<lparr>input_tokens := 7\<rparr>)
     (Tiered Tokens [\<lparr>up_to = Some 5, price = UnitPrice (Fin 1)\<rparr>,
        \<lparr>up_to = None, price = TokenPrice (Fin 2) (Fin 3) None None None\<rparr>] ''USD'')
   = calc_cost (usage_default\<lparr>input_tokens := 7\<rparr>) (PerToken (Fin 2) (Fin 3) None None None ''USD'')"
  using tier_selection_correct [of "usage_default\<lparr>input_tokens := 7\<rparr>"
      "[\<lparr>up_to = Some 5, price = UnitPrice (Fin 1)\<rparr>,
        \<lparr>up_to = None, price = TokenPrice (Fin 2) (Fin 3) None None None\<rparr>]"
      "\<lparr>up_to = None, price = TokenPrice (Fin 2) (Fin 3) None None None\<rparr>" "Fin 2" "Fin 3" None None None "''USD''"]
  by (simp add: find_tier_def usage_default_def)

text \<open>
  The token columns of a record are consistent modulo the word size: the tokens before
  compression are the tokens consumed plus the tokens saved, and the saved total is the report's
  total plus the compression column. The report's rewrite, response and schema savings are part of
  both terms: for a request without proxy compression whose report consists of such operations,
  the record claims twice the savings.
\<close>

theorem cost_record_double_counts:
  "cr_before_tokens (build_cost_record C ctx body)
      = cr_after_tokens (build_cost_record C ctx body) + cr_tokens_saved (build_cost_record C ctx body) \<and>
   cr_tokens_saved (build_cost_record C ctx body)
      = tokenless_saved_tokens ctx + cr_compression_tokens_saved (build_cost_record C ctx body) \<and>
   (compression_stats_of ctx = None \<and>
    tokenless_saved_tokens ctx
      = tokenless_rtk_saved ctx + tokenless_response_saved ctx + tokenless_schema_saved ctx \<longrightarrow>
    cr_tokens_saved (build_cost_record C ctx body) = 2 * tokenless_saved_tokens ctx)"
  by (simp add: build_cost_record_def Let_def with_stats_def split: prod.splits)

theorem cost_record_double_counts_witness:
  "cr_tokens_saved (build_cost_record \<lparr>ce_uuid = [], ce_now = 0, ce_rfc3339 = [], ce_user_name = []\<rparr>
      ((connection_context_new 0 1 Claude None None)\<lparr>tokenless_saved_tokens := 50, tokenless_rtk_saved := 50\<rparr>) JNull)
   = 100"
  using cost_record_double_counts [of "\<lparr>ce_uuid = [], ce_now = 0, ce_rfc3339 = [], ce_user_name = []\<rparr>"
      "(connection_context_new 0 1 Claude None None)\<lparr>tokenless_saved_tokens := 50, tokenless_rtk_saved := 50\<rparr>" JNull,
      THEN conjunct2, THEN conjunct2]
  by (simp add: connection_context_new_def ctx_get_def)

text \<open>
  When a provider reports only a total, each half is rounded down: the recorded input and
  output tokens add up to the total for an even total and to one token less for an odd one.
\<close>

theorem total_only_usage_loses_odd_token:
  assumes "jget ''usage'' body = Some u" and "get_u64 ''prompt_tokens'' u = 0"
    and "get_u64 ''completion_tokens'' u = 0" and "Option.bind (jget ''total_tokens'' u) as_u64 = Some n"
  shows "unat (input_tokens (extract_openai_chat body)) + unat (output_tokens (extract_openai_chat body))
    = unat n - unat n mod 2"
proof -
  have "unat n div 2 + unat n div 2 = unat n - unat n mod 2" by presburger
  with assms show ?thesis by (simp add: extract_openai_chat_def unat_div)
qed

theorem total_only_usage_loses_odd_token_witness:
  "unat (input_tokens (extract_openai_chat (JObject [(''usage'', JObject [(''total_tokens'', JNumber (PosInt 7))])])))
   + unat (output_tokens (extract_openai_chat (JObject [(''usage'', JObject [(''total_tokens'', JNumber (PosInt 7))])])))
   = 6"
  using total_only_usage_loses_odd_token [of "JObject [(''usage'', JObject [(''total_tokens'', JNumber (PosInt 7))])]"
      "JObject [(''total_tokens'', JNumber (PosInt 7))]" 7]
  by (simp add: get_u64_def)

end
