(* ===== verification/Rate_Limiter.thy ===== *)
theory Rate_Limiter
  imports Middleware Keyed
begin

text \<open>
  \<open>crates/resilience/src/rate_limiter.rs\<close>: the token bucket, whose level and refill rate are \<open>f64\<close>,
  and the middleware that keeps one bucket per channel name. The lemmas bound the level of every
  bucket over every history and compute the burst a full bucket allows.
\<close>

record rate_limit_config =
  max_requests :: u32
  window :: duration

record token_bucket =
  capacity :: u32
  tokens :: f64
  refill_rate :: f64
  last_refill :: instant

definition token_bucket_new :: "instant \<Rightarrow> u32 \<Rightarrow> duration \<Rightarrow> token_bucket" where
  "token_bucket_new now max_req win =
     \<lparr>capacity = max_req, tokens = f64_of_u32 max_req,
      refill_rate = f64_div (f64_of_u32 max_req) (as_secs_f64 win), last_refill = now\<rparr>"

definition refill :: "instant \<Rightarrow> token_bucket \<Rightarrow> token_bucket" where
  "refill now b =
     (let dt = as_secs_f64 (elapsed now (last_refill b));
          added = f64_mul dt (refill_rate b)
      in b\<lparr>tokens := f64_min (f64_add (tokens b) added) (f64_of_u32 (capacity b)),
           last_refill := now\<rparr>)"

definition try_consume :: "instant \<Rightarrow> token_bucket \<Rightarrow> token_bucket \<times> bool" where
  "try_consume now b =
     (let b = refill now b in
      if f64_le (Fin 1) (tokens b) then (b\<lparr>tokens := f64_sub (tokens b) (Fin 1)\<rparr>, True)
      else (b, False))"

type_synonym buckets = "token_bucket hashmap"

text \<open>
  The first request of a channel reads the clock twice, once in \<open>TokenBucket::new\<close> and once in
  \<open>refill\<close>. The first reading cannot be observed (lemma \<open>refill_new\<close>), so one argument stands for
  both.
\<close>

definition check_rate_limit ::
  "rate_limit_config \<Rightarrow> instant \<Rightarrow> string \<Rightarrow> buckets \<Rightarrow> buckets \<times> (proxy_error + unit)" where
  "check_rate_limit cfg now channel_id bs =
     (let bucket = unwrap_or (token_bucket_new now (max_requests cfg) (window cfg)) (bs channel_id);
          (b, ok) = try_consume now bucket
      in (bs(channel_id \<mapsto> b), if ok then Inr () else Inl (RateLimited (window cfg))))"

definition limiter_on_request ::
  "rate_limit_config \<Rightarrow> instant \<Rightarrow> buckets \<Rightarrow> proxy_request \<Rightarrow> connection_context \<Rightarrow>
    buckets \<times> (proxy_error + proxy_request \<times> connection_context)" where
  "limiter_on_request cfg now bs req ctx =
     (let channel_id = channel_key ctx in
      if channel_id \<noteq> [] then
        let (bs', r) = check_rate_limit cfg now channel_id bs in (bs', res_bind r (\<lambda>_. Inr (req, ctx)))
      else (bs, Inr (req, ctx)))"

definition rate_limiter_middleware :: "rate_limit_config \<Rightarrow> instant \<Rightarrow> (buckets, proxy_error) middleware" where
  "rate_limiter_middleware cfg now =
     \<lparr>mw_name = ''rate-limiter'',
      on_request = limiter_on_request cfg now,
      on_response = (\<lambda>bs res ctx. (bs, Inr res))\<rparr>"

section \<open>The level of a bucket\<close>

definition level_ok :: "token_bucket \<Rightarrow> bool" where
  "level_ok b \<longleftrightarrow> (\<exists>x. tokens b = Fin x \<and> 0 \<le> x \<and> x \<le> real (unat (capacity b)))"

definition rate_ok :: "token_bucket \<Rightarrow> bool" where
  "rate_ok b \<longleftrightarrow> refill_rate b = NaN \<or> f64_nonneg (refill_rate b)"

definition bucket_inv :: "token_bucket \<Rightarrow> bool" where
  "bucket_inv b \<longleftrightarrow> level_ok b \<and> rate_ok b"

lemma f64_mul_nonneg_or_NaN:
  "f64_nonneg x \<Longrightarrow> y = NaN \<or> f64_nonneg y \<Longrightarrow> f64_mul x y = NaN \<or> f64_nonneg (f64_mul x y)"
  by (cases x; cases y) (auto simp: f64_of_real_nonneg f64_signed_inf_def sgn_real_def)

lemma f64_div_nonneg_or_NaN:
  "f64_nonneg x \<Longrightarrow> f64_nonneg y \<Longrightarrow> f64_div x y = NaN \<or> f64_nonneg (f64_div x y)"
  by (cases x; cases y) (auto simp: f64_of_real_nonneg f64_signed_inf_def sgn_real_def)

lemma f64_min_clamp:
  assumes "x = NaN \<or> f64_nonneg x" "0 \<le> c"
  shows "\<exists>y. f64_min x (Fin c) = Fin y \<and> 0 \<le> y \<and> y \<le> c"
  using assms by (cases x) (auto simp: f64_min_def)

lemma f64_add_nonneg_or_NaN:
  "f64_nonneg x \<Longrightarrow> y = NaN \<or> f64_nonneg y \<Longrightarrow> f64_add x y = NaN \<or> f64_nonneg (f64_add x y)"
  using f64_add_nonneg [of x y] by (cases x) auto

lemma refill_added:
  "rate_ok b \<Longrightarrow>
     f64_mul (as_secs_f64 d) (refill_rate b) = NaN \<or>
     f64_nonneg (f64_mul (as_secs_f64 d) (refill_rate b))"
  unfolding rate_ok_def by (rule f64_mul_nonneg_or_NaN [OF as_secs_f64_nonneg])

lemma refill_fields [simp]:
  "capacity (refill now b) = capacity b"
  "refill_rate (refill now b) = refill_rate b"
  "last_refill (refill now b) = now"
  by (simp_all add: refill_def Let_def)

lemma level_ok_refill: "bucket_inv b \<Longrightarrow> level_ok (refill now b)"
proof -
  assume inv: "bucket_inv b"
  then have "f64_nonneg (tokens b)" by (auto simp: bucket_inv_def level_ok_def)
  from f64_min_clamp [OF f64_add_nonneg_or_NaN [OF this refill_added]] inv show ?thesis
    by (simp add: level_ok_def refill_def Let_def bucket_inv_def)
qed

lemma bucket_inv_refill: "bucket_inv b \<Longrightarrow> bucket_inv (refill now b)"
  using level_ok_refill by (auto simp: bucket_inv_def rate_ok_def)

lemma bucket_inv_new: "bucket_inv (token_bucket_new now n w)"
proof -
  have "rate_ok (token_bucket_new now n w)"
    unfolding rate_ok_def token_bucket_new_def
    using f64_div_nonneg_or_NaN [of "f64_of_u32 n", OF _ as_secs_f64_nonneg [of w]] by simp
  then show ?thesis by (simp add: bucket_inv_def level_ok_def token_bucket_new_def)
qed

lemma of_nat_exact_u32:
  assumes "k \<le> unat (c :: u32)"
  shows "f64_of_real (real k) = Fin (real k)"
proof -
  have "unat c < 2 ^ 32" using unsigned_less [of c] by simp
  with assms have "k \<le> 2 ^ 53" by simp
  then show ?thesis by simp
qed

text \<open>Taking one token from a level of at least one stays within the bounds, after rounding too.\<close>

lemma take_one_bounds:
  assumes "1 \<le> x" "x \<le> real (unat (c :: u32))"
  shows "\<exists>y. f64_sub (Fin x) (Fin 1) = Fin y \<and> 0 \<le> y \<and> y \<le> real (unat c)"
proof -
  have "f64_nonneg (f64_of_real (x - 1))" using assms by (intro f64_of_real_nonneg) simp
  moreover have "f64_le (f64_of_real (x - 1)) (f64_of_real (real (unat c)))"
    using assms by (intro f64_of_real_mono) auto
  then have "f64_le (f64_of_real (x - 1)) (Fin (real (unat c)))"
    using of_nat_exact_u32 [OF order.refl, of c] by simp
  ultimately show ?thesis by (cases "f64_of_real (x - 1)") (auto simp: f64_sub_def)
qed

lemma try_consume_fields [simp]:
  "capacity (fst (try_consume now b)) = capacity b"
  "refill_rate (fst (try_consume now b)) = refill_rate b"
  by (simp_all add: try_consume_def Let_def)

lemma bucket_inv_try_consume:
  assumes "bucket_inv b"
  shows "bucket_inv (fst (try_consume now b))"
proof -
  from bucket_inv_refill [OF assms, of now] obtain x where
    x: "tokens (refill now b) = Fin x" "0 \<le> x" "x \<le> real (unat (capacity b))"
    and r: "rate_ok (refill now b)"
    by (auto simp: bucket_inv_def level_ok_def)
  show ?thesis
  proof (cases "1 \<le> x")
    case True
    from take_one_bounds [OF this x(3)] x(1) True r show ?thesis
      by (auto simp: bucket_inv_def level_ok_def rate_ok_def try_consume_def Let_def)
  next
    case False
    with x r show ?thesis
      by (auto simp: bucket_inv_def level_ok_def rate_ok_def try_consume_def Let_def)
  qed
qed

lemma refill_new: "refill now (token_bucket_new t n w) = token_bucket_new now n w"
proof -
  let ?b = "token_bucket_new t n w"
  let ?a = "f64_mul (as_secs_f64 (elapsed now t)) (refill_rate ?b)"
  have c: "f64_of_real (real (unat n)) = Fin (real (unat n))"
    by (rule of_nat_exact_u32 [OF order.refl])
  have "?a = NaN \<or> f64_nonneg ?a"
    using refill_added bucket_inv_new [of t n w] by (simp add: bucket_inv_def)
  then have "f64_min (f64_add (Fin (real (unat n))) ?a) (Fin (real (unat n))) = Fin (real (unat n))"
  proof (cases ?a)
    case (Fin y)
    with \<open>?a = NaN \<or> f64_nonneg ?a\<close> have "0 \<le> y" by simp
    then have "f64_le (Fin (real (unat n))) (f64_of_real (real (unat n) + y))"
      using f64_of_real_mono [of "real (unat n)" "real (unat n) + y"] c by simp
    with Fin show ?thesis by (cases "f64_of_real (real (unat n) + y)") (auto simp: f64_min_def)
  qed (auto simp: f64_min_def)
  then show ?thesis by (simp add: refill_def Let_def token_bucket_new_def)
qed

section \<open>The burst of a full bucket\<close>

lemma refill_rate_finite:
  assumes "0 < w"
  shows "\<exists>r. refill_rate (token_bucket_new now n w) = Fin r"
proof (cases "as_secs_f64 w")
  case (Fin s)
  with as_secs_f64_pos [OF assms] have s: "2 powi - 30 \<le> s" by simp
  then have pos: "0 < s" by (rule less_le_trans [rotated]) simp
  have "unat n < 2 ^ 32" using unsigned_less [of n] by simp
  then have n: "real (unat n) \<le> 2 ^ 32" by (metis less_imp_le of_nat_le_iff of_nat_numeral of_nat_power)
  have "real (unat n) / s \<le> 2 ^ 32 / 2 powi - 30"
    using n s by (intro frac_le) auto
  also have "\<dots> = (2::real) ^ 62" by (simp add: power_int_minus)
  also have "\<dots> \<le> 2 ^ 1023" by (rule power_increasing) auto
  finally have "real (unat n) / s \<le> 2 ^ 1023" .
  with pos have "\<exists>a. f64_of_real (real (unat n) / s) = Fin a \<and> 0 \<le> a"
    by (intro f64_of_real_Fin) auto
  with Fin pos show ?thesis by (auto simp: token_bucket_new_def)
qed (use as_secs_f64_pos [OF assms] in \<open>auto simp: token_bucket_new_def\<close>)

text \<open>A bucket with a whole number of tokens, seen again at the instant of its last refill.\<close>

definition at_level :: "nat \<Rightarrow> instant \<Rightarrow> token_bucket \<Rightarrow> bool" where
  "at_level k now b \<longleftrightarrow>
     tokens b = Fin (real k) \<and> k \<le> unat (capacity b) \<and> last_refill b = now \<and>
     (\<exists>r. refill_rate b = Fin r)"

lemma at_level_refill: "at_level k now b \<Longrightarrow> refill now b = b"
  using of_nat_exact_u32 [of k "capacity b"]
  by (auto simp: at_level_def refill_def elapsed_def f64_min_def)

lemma at_level_consume:
  "at_level (Suc k) now b \<Longrightarrow> \<exists>b'. try_consume now b = (b', True) \<and> at_level k now b'"
  using of_nat_exact_u32 [of k "capacity b"] at_level_refill [of "Suc k" now b]
  by (auto simp: try_consume_def at_level_def f64_sub_def)

lemma at_level_empty: "at_level 0 now b \<Longrightarrow> try_consume now b = (b, False)"
  using at_level_refill [of 0 now b] by (simp add: try_consume_def at_level_def)

section \<open>One bucket per channel\<close>

definition limiter_step ::
  "rate_limit_config \<Rightarrow> instant \<times> string \<Rightarrow> buckets \<Rightarrow> buckets \<times> bool" where
  "limiter_step cfg e bs =
     (let (bs', r) = check_rate_limit cfg (fst e) (snd e) bs in (bs', r = Inr ()))"

lemma limiter_step_alt:
  "limiter_step cfg (now, ch) bs =
     (let (b, ok) = try_consume now
            (unwrap_or (token_bucket_new now (max_requests cfg) (window cfg)) (bs ch))
      in (bs(ch \<mapsto> b), ok))"
  by (simp add: limiter_step_def check_rate_limit_def Let_def split: prod.splits)

interpretation limiter: keyed_inv "limiter_step cfg" snd bucket_inv for cfg
proof unfold_locales
  fix k :: string and e :: "instant \<times> string" and m
  assume "k \<noteq> snd e"
  then show "fst (limiter_step cfg e m) k = m k"
    by (cases e) (simp add: limiter_step_alt Let_def split: prod.splits)
next
  fix m m' :: buckets and e :: "instant \<times> string"
  assume "m (snd e) = m' (snd e)"
  then show "fst (limiter_step cfg e m) (snd e) = fst (limiter_step cfg e m') (snd e) \<and>
      snd (limiter_step cfg e m) = snd (limiter_step cfg e m')"
    by (cases e) (simp add: limiter_step_alt Let_def split: prod.splits)
next
  fix m :: buckets and e :: "instant \<times> string"
  obtain now ch where e: "e = (now, ch)" by (cases e)
  let ?b = "unwrap_or (token_bucket_new now (max_requests cfg) (window cfg)) (m ch)"
  assume "pred_option bucket_inv (m (snd e))"
  then have "bucket_inv ?b" by (cases "m ch") (simp_all add: e bucket_inv_new)
  then have "bucket_inv (fst (try_consume now ?b))" by (rule bucket_inv_try_consume)
  then show "pred_option bucket_inv (fst (limiter_step cfg e m) (snd e))"
    by (auto simp: e limiter_step_alt split: prod.splits)
qed

lemma burst_from_level:
  assumes "at_level k now b"
  shows "bs ch = Some b \<Longrightarrow>
    snd (run_ops (limiter_step cfg) (replicate n (now, ch)) bs)
      = replicate (min n k) True @ replicate (n - k) False"
  using assms
proof (induction n arbitrary: k b bs)
  case (Suc n)
  show ?case
  proof (cases k)
    case 0
    with Suc.prems have "limiter_step cfg (now, ch) bs = (bs, False)"
      by (simp add: limiter_step_alt at_level_empty fun_upd_idem)
    from run_ops_Cons [of "limiter_step cfg" "(now, ch)", OF this] Suc.IH [of bs b k] Suc.prems 0 show ?thesis by simp
  next
    case (Suc j)
    with Suc.prems obtain b' where b': "try_consume now b = (b', True)" "at_level j now b'"
      using at_level_consume [of j now b] by auto
    with Suc.prems have "limiter_step cfg (now, ch) bs = (bs(ch \<mapsto> b'), True)"
      by (simp add: limiter_step_alt)
    from run_ops_Cons [of "limiter_step cfg" "(now, ch)", OF this]
    have "snd (run_ops (limiter_step cfg) (replicate (Suc n) (now, ch)) bs)
        = True # snd (run_ops (limiter_step cfg) (replicate n (now, ch)) (bs(ch \<mapsto> b')))" by simp
    also have "snd (run_ops (limiter_step cfg) (replicate n (now, ch)) (bs(ch \<mapsto> b')))
        = replicate (min n j) True @ replicate (n - j) False"
      by (rule Suc.IH [of _ b']) (simp_all add: b'(2))
    finally show ?thesis by (simp add: Suc)
  qed
qed simp

lemma new_at_level:
  "0 < w \<Longrightarrow> at_level (unat n) now (token_bucket_new now n w)"
  using refill_rate_finite [of w now n] by (auto simp: at_level_def token_bucket_new_def)

lemma burst_from_new:
  assumes "0 < window cfg" "bs ch = None"
  shows "snd (run_ops (limiter_step cfg) (replicate n (now, ch)) bs)
    = replicate (min n (unat (max_requests cfg))) True @ replicate (n - unat (max_requests cfg)) False"
proof (cases n)
  case (Suc m)
  let ?b = "token_bucket_new now (max_requests cfg) (window cfg)"
  have "limiter_step cfg (now, ch) bs = limiter_step cfg (now, ch) (bs(ch \<mapsto> ?b))"
    using assms(2) by (simp add: limiter_step_alt)
  then have "snd (run_ops (limiter_step cfg) (replicate n (now, ch)) bs)
      = snd (run_ops (limiter_step cfg) (replicate n (now, ch)) (bs(ch \<mapsto> ?b)))"
    by (simp add: Suc)
  also have "\<dots> = replicate (min n (unat (max_requests cfg))) True
      @ replicate (n - unat (max_requests cfg)) False"
    by (rule burst_from_level [OF new_at_level [OF assms(1)]]) simp
  finally show ?thesis .
qed simp

section \<open>Properties\<close>

text \<open>
  C38. Over every history of requests at any instants and for any channels, every bucket's level
  stays a finite number between zero and the bucket's capacity: no rounding, infinite or undefined
  refill (a zero window, a clock that jumps) takes it out of the range.
\<close>

theorem bucket_level_bounded:
  "case fst (run_ops (limiter_step cfg) es Map.empty) ch of
     None \<Rightarrow> True
   | Some b \<Rightarrow> \<exists>x. tokens b = Fin x \<and> 0 \<le> x \<and> x \<le> real (unat (capacity b))"
  using limiter.run_inv [of Map.empty cfg es]
  by (auto simp: bucket_inv_def level_ok_def split: option.splits)
    (metis bucket_inv_def level_ok_def option.pred_inject(2))

text \<open>
  A channel seen for the first time may send exactly \<open>max_requests\<close> requests at one instant:
  those are admitted and every further one is rejected. Requests of other channels interleaved
  between them do not matter.
\<close>

theorem limiter_burst:
  assumes "0 < window cfg" and "bs ch = None"
    and "filter (\<lambda>e. snd e = ch) es = replicate n (now, ch)"
  shows "outputs_of snd ch es (snd (run_ops (limiter_step cfg) es bs))
    = replicate (min n (unat (max_requests cfg))) True @
      replicate (n - unat (max_requests cfg)) False"
  unfolding limiter.run_independent(2) assms(3) using assms(1,2) by (rule burst_from_new)

theorem limiter_burst_witness:
  "outputs_of snd ''a'' [(5::instant, ''a''), (6, ''b''), (5, ''a''), (5, ''a'')]
     (snd (run_ops (limiter_step \<lparr>max_requests = 2, window = secs 60\<rparr>)
       [(5, ''a''), (6, ''b''), (5, ''a''), (5, ''a'')] Map.empty)) = [True, True, False]"
proof -
  have "0 < window \<lparr>max_requests = 2, window = secs 60\<rparr>" by (simp add: secs_def)
  moreover have "filter (\<lambda>e. snd e = ''a'') [(5::instant, ''a''), (6, ''b''), (5, ''a''), (5, ''a'')]
      = replicate 3 (5, ''a'')" by (simp add: numeral_eq_Suc)
  moreover have "replicate (min 3 (unat (max_requests \<lparr>max_requests = 2, window = secs 60\<rparr>))) True @
      replicate (3 - unat (max_requests \<lparr>max_requests = 2, window = secs 60\<rparr>)) False
      = [True, True, False]"
  proof -
    have "unat (2::u32) = 2" by simp
    then show ?thesis by (simp only: rate_limit_config.simps) (simp add: numeral_eq_Suc)
  qed
  ultimately show ?thesis
    using limiter_burst [of "\<lparr>max_requests = 2, window = secs 60\<rparr>" Map.empty "''a''"
        "[(5, ''a''), (6, ''b''), (5, ''a''), (5, ''a'')]" 3 5]
    by (simp only: simp_thms)
qed

end
