(* ===== verification/Circuit_Breaker.thy ===== *)
theory Circuit_Breaker
  imports Middleware Keyed
begin

text \<open>
  \<open>crates/resilience/src/circuit_breaker.rs\<close>: the three-state breaker of one channel and the
  middleware that keeps one per channel name. The state machine's steps are those of the source;
  the reachable circuits are those of any sequence of admission checks, successes and failures.
\<close>

record circuit_breaker_config =
  failure_threshold :: u32
  cooldown :: duration

definition circuit_breaker_config_default :: circuit_breaker_config where
  "circuit_breaker_config_default = \<lparr>failure_threshold = 3, cooldown = secs 60\<rparr>"

datatype circuit_state = Closed | Open | HalfOpen

record channel_circuit =
  cstate :: circuit_state
  failure_count :: u32
  opened_at :: "instant option"

definition channel_circuit_new :: channel_circuit where
  "channel_circuit_new = \<lparr>cstate = Closed, failure_count = 0, opened_at = None\<rparr>"

definition allow_request :: "instant \<Rightarrow> duration \<Rightarrow> channel_circuit \<Rightarrow> channel_circuit \<times> bool" where
  "allow_request now cd c =
     (case cstate c of
        Closed \<Rightarrow> (c, True)
      | HalfOpen \<Rightarrow> (c, True)
      | Open \<Rightarrow>
          (case opened_at c of
             Some opened \<Rightarrow>
               if cd \<le> elapsed now opened then (c\<lparr>cstate := HalfOpen\<rparr>, True) else (c, False)
           | None \<Rightarrow> (c, False)))"

definition circuit_success :: "channel_circuit \<Rightarrow> channel_circuit" where
  "circuit_success c = c\<lparr>cstate := Closed, failure_count := 0, opened_at := None\<rparr>"

definition circuit_failure :: "instant \<Rightarrow> u32 \<Rightarrow> channel_circuit \<Rightarrow> channel_circuit" where
  "circuit_failure now threshold c =
     (let c = c\<lparr>failure_count := failure_count c + 1\<rparr> in
      if threshold \<le> failure_count c then c\<lparr>cstate := Open, opened_at := Some now\<rparr> else c)"

definition is_retryable :: "status \<Rightarrow> bool" where
  "is_retryable s = (is_server_error s \<or> s = 429)"

type_synonym circuits = "channel_circuit hashmap"

definition entry_or_new :: "circuits \<Rightarrow> string \<Rightarrow> channel_circuit" where
  "entry_or_new cs k = unwrap_or channel_circuit_new (cs k)"

text \<open>The part of each hook that runs under the lock, for a channel that is not empty.\<close>

definition breaker_admit ::
  "circuit_breaker_config \<Rightarrow> instant \<Rightarrow> string \<Rightarrow> circuits \<Rightarrow> circuits \<times> bool" where
  "breaker_admit cfg now channel_id cs =
     (let (c, ok) = allow_request now (cooldown cfg) (entry_or_new cs channel_id)
      in (cs(channel_id \<mapsto> c), ok))"

definition breaker_settle ::
  "circuit_breaker_config \<Rightarrow> instant \<Rightarrow> string \<Rightarrow> status \<Rightarrow> circuits \<Rightarrow> circuits" where
  "breaker_settle cfg now channel_id st cs =
     (let c = entry_or_new cs channel_id;
          c' = if is_retryable st then circuit_failure now (failure_threshold cfg) c
               else circuit_success c
      in cs(channel_id \<mapsto> c'))"

definition breaker_on_request ::
  "circuit_breaker_config \<Rightarrow> instant \<Rightarrow> circuits \<Rightarrow> proxy_request \<Rightarrow> connection_context \<Rightarrow>
    circuits \<times> (proxy_error + proxy_request \<times> connection_context)" where
  "breaker_on_request cfg now cs req ctx =
     (let channel_id = channel_key ctx in
      if channel_id = [] then (cs, Inr (req, ctx))
      else
        let (cs', ok) = breaker_admit cfg now channel_id cs
        in if ok then (cs', Inr (req, ctx)) else (cs', Inl (CircuitOpen channel_id)))"

definition breaker_on_response ::
  "circuit_breaker_config \<Rightarrow> instant \<Rightarrow> circuits \<Rightarrow> proxy_response \<Rightarrow> connection_context \<Rightarrow>
    circuits \<times> (proxy_error + proxy_response)" where
  "breaker_on_response cfg now cs res ctx =
     (let channel_id = channel_key ctx in
      if channel_id = [] then (cs, Inr res)
      else (breaker_settle cfg now channel_id (res_status res) cs, Inr res))"

definition circuit_breaker_middleware ::
  "circuit_breaker_config \<Rightarrow> instant \<Rightarrow> (circuits, proxy_error) middleware" where
  "circuit_breaker_middleware cfg now =
     \<lparr>mw_name = ''circuit-breaker'',
      on_request = breaker_on_request cfg now,
      on_response = breaker_on_response cfg now\<rparr>"

section \<open>The state machine of one circuit\<close>

inductive circuit_step :: "u32 \<Rightarrow> duration \<Rightarrow> channel_circuit \<Rightarrow> channel_circuit \<Rightarrow> bool"
  for threshold :: u32 and cd :: duration where
  admit: "allow_request now cd c = (c', ok) \<Longrightarrow> circuit_step threshold cd c c'"
| succeed: "circuit_step threshold cd c (circuit_success c)"
| fail: "circuit_step threshold cd c (circuit_failure now threshold c)"

inductive circuit_reachable :: "u32 \<Rightarrow> duration \<Rightarrow> channel_circuit \<Rightarrow> bool"
  for threshold :: u32 and cd :: duration where
  circuit_start: "circuit_reachable threshold cd channel_circuit_new"
| circuit_next: "circuit_reachable threshold cd c \<Longrightarrow> circuit_step threshold cd c c' \<Longrightarrow>
    circuit_reachable threshold cd c'"

inductive_cases circuit_stepE: "circuit_step threshold cd c c'"

text \<open>
  The invariant: a circuit that is not closed remembers when it opened; a closed circuit has an
  opening time only if the failure counter wrapped around, which takes \<open>2 ^ 32\<close> failures without
  a success, and so none while it counts below the threshold from a success.
\<close>

definition circuit_inv :: "channel_circuit \<Rightarrow> bool" where
  "circuit_inv c \<longleftrightarrow> (cstate c = Closed \<longleftrightarrow> opened_at c = None)"

lemma circuit_inv_new [simp]: "circuit_inv channel_circuit_new"
  by (simp add: circuit_inv_def channel_circuit_new_def)

lemma circuit_inv_success [simp]: "circuit_inv (circuit_success c)"
  by (simp add: circuit_inv_def circuit_success_def)

lemma circuit_inv_failure: "circuit_inv c \<Longrightarrow> circuit_inv (circuit_failure now t c)"
  by (auto simp: circuit_inv_def circuit_failure_def Let_def)

lemma circuit_inv_allow: "circuit_inv c \<Longrightarrow> circuit_inv (fst (allow_request now cd c))"
  by (auto simp: circuit_inv_def allow_request_def split: circuit_state.splits option.splits)

lemma circuit_inv_step: "circuit_step t cd c c' \<Longrightarrow> circuit_inv c \<Longrightarrow> circuit_inv c'"
  by (auto elim!: circuit_stepE intro: circuit_inv_failure dest: circuit_inv_allow)
    (metis circuit_inv_allow fst_conv)

lemma reachable_circuit_inv: "circuit_reachable t cd c \<Longrightarrow> circuit_inv c"
  by (induction rule: circuit_reachable.induct) (auto dest: circuit_inv_step)

lemma circuit_failure_below:
  assumes "Suc (unat (failure_count c)) < unat t"
  shows "cstate (circuit_failure now t c) = cstate c \<and>
    unat (failure_count (circuit_failure now t c)) = Suc (unat (failure_count c))"
proof -
  have "unat t < 2 ^ 32" using unsigned_less [of t] by simp
  with assms have "unat (failure_count c + 1) = Suc (unat (failure_count c))"
    by (simp add: unat_word_ariths)
  with assms show ?thesis by (simp add: circuit_failure_def Let_def word_le_nat_alt)
qed

lemma circuit_failure_run:
  "cstate c = Closed \<Longrightarrow> unat (failure_count c) + n < unat t \<Longrightarrow>
     cstate (((circuit_failure now t) ^^ n) c) = Closed \<and>
     unat (failure_count (((circuit_failure now t) ^^ n) c)) = unat (failure_count c) + n"
  by (induction n) (simp_all add: circuit_failure_below)

lemma circuit_failure_trips:
  assumes "Suc (unat (failure_count c)) = unat t"
  shows "cstate (circuit_failure now t c) = Open \<and> opened_at (circuit_failure now t c) = Some now"
proof -
  have "unat t < 2 ^ 32" using unsigned_less [of t] by simp
  with assms have "unat (failure_count c + 1) = unat t" by (simp add: unat_word_ariths)
  then show ?thesis by (simp add: circuit_failure_def Let_def word_le_nat_alt)
qed

section \<open>One circuit per channel\<close>

datatype breaker_event = Admit instant string | Settle instant string status

fun breaker_key :: "breaker_event \<Rightarrow> string" where
  "breaker_key (Admit _ ch) = ch"
| "breaker_key (Settle _ ch _) = ch"

fun breaker_step :: "circuit_breaker_config \<Rightarrow> breaker_event \<Rightarrow> circuits \<Rightarrow> circuits \<times> bool" where
  "breaker_step cfg (Admit now ch) cs = breaker_admit cfg now ch cs"
| "breaker_step cfg (Settle now ch st) cs = (breaker_settle cfg now ch st cs, True)"

lemmas breaker_defs = breaker_admit_def breaker_settle_def entry_or_new_def Let_def

interpretation breaker: keyed_inv "breaker_step cfg" breaker_key circuit_inv for cfg
proof unfold_locales
  fix k e m
  assume "k \<noteq> breaker_key e"
  then show "fst (breaker_step cfg e m) k = m k"
    by (cases e) (simp_all add: breaker_defs split: prod.splits)
next
  fix m m' :: circuits and e
  assume "m (breaker_key e) = m' (breaker_key e)"
  then show "fst (breaker_step cfg e m) (breaker_key e) = fst (breaker_step cfg e m') (breaker_key e) \<and>
      snd (breaker_step cfg e m) = snd (breaker_step cfg e m')"
    by (cases e) (simp_all add: breaker_defs split: prod.splits)
next
  fix m :: circuits and e
  assume "pred_option circuit_inv (m (breaker_key e))"
  then have "circuit_inv (entry_or_new m (breaker_key e))"
    by (cases "m (breaker_key e)") (simp_all add: entry_or_new_def)
  then show "pred_option circuit_inv (fst (breaker_step cfg e m) (breaker_key e))"
    by (cases e) (auto simp: breaker_admit_def breaker_settle_def Let_def intro: circuit_inv_failure
        dest: circuit_inv_allow split: prod.splits, metis circuit_inv_allow fst_conv)
qed

lemma breaker_on_request_admits:
  assumes "channel_key ctx \<noteq> []"
  shows "(\<exists>cs'. breaker_on_request cfg now cs req ctx = (cs', Inr (req, ctx))) \<longleftrightarrow>
    snd (allow_request now (cooldown cfg) (entry_or_new cs (channel_key ctx)))"
  using assms by (simp add: breaker_on_request_def breaker_admit_def Let_def split: prod.splits)

lemma half_open_run:
  assumes "cs ch = Some c" "cstate c = HalfOpen"
  shows "\<forall>e\<in>set es. \<exists>now. e = Admit now ch \<Longrightarrow>
    run_ops (breaker_step cfg) es cs = (cs, replicate (length es) True)"
proof (induction es)
  case (Cons e es)
  then obtain now where "e = Admit now ch" by auto
  then have "breaker_step cfg e cs = (cs, True)"
    using assms by (simp add: breaker_defs allow_request_def fun_upd_idem)
  with Cons show ?case by simp
qed simp

text \<open>The failure that reaches the threshold, and the run of rejected requests after it.\<close>

lemma settle_failure_opens:
  assumes "is_retryable s" "failure_threshold cfg \<le> failure_count (entry_or_new cs ch) + 1"
  obtains c where "breaker_settle cfg t ch s cs ch = Some c" "cstate c = Open" "opened_at c = Some t"
  using assms by (simp add: breaker_settle_def circuit_failure_def Let_def)

lemma open_run:
  assumes "cs ch = Some c" "cstate c = Open" "opened_at c = Some t"
  shows "\<forall>e\<in>set es. \<exists>now. e = Admit now ch \<and> now - t < cooldown cfg \<Longrightarrow>
    run_ops (breaker_step cfg) es cs = (cs, replicate (length es) False)"
proof (induction es)
  case (Cons e es)
  then obtain now where "e = Admit now ch" "now - t < cooldown cfg" by auto
  then have "breaker_step cfg e cs = (cs, False)"
    using assms by (auto simp: breaker_defs allow_request_def elapsed_def fun_upd_idem)
  with Cons show ?case by simp
qed simp

section \<open>Properties\<close>

text \<open>
  From a closed circuit with no recorded failure, consecutive failures leave the circuit
  closed as long as there are fewer than the threshold of them, and the failure that reaches the
  threshold opens it and records the opening time.
\<close>

theorem circuit_opens_at_threshold:
  assumes "cstate c = Closed" and "failure_count c = 0" and "0 < unat t"
  shows "(\<forall>n < unat t. cstate (((circuit_failure now t) ^^ n) c) = Closed) \<and>
    cstate (((circuit_failure now t) ^^ unat t) c) = Open \<and>
    opened_at (((circuit_failure now t) ^^ unat t) c) = Some now"
proof -
  have run: "cstate (((circuit_failure now t) ^^ n) c) = Closed \<and>
      unat (failure_count (((circuit_failure now t) ^^ n) c)) = n" if "n < unat t" for n
    using circuit_failure_run [OF assms(1), of n t now] that assms(2) by simp
  obtain m where m: "unat t = Suc m" using assms(3) by (cases "unat t") auto
  have "Suc (unat (failure_count (((circuit_failure now t) ^^ m) c))) = unat t" using run [of m] m by simp
  from circuit_failure_trips [OF this] run show ?thesis by (simp add: m)
qed

theorem circuit_opens_at_threshold_witness:
  "cstate (((circuit_failure 7 3) ^^ 2) channel_circuit_new) = Closed \<and>
   cstate (((circuit_failure 7 3) ^^ 3) channel_circuit_new) = Open"
proof -
  have t: "unat (3::u32) = 3" by simp
  from circuit_opens_at_threshold [of channel_circuit_new 3 7, unfolded t] show ?thesis
    by (simp only: channel_circuit_new_def) simp
qed

text \<open>
  C37. A failed response that brings a channel's failure counter to the threshold shuts the channel
  from the time of that response on: whatever other channels do, and however often this channel is
  asked for, every request for it is rejected as long as less than the cooldown has passed since
  that response and no further response of the channel comes back; and the first request from the
  end of the cooldown on is admitted, as the probe that turns the circuit half-open. A failed
  response that arrives while the circuit is open is covered too: it starts the cooldown again.
\<close>

theorem open_circuit_rejects_during_cooldown:
  assumes "is_retryable s" and "failure_threshold cfg \<le> failure_count (entry_or_new cs ch) + 1"
    and "\<forall>e\<in>set es. breaker_key e = ch \<longrightarrow> (\<exists>now. e = Admit now ch \<and> now - t < cooldown cfg)"
    and "cooldown cfg \<le> later - t"
  shows "outputs_of breaker_key ch es
      (snd (run_ops (breaker_step cfg) es (breaker_settle cfg t ch s cs))) =
        replicate (length (filter (\<lambda>e. breaker_key e = ch) es)) False \<and>
    snd (breaker_admit cfg later ch
      (fst (run_ops (breaker_step cfg) es (breaker_settle cfg t ch s cs)))) \<and>
    map_option cstate (fst (breaker_admit cfg later ch
      (fst (run_ops (breaker_step cfg) es (breaker_settle cfg t ch s cs)))) ch) = Some HalfOpen"
proof -
  let ?es = "filter (\<lambda>e. breaker_key e = ch) es" and ?cs = "breaker_settle cfg t ch s cs"
  obtain c where c: "?cs ch = Some c" "cstate c = Open" "opened_at c = Some t"
    using assms(1,2) by (rule settle_failure_opens)
  have "\<forall>e\<in>set ?es. \<exists>now. e = Admit now ch \<and> now - t < cooldown cfg" using assms(3) by auto
  note run = open_run [of ?cs ch, OF c this]
  have keep: "fst (run_ops (breaker_step cfg) es ?cs) ch = Some c"
    by (simp add: breaker.run_independent(1) [of cfg es] run c)
  have out: "outputs_of breaker_key ch es (snd (run_ops (breaker_step cfg) es ?cs)) =
      replicate (length ?es) False"
    by (simp add: breaker.run_independent(2) run)
  show ?thesis using out keep assms(4) c
    by (simp add: breaker_defs allow_request_def elapsed_def)
qed

theorem open_circuit_rejects_during_cooldown_witness:
  "outputs_of breaker_key ''a'' [Admit 8 ''a'', Settle 8 ''b'' 200, Admit 9 ''a'', Admit 16 ''a'']
     (snd (run_ops (breaker_step \<lparr>failure_threshold = 1, cooldown = 10\<rparr>)
       [Admit 8 ''a'', Settle 8 ''b'' 200, Admit 9 ''a'', Admit 16 ''a'']
       (breaker_settle \<lparr>failure_threshold = 1, cooldown = 10\<rparr> 7 ''a'' 503 Map.empty))) =
     [False, False, False]"
  using open_circuit_rejects_during_cooldown [of 503 "\<lparr>failure_threshold = 1, cooldown = 10\<rparr>"
      Map.empty "''a''" "[Admit 8 ''a'', Settle 8 ''b'' 200, Admit 9 ''a'', Admit 16 ''a'']" 7 17]
  by (simp add: is_retryable_def is_server_error_def entry_or_new_def channel_circuit_new_def
      numeral_3_eq_3)

text \<open>
  The half-open state admits every request, not one probe: whatever other channels do, as long
  as no response of the half-open channel comes back, all of its requests are admitted.
\<close>

theorem half_open_admits_all:
  assumes "cs ch = Some c" and "cstate c = HalfOpen"
    and "\<forall>e\<in>set es. breaker_key e = ch \<longrightarrow> (\<exists>now. e = Admit now ch)"
  shows "\<exists>n. outputs_of breaker_key ch es (snd (run_ops (breaker_step cfg) es cs)) = replicate n True"
proof -
  have "\<forall>e\<in>set (filter (\<lambda>e. breaker_key e = ch) es). \<exists>now. e = Admit now ch" using assms(3) by auto
  from half_open_run [of cs ch, OF assms(1,2) this, of cfg] show ?thesis
    unfolding breaker.run_independent(2) by (metis snd_conv)
qed

theorem half_open_admits_all_witness:
  "\<exists>n. outputs_of breaker_key ''a'' [Admit 1 ''a'', Settle 2 ''b'' 500, Admit 2 ''a'']
     (snd (run_ops (breaker_step circuit_breaker_config_default)
       [Admit 1 ''a'', Settle 2 ''b'' 500, Admit 2 ''a'']
       [''a'' \<mapsto> channel_circuit_new\<lparr>cstate := HalfOpen\<rparr>])) = replicate n True"
  by (rule half_open_admits_all [where c = "channel_circuit_new\<lparr>cstate := HalfOpen\<rparr>"]) simp_all

end
