(* ===== verification/Retry.thy ===== *)
theory Retry
  imports Circuit_Breaker
begin

text \<open>
  \<open>crates/resilience/src/retry.rs\<close>: the backoff delays and the middleware that turns a retryable
  response into an error carrying the delay. \<open>2u32.pow\<close> wraps in the shipped build and
  \<open>Duration * u32\<close> panics on overflow, which is the result \<open>None\<close>.
\<close>

record retry_config =
  max_retries :: u32
  base_delay :: duration
  max_delay :: duration

definition retry_config_default :: retry_config where
  "retry_config_default = \<lparr>max_retries = 3, base_delay = millis 100, max_delay = secs 5\<rparr>"

definition retry_is_retryable :: "status \<Rightarrow> bool" where
  "retry_is_retryable s = (is_server_error s \<or> s = 429)"

definition backoff_delay :: "u32 \<Rightarrow> retry_config \<Rightarrow> duration option" where
  "backoff_delay attempt cfg =
     map_option (\<lambda>delay. min delay (max_delay cfg))
       (duration_mul (base_delay cfg) (unat ((2::u32) ^ unat attempt)))"

definition retry_on_response ::
  "retry_config \<Rightarrow> proxy_response \<Rightarrow> connection_context \<Rightarrow> failure + proxy_response" where
  "retry_on_response cfg res ctx =
     (if retry_is_retryable (res_status res) then
        let attempt = unwrap_or 0 (ctx_get dc_u32 EXT_RETRYABLE ctx) in
        if attempt < max_retries cfg
        then (case backoff_delay attempt cfg of
                None \<Rightarrow> Inl Panic
              | Some delay \<Rightarrow> Inl (Err (RateLimited delay)))
        else Inr res
      else Inr res)"

definition retry_middleware :: "retry_config \<Rightarrow> (unit, failure) middleware" where
  "retry_middleware cfg =
     \<lparr>mw_name = ''retry'',
      on_request = (\<lambda>u req ctx. (u, Inr (req, ctx))),
      on_response = (\<lambda>u res ctx. (u, retry_on_response cfg res ctx))\<rparr>"

section \<open>Delays\<close>

lemma pow2_u32: "unat ((2::u32) ^ n) = (if n < 32 then 2 ^ n else 0)"
proof -
  have "(2::u32) ^ n = of_nat (2 ^ n)" by simp
  then have "unat ((2::u32) ^ n) = (2 ^ n) mod 2 ^ 32"
    using unat_of_nat [where 'a = 32, of "2 ^ n"] by simp
  also have "\<dots> = (if n < 32 then 2 ^ n else 0)"
  proof (cases "n < 32")
    case True
    then have "(2::nat) ^ n < 2 ^ 32" by (intro power_strict_increasing) auto
    with True show ?thesis by simp
  next
    case False
    then have "(2::nat) ^ 32 dvd 2 ^ n" by (intro le_imp_power_dvd) simp
    with False show ?thesis by (simp del: power_numeral)
  qed
  finally show ?thesis .
qed

lemma backoff_delay_eq:
  assumes "attempt < 32" and "base_delay cfg * 2 ^ 31 < 2 ^ 64 * 1000000000"
  shows "backoff_delay attempt cfg = Some (min (base_delay cfg * 2 ^ unat attempt) (max_delay cfg))"
proof -
  have n: "unat attempt < 32" using assms(1) by (simp add: word_less_nat_alt)
  then have "(2::nat) ^ unat attempt \<le> 2 ^ 31" by (intro power_increasing) auto
  then have "base_delay cfg * 2 ^ unat attempt \<le> base_delay cfg * 2 ^ 31"
    by (rule mult_left_mono) simp
  also note assms(2)
  finally show ?thesis using n by (simp add: backoff_delay_def duration_mul_def pow2_u32)
qed

section \<open>Properties\<close>

text \<open>
  With a base delay below about 8.5 s (so that the product cannot overflow), the delay of
  attempts 0 to 31 is the base doubled once per attempt and capped at the maximum; it never
  decreases from one attempt to the next; and from attempt 32 on the multiplier has wrapped to
  zero, so that the delay is zero.
\<close>

theorem backoff_delay_doubles:
  assumes "base_delay cfg * 2 ^ 31 < 2 ^ 64 * 1000000000"
  shows "(attempt < 32 \<longrightarrow>
      backoff_delay attempt cfg = Some (min (base_delay cfg * 2 ^ unat attempt) (max_delay cfg))) \<and>
    (\<forall>n < attempt. attempt < 32 \<longrightarrow>
      the (backoff_delay n cfg) \<le> the (backoff_delay attempt cfg)) \<and>
    (32 \<le> attempt \<longrightarrow> backoff_delay attempt cfg = Some 0)"
proof (intro conjI impI allI)
  show "backoff_delay attempt cfg = Some (min (base_delay cfg * 2 ^ unat attempt) (max_delay cfg))"
    if "attempt < 32" using that assms by (rule backoff_delay_eq)
next
  fix n :: u32
  assume n: "n < attempt" and a: "attempt < 32"
  then have n32: "n < 32" by simp
  have "unat n \<le> unat attempt" using n by (simp add: word_less_nat_alt)
  then have "base_delay cfg * 2 ^ unat n \<le> base_delay cfg * 2 ^ unat attempt"
    by (intro mult_left_mono power_increasing) auto
  then show "the (backoff_delay n cfg) \<le> the (backoff_delay attempt cfg)"
    unfolding backoff_delay_eq [OF n32 assms] backoff_delay_eq [OF a assms] option.sel
    by (rule min.mono) simp
next
  assume "32 \<le> attempt"
  then have "\<not> unat attempt < 32" by (simp add: word_le_nat_alt)
  then show "backoff_delay attempt cfg = Some 0"
    by (simp add: backoff_delay_def duration_mul_def pow2_u32)
qed

theorem backoff_delay_doubles_witness:
  "backoff_delay 2 retry_config_default = Some (millis 400)"
proof -
  have "base_delay retry_config_default * 2 ^ 31 < 2 ^ 64 * 1000000000"
    by (simp add: retry_config_default_def millis_def)
  from backoff_delay_doubles [OF this, of 2] show ?thesis
    by (simp add: retry_config_default_def millis_def secs_def)
qed

end
