(* ===== verification/Tables.thy ===== *)
theory Tables
  imports Prelude "HOL-Library.Multiset"
begin

text \<open>
  SQL statements on one table. A table is the list of its rows in the order of insertion, and a row is
  found by a key. The lemmas relate the statements to a partial map from keys to rows, the abstract
  table: \<open>table_of\<close> is the abstraction function.
\<close>

definition row_at :: "('r \<Rightarrow> 'k) \<Rightarrow> 'k \<Rightarrow> 'r list \<Rightarrow> 'r option" where
  "row_at key k rows = find (\<lambda>r. key r = k) rows"

abbreviation table_of :: "('r \<Rightarrow> 'k) \<Rightarrow> 'r list \<Rightarrow> 'k \<rightharpoonup> 'r" where
  "table_of key rows \<equiv> \<lambda>k. row_at key k rows"

text \<open>\<open>UPDATE ... WHERE key = k\<close>, with the number of rows changed.\<close>

definition sql_update :: "('r \<Rightarrow> 'k) \<Rightarrow> 'k \<Rightarrow> ('r \<Rightarrow> 'r) \<Rightarrow> 'r list \<Rightarrow> 'r list \<times> nat" where
  "sql_update key k f rows =
     (map (\<lambda>r. if key r = k then f r else r) rows, length (filter (\<lambda>r. key r = k) rows))"

text \<open>\<open>DELETE ... WHERE p\<close>\<close>

definition sql_delete :: "('r \<Rightarrow> bool) \<Rightarrow> 'r list \<Rightarrow> 'r list \<times> nat" where
  "sql_delete p rows = (filter (\<lambda>r. \<not> p r) rows, length (filter p rows))"

text \<open>\<open>INSERT ... ON CONFLICT(key) DO UPDATE\<close>, where \<open>merge old new\<close> is the row after the update.\<close>

definition sql_upsert :: "('r \<Rightarrow> 'k) \<Rightarrow> ('r \<Rightarrow> 'r \<Rightarrow> 'r) \<Rightarrow> 'r \<Rightarrow> 'r list \<Rightarrow> 'r list" where
  "sql_upsert key merge new rows =
     (if list_ex (\<lambda>r. key r = key new) rows
      then map (\<lambda>r. if key r = key new then merge r new else r) rows
      else rows @ [new])"

text \<open>\<open>ORDER BY a, b\<close> for two columns; rows that agree on both keep the order of the table.\<close>

definition order_by2 :: "('r \<Rightarrow> 'a::linorder) \<Rightarrow> ('r \<Rightarrow> 'b::linorder) \<Rightarrow> 'r list \<Rightarrow> 'r list" where
  "order_by2 a b rows = sort_key a (sort_key b rows)"

text \<open>\<open>ORDER BY a DESC\<close>\<close>

definition order_desc :: "('r \<Rightarrow> 'a::linorder) \<Rightarrow> 'r list \<Rightarrow> 'r list" where
  "order_desc a rows = rev (sort_key a (rev rows))"

text \<open>Reading all rows of a statement, where the conversion of a row may fail.\<close>

fun collect_rows :: "('r \<Rightarrow> 'e + 'a) \<Rightarrow> 'r list \<Rightarrow> 'e + 'a list" where
  "collect_rows f [] = Inr []"
| "collect_rows f (r # rs) = res_bind (f r) (\<lambda>x. res_bind (collect_rows f rs) (\<lambda>xs. Inr (x # xs)))"

section \<open>Lookup\<close>

lemma row_at_Nil [simp]: "row_at key k [] = None"
  by (simp add: row_at_def)

lemma row_at_Cons [simp]: "row_at key k (r # rs) = (if key r = k then Some r else row_at key k rs)"
  by (simp add: row_at_def)

lemma row_at_append: "row_at key k (xs @ ys) = (case row_at key k xs of None \<Rightarrow> row_at key k ys | Some r \<Rightarrow> Some r)"
  by (induction xs) auto

lemma row_at_Some: "row_at key k rows = Some r \<Longrightarrow> r \<in> set rows \<and> key r = k"
  by (induction rows) (auto split: if_splits)

lemma row_at_None_iff: "row_at key k rows = None \<longleftrightarrow> k \<notin> key ` set rows"
  by (induction rows) auto

lemma row_at_None_list_ex: "row_at key k rows = None \<longleftrightarrow> \<not> list_ex (\<lambda>r. key r = k) rows"
  by (induction rows) auto

lemma row_at_in: "distinct (map key rows) \<Longrightarrow> r \<in> set rows \<Longrightarrow> row_at key (key r) rows = Some r"
  by (induction rows) (auto simp: rev_image_eqI)

lemma row_at_iff:
  "distinct (map key rows) \<Longrightarrow> row_at key k rows = Some r \<longleftrightarrow> r \<in> set rows \<and> key r = k"
  using row_at_in row_at_Some by fastforce

text \<open>A table with distinct keys and a rearrangement of it are the same abstract table.\<close>

lemma row_at_perm:
  "distinct (map key xs) \<Longrightarrow> distinct (map key ys) \<Longrightarrow> set xs = set ys \<Longrightarrow> row_at key k xs = row_at key k ys"
proof (cases "row_at key k ys")
  case None
  assume "set xs = set ys"
  with None show ?thesis by (metis row_at_None_iff)
next
  case (Some r)
  assume "distinct (map key xs)" "set xs = set ys"
  with row_at_Some [OF Some] Some show ?thesis by (simp add: row_at_iff)
qed

section \<open>Statements\<close>

lemma count_key:
  "distinct (map key rows) \<Longrightarrow> length (filter (\<lambda>r. key r = k) rows) = (if row_at key k rows = None then 0 else 1)"
proof (induction rows)
  case (Cons r rows)
  have "row_at key k rows = None" if "key r = k"
    using Cons.prems that by (auto simp: row_at_None_iff)
  with Cons show ?case by auto
qed simp

lemma row_at_map:
  assumes "\<And>r. key (f r) = key r"
  shows "row_at key k' (map (\<lambda>r. if key r = k then f r else r) rows) =
    (if k' = k then map_option f (row_at key k rows) else row_at key k' rows)"
  by (induction rows) (auto simp: assms)

lemma map_key_map:
  assumes "\<And>r. key (f r) = key r"
  shows "map key (map (\<lambda>r. if key r = k then f r else r) rows) = map key rows"
  by (induction rows) (auto simp: assms)

lemma sql_update_fst: "fst (sql_update key k f rows) = map (\<lambda>r. if key r = k then f r else r) rows"
  by (simp add: sql_update_def)

lemma sql_update_count:
  "distinct (map key rows) \<Longrightarrow> snd (sql_update key k f rows) = 0 \<longleftrightarrow> row_at key k rows = None"
  by (simp add: sql_update_def count_key)

lemma sql_delete_count: "snd (sql_delete (\<lambda>r. key r = k) rows) = 0 \<longleftrightarrow> row_at key k rows = None"
  by (auto simp: sql_delete_def row_at_None_iff filter_empty_conv)

lemma row_at_filter_key:
  "row_at key k' (filter (\<lambda>r. key r \<noteq> k) rows) = (if k' = k then None else row_at key k' rows)"
  by (induction rows) auto

lemma row_at_upsert:
  assumes "\<And>r. key (merge r new) = key r"
  shows "row_at key k (sql_upsert key merge new rows) =
    (if k = key new
     then Some (case row_at key k rows of None \<Rightarrow> new | Some r \<Rightarrow> merge r new)
     else row_at key k rows)"
proof (cases "list_ex (\<lambda>r. key r = key new) rows")
  case True
  then have "row_at key (key new) rows \<noteq> None" by (simp add: row_at_None_list_ex)
  with True show ?thesis
    by (auto simp: sql_upsert_def row_at_map [where f = "\<lambda>r. merge r new"] assms split: option.split)
next
  case False
  then have "row_at key (key new) rows = None" by (simp add: row_at_None_list_ex)
  with False show ?thesis by (auto simp: sql_upsert_def row_at_append split: option.split)
qed

lemma distinct_upsert:
  assumes "\<And>r. key (merge r new) = key r" "distinct (map key rows)"
  shows "distinct (map key (sql_upsert key merge new rows))"
  using assms(2)
  by (auto simp: sql_upsert_def map_key_map [where f = "\<lambda>r. merge r new"] assms(1) list_ex_iff simp del: map_map)

lemma set_key_upsert:
  assumes "\<And>r. key (merge r new) = key r"
  shows "key ` set (sql_upsert key merge new rows) = insert (key new) (key ` set rows)"
proof -
  have "key ` set (map (\<lambda>r. if key r = key new then merge r new else r) rows) = key ` set rows"
    using map_key_map [where f = "\<lambda>r. merge r new" and key = key and k = "key new", OF assms]
    by (metis list.set_map)
  then show ?thesis
    by (auto simp: sql_upsert_def list_ex_iff simp del: list.set_map set_map intro: rev_image_eqI)
qed

lemma distinct_filter: "distinct (map key rows) \<Longrightarrow> distinct (map key (filter p rows))"
  by (rule distinct_map_filter)

section \<open>Order\<close>

lemma set_order_by2 [simp]: "set (order_by2 a b rows) = set rows"
  by (simp add: order_by2_def)

lemma length_order_by2 [simp]: "length (order_by2 a b rows) = length rows"
  by (simp add: order_by2_def)

lemma distinct_sort_key: "distinct (map key (sort_key a rows)) = distinct (map key rows)"
  by (metis mset_map mset_eq_imp_distinct_iff mset_sort)

lemma distinct_order_by2 [simp]: "distinct (map key (order_by2 a b rows)) = distinct (map key rows)"
  by (simp add: order_by2_def distinct_sort_key)

lemma order_by2_sorted: "sorted (map a (order_by2 a b rows))"
  by (simp add: order_by2_def)

lemma set_order_desc [simp]: "set (order_desc a rows) = set rows"
  by (simp add: order_desc_def)

lemma order_desc_sorted: "sorted (rev (map a (order_desc a rows)))"
  by (simp add: order_desc_def rev_map)

section \<open>Rows\<close>

lemma collect_rows_Inr:
  "collect_rows f rows = Inr xs \<Longrightarrow> list_all2 (\<lambda>r x. f r = Inr x) rows xs"
  by (induction rows arbitrary: xs) (auto simp: res_bind_Inr_iff)

lemma collect_rows_total:
  "(\<And>r. r \<in> set rows \<Longrightarrow> f r = Inr (g r)) \<Longrightarrow> collect_rows f rows = Inr (map g rows)"
  by (induction rows) auto

lemma collect_rows_map_key:
  assumes "collect_rows f rows = Inr xs" "\<And>r x. f r = Inr x \<Longrightarrow> key' x = key r"
  shows "map key' xs = map key rows"
  using collect_rows_Inr [OF assms(1)] by (induction rule: list_all2_induct) (auto simp: assms(2))

end
