(* ===== verification/Sqlite.thy ===== *)
theory Sqlite
  imports Tables Storage_Types
begin

text \<open>
  \<open>crates/storage-sqlite/src/lib.rs\<close> with the schema of its migrations: providers, models, channels,
  model mappings and aliases. The state is the database, one list of rows per table.

  \<^item> Text columns are compared byte by byte, which is the order of \<open>string\<close>. Rows that agree on all
    \<open>ORDER BY\<close> columns come in an order SQL does not fix; the model keeps the order of insertion and no
    theorem depends on it.
  \<^item> \<open>sqlite_env\<close> is what a call reads besides the database: the outcome of taking a connection from
    the pool, whether the connection enforces foreign keys (the library is built with that default),
    the clock in the forms the statements use, and the conversions and texts of the packages
    \<open>rusqlite\<close> and \<open>chrono\<close>.
  \<^item> Besides those of the pool, the errors are the ones the statements can raise: violated
    constraints and values out of the range of a column's type. Failures of the disk and of the task
    that runs a statement are not modelled.
\<close>

section \<open>Database\<close>

record channel_row =
  r_id :: string
  r_name :: string
  r_api_key :: string
  r_protocol :: string
  r_protocols :: string
  r_is_builtin :: bool
  r_enabled :: bool
  r_created_at :: i64
  r_updated_at :: i64
  r_health_status :: string
  r_cooldown_until :: "string option"
  r_consecutive_failures :: int
  r_billing_type :: string
  r_monthly_quota :: "int option"
  r_quota_policy :: string
  r_priority :: int
  r_force_protocol :: "string option"

record provider_row =
  pr_id :: string
  pr_name :: string
  pr_created_at :: i64

record model_row =
  mr_id :: string
  mr_provider_id :: string
  mr_client_name :: string
  mr_price_input :: f64
  mr_price_output :: f64
  mr_currency :: string
  mr_context_window :: i64
  mr_created_at :: i64

record seed_row =
  sr_key :: string
  sr_value :: string
  sr_updated_at :: i64

record sqlite_db =
  t_providers :: "provider_row list"
  t_models :: "model_row list"
  t_channels :: "channel_row list"
  t_mappings :: "model_mapping list"
  t_aliases :: "model_alias list"
  t_alias_seq :: nat
  t_costs :: "cost_record list"
  t_switch_logs :: "switch_log list"
  t_fees :: "subscription_fee list"
  t_fee_seq :: nat
  t_seed_metadata :: "seed_row list"
  user_version :: int

record sqlite_env =
  q_pool :: "string option"
  q_foreign_keys :: bool
  q_now_unix :: i64
  q_datetime :: string
  q_cooldown_end :: string
  q_cutoff :: "u32 \<Rightarrow> string"
  q_rfc3339 :: "i64 \<Rightarrow> string"
  q_sum :: "f64 list \<Rightarrow> f64"
  q_pick :: "cost_record list \<Rightarrow> cost_record"
  q_range_error :: "nat \<Rightarrow> int \<Rightarrow> string"
  q_param_error :: string
  q_no_rows :: string
  q_overflow :: string
  q_null_error :: string

definition empty_db :: sqlite_db where
  "empty_db =
     \<lparr>t_providers = [], t_models = [], t_channels = [], t_mappings = [], t_aliases = [], t_alias_seq = 0,
      t_costs = [], t_switch_logs = [], t_fees = [], t_fee_seq = 0, t_seed_metadata = [], user_version = 0\<rparr>"

text \<open>\<open>pool.get()\<close> in front of a query and in front of an update.\<close>

definition with_conn :: "sqlite_env \<Rightarrow> storage_error + 'a \<Rightarrow> storage_error + 'a" where
  "with_conn Q r = (case q_pool Q of Some e \<Rightarrow> Inl (Connection e) | None \<Rightarrow> r)"

definition with_conn_upd ::
  "sqlite_env \<Rightarrow> sqlite_db \<Rightarrow> sqlite_db \<times> (storage_error + 'a) \<Rightarrow> sqlite_db \<times> (storage_error + 'a)" where
  "with_conn_upd Q db r = (case q_pool Q of Some e \<Rightarrow> (db, Inl (Connection e)) | None \<Rightarrow> r)"

section \<open>Providers and models\<close>

definition provider_of_row :: "sqlite_env \<Rightarrow> provider_row \<Rightarrow> provider" where
  "provider_of_row Q r = \<lparr>pv_id = pr_id r, pv_name = pr_name r, pv_created_at = q_rfc3339 Q (pr_created_at r)\<rparr>"

definition sqlite_list_providers :: "sqlite_env \<Rightarrow> sqlite_db \<Rightarrow> storage_error + provider list" where
  "sqlite_list_providers Q db =
     with_conn Q (Inr (map (provider_of_row Q) (sort_key pr_id (t_providers db))))"

definition sqlite_get_provider :: "sqlite_env \<Rightarrow> sqlite_db \<Rightarrow> string \<Rightarrow> storage_error + provider option" where
  "sqlite_get_provider Q db k =
     with_conn Q (Inr (map_option (provider_of_row Q) (row_at pr_id k (t_providers db))))"

text \<open>The subquery counts the mappings of the model's client name.\<close>

definition model_of_row :: "sqlite_env \<Rightarrow> sqlite_db \<Rightarrow> model_row \<Rightarrow> storage_error + model" where
  "model_of_row Q db r =
     (let n = length (filter (\<lambda>m. mm_client_name m = mr_client_name r) (t_mappings db))
      in if 2 ^ 32 \<le> n then Inl (Backend (q_range_error Q 8 (int n)))
         else Inr \<lparr>md_id = mr_id r, md_provider_id = mr_provider_id r, md_client_name = mr_client_name r,
                   md_price_input = mr_price_input r, md_price_output = mr_price_output r,
                   md_currency = mr_currency r, md_context_window = mr_context_window r,
                   md_created_at = q_rfc3339 Q (mr_created_at r), md_channel_count = of_nat n\<rparr>)"

definition sqlite_list_models :: "sqlite_env \<Rightarrow> sqlite_db \<Rightarrow> string option \<Rightarrow> storage_error + model list" where
  "sqlite_list_models Q db provider_id =
     with_conn Q
       (case provider_id of
          Some pid \<Rightarrow>
            collect_rows (model_of_row Q db)
              (sort_key mr_client_name (filter (\<lambda>r. mr_provider_id r = pid) (t_models db)))
        | None \<Rightarrow> collect_rows (model_of_row Q db) (order_by2 mr_provider_id mr_client_name (t_models db)))"

definition sqlite_get_model :: "sqlite_env \<Rightarrow> sqlite_db \<Rightarrow> string \<Rightarrow> storage_error + model option" where
  "sqlite_get_model Q db k =
     with_conn Q
       (case row_at mr_id k (t_models db) of
          None \<Rightarrow> Inr None
        | Some r \<Rightarrow> res_bind (model_of_row Q db r) (\<lambda>m. Inr (Some m)))"

section \<open>Channels\<close>

definition row_to_channel :: "sqlite_env \<Rightarrow> channel_row \<Rightarrow> storage_error + channel" where
  "row_to_channel Q r =
     (let effective_health = (if r_api_key r = [] then health_status_str HsUnavailable else r_health_status r)
      in if \<not> (0 \<le> r_consecutive_failures r \<and> r_consecutive_failures r < 2 ^ 32)
         then Inl (Backend (q_range_error Q 11 (r_consecutive_failures r)))
         else if \<not> is_none_or (\<lambda>q. 0 \<le> q) (r_monthly_quota r)
         then Inl (Backend (q_range_error Q 13 (the (r_monthly_quota r))))
         else if \<not> (0 \<le> r_priority r \<and> r_priority r < 2 ^ 32)
         then Inl (Backend (q_range_error Q 15 (r_priority r)))
         else Inr \<lparr>ch_id = r_id r, ch_name = r_name r, ch_api_key = r_api_key r, ch_protocol = r_protocol r,
                   ch_protocols = r_protocols r, ch_is_builtin = r_is_builtin r, ch_enabled = r_enabled r,
                   ch_created_at = r_created_at r, ch_updated_at = r_updated_at r,
                   ch_health_status = effective_health, ch_cooldown_until = r_cooldown_until r,
                   ch_consecutive_failures = of_int (r_consecutive_failures r),
                   ch_billing_type = r_billing_type r,
                   ch_monthly_quota = map_option of_int (r_monthly_quota r),
                   ch_quota_policy = r_quota_policy r, ch_priority = of_int (r_priority r),
                   ch_force_protocol = r_force_protocol r\<rparr>)"

definition sqlite_list_channels :: "sqlite_env \<Rightarrow> sqlite_db \<Rightarrow> string option \<Rightarrow> storage_error + channel list" where
  "sqlite_list_channels Q db model_id =
     with_conn Q
       (case model_id of
          Some mid \<Rightarrow>
            collect_rows (row_to_channel Q)
              (sort_key r_id
                (filter (\<lambda>r. list_ex (\<lambda>m. mm_client_name m = mid \<and> mm_channel_id m = r_id r) (t_mappings db))
                  (t_channels db)))
        | None \<Rightarrow> collect_rows (row_to_channel Q) (order_by2 r_priority r_id (t_channels db)))"

definition sqlite_get_channel :: "sqlite_env \<Rightarrow> sqlite_db \<Rightarrow> string \<Rightarrow> storage_error + channel option" where
  "sqlite_get_channel Q db k =
     with_conn Q
       (case row_at r_id k (t_channels db) of
          None \<Rightarrow> Inr None
        | Some r \<Rightarrow> res_bind (row_to_channel Q r) (\<lambda>c. Inr (Some c)))"

definition new_channel_row :: "sqlite_env \<Rightarrow> channel \<Rightarrow> channel_row" where
  "new_channel_row Q c =
     \<lparr>r_id = ch_id c, r_name = ch_name c, r_api_key = ch_api_key c, r_protocol = ch_protocol c,
      r_protocols = ch_protocols c, r_is_builtin = ch_is_builtin c, r_enabled = ch_enabled c,
      r_created_at = q_now_unix Q, r_updated_at = q_now_unix Q, r_health_status = ch_health_status c,
      r_cooldown_until = None, r_consecutive_failures = 0, r_billing_type = ch_billing_type c,
      r_monthly_quota = map_option uint (ch_monthly_quota c), r_quota_policy = ch_quota_policy c,
      r_priority = uint (ch_priority c), r_force_protocol = ch_force_protocol c\<rparr>"

definition merge_channel_row :: "channel_row \<Rightarrow> channel_row \<Rightarrow> channel_row" where
  "merge_channel_row old excluded =
     old\<lparr>r_name := r_name excluded,
         r_api_key := (if r_api_key excluded \<noteq> [] then r_api_key excluded else r_api_key old),
         r_protocol := r_protocol excluded, r_protocols := r_protocols excluded,
         r_is_builtin := r_is_builtin excluded, r_enabled := r_enabled excluded,
         r_updated_at := r_updated_at excluded, r_health_status := r_health_status excluded,
         r_billing_type := r_billing_type excluded, r_monthly_quota := r_monthly_quota excluded,
         r_quota_policy := r_quota_policy excluded, r_priority := r_priority excluded,
         r_force_protocol := r_force_protocol excluded\<rparr>"

text \<open>A \<open>u64\<close> beyond the range of the column is refused as a parameter.\<close>

definition sqlite_upsert_channel :: "sqlite_env \<Rightarrow> sqlite_db \<Rightarrow> channel \<Rightarrow> sqlite_db \<times> (storage_error + unit)" where
  "sqlite_upsert_channel Q db c =
     with_conn_upd Q db
       (if is_some_and (\<lambda>q. 2 ^ 63 \<le> uint q) (ch_monthly_quota c) then (db, Inl (Backend (q_param_error Q)))
        else (db\<lparr>t_channels := sql_upsert r_id merge_channel_row (new_channel_row Q c) (t_channels db)\<rparr>, Inr ()))"

definition channel_not_found :: "string \<Rightarrow> storage_error" where
  "channel_not_found k = NotFound (''channel not found: '' @ k)"

text \<open>The statements of the form \<open>UPDATE channels SET ... WHERE id = ?\<close>.\<close>

definition update_channel_row ::
  "sqlite_env \<Rightarrow> sqlite_db \<Rightarrow> string \<Rightarrow> (channel_row \<Rightarrow> channel_row) \<Rightarrow> sqlite_db \<times> (storage_error + unit)" where
  "update_channel_row Q db k f =
     with_conn_upd Q db
       (let (chs, n) = sql_update r_id k f (t_channels db)
        in (db\<lparr>t_channels := chs\<rparr>, if n = 0 then Inl (channel_not_found k) else Inr ()))"

definition sqlite_set_channel_enabled ::
  "sqlite_env \<Rightarrow> sqlite_db \<Rightarrow> string \<Rightarrow> bool \<Rightarrow> sqlite_db \<times> (storage_error + unit)" where
  "sqlite_set_channel_enabled Q db k b =
     update_channel_row Q db k (\<lambda>r. r\<lparr>r_enabled := b, r_updated_at := q_now_unix Q\<rparr>)"

definition sqlite_set_channel_api_key ::
  "sqlite_env \<Rightarrow> sqlite_db \<Rightarrow> string \<Rightarrow> string \<Rightarrow> sqlite_db \<times> (storage_error + unit)" where
  "sqlite_set_channel_api_key Q db k api_key =
     update_channel_row Q db k (\<lambda>r. r\<lparr>r_api_key := api_key, r_updated_at := q_now_unix Q\<rparr>)"

text \<open>\<open>i64::try_from(q).unwrap_or(i64::MAX)\<close>\<close>

definition clamp_i64 :: "u64 \<Rightarrow> int" where
  "clamp_i64 q = (if uint q < 2 ^ 63 then uint q else 2 ^ 63 - 1)"

definition apply_channel_update :: "sqlite_env \<Rightarrow> channel_update \<Rightarrow> channel_row \<Rightarrow> channel_row" where
  "apply_channel_update Q u r =
     r\<lparr>r_updated_at := q_now_unix Q,
       r_name := unwrap_or (r_name r) (cu_name u),
       r_enabled := unwrap_or (r_enabled r) (cu_enabled u),
       r_priority := unwrap_or (r_priority r) (map_option uint (cu_priority u)),
       r_monthly_quota := (case cu_monthly_quota u of None \<Rightarrow> r_monthly_quota r | Some q \<Rightarrow> Some (clamp_i64 q)),
       r_quota_policy := unwrap_or (r_quota_policy r) (cu_quota_policy u),
       r_protocols := unwrap_or (r_protocols r) (cu_protocols u),
       r_force_protocol := (case cu_force_protocol u of None \<Rightarrow> r_force_protocol r | Some p \<Rightarrow> Some p)\<rparr>"

definition sqlite_update_channel ::
  "sqlite_env \<Rightarrow> sqlite_db \<Rightarrow> string \<Rightarrow> channel_update \<Rightarrow> sqlite_db \<times> (storage_error + channel)" where
  "sqlite_update_channel Q db k u =
     (case update_channel_row Q db k (apply_channel_update Q u) of
        (db', Inl e) \<Rightarrow> (db', Inl e)
      | (db', Inr _) \<Rightarrow>
          (db', case row_at r_id k (t_channels db') of
                  None \<Rightarrow> Inl (Backend (q_no_rows Q)) | Some r \<Rightarrow> row_to_channel Q r))"

text \<open>With foreign keys, deleting a channel deletes its mappings (\<open>ON DELETE CASCADE\<close>).\<close>

definition sqlite_delete_channel :: "sqlite_env \<Rightarrow> sqlite_db \<Rightarrow> string \<Rightarrow> sqlite_db \<times> (storage_error + unit)" where
  "sqlite_delete_channel Q db k =
     with_conn_upd Q db
       (let (chs, n) = sql_delete (\<lambda>r. r_id r = k) (t_channels db)
        in (db\<lparr>t_channels := chs,
               t_mappings := (if q_foreign_keys Q \<and> n \<noteq> 0 then filter (\<lambda>m. mm_channel_id m \<noteq> k) (t_mappings db)
                              else t_mappings db)\<rparr>,
            if n = 0 then Inl (channel_not_found k) else Inr ()))"

definition sqlite_mark_channel_healthy :: "sqlite_env \<Rightarrow> sqlite_db \<Rightarrow> string \<Rightarrow> sqlite_db \<times> (storage_error + unit)" where
  "sqlite_mark_channel_healthy Q db k =
     update_channel_row Q db k
       (\<lambda>r. r\<lparr>r_health_status := health_status_str HsHealthy, r_cooldown_until := None,
              r_consecutive_failures := 0, r_updated_at := q_now_unix Q\<rparr>)"

definition failure_status :: "int \<Rightarrow> channel_health_status" where
  "failure_status failures =
     (if 3 \<le> failures then HsCooldown else if 1 \<le> failures then HsDegraded else HsHealthy)"

text \<open>Three statements: the first takes effect even if the second cannot read the counter as an \<open>i32\<close>.\<close>

definition sqlite_record_channel_failure ::
  "sqlite_env \<Rightarrow> sqlite_db \<Rightarrow> string \<Rightarrow> sqlite_db \<times> (storage_error + unit)" where
  "sqlite_record_channel_failure Q db k =
     with_conn_upd Q db
       (let chs = fst (sql_update r_id k
              (\<lambda>r. r\<lparr>r_consecutive_failures := r_consecutive_failures r + 1, r_updated_at := q_now_unix Q\<rparr>)
              (t_channels db));
            db' = db\<lparr>t_channels := chs\<rparr>
        in case row_at r_id k chs of
             None \<Rightarrow> (db', Inl (Backend (q_no_rows Q)))
           | Some r \<Rightarrow>
               let failures = r_consecutive_failures r in
               if \<not> (- (2 ^ 31) \<le> failures \<and> failures < 2 ^ 31)
               then (db', Inl (Backend (q_range_error Q 0 failures)))
               else
                 let status = failure_status failures;
                     cooldown_until = (if status = HsCooldown then Some (q_cooldown_end Q) else None)
                 in (db'\<lparr>t_channels := fst (sql_update r_id k
                       (\<lambda>r. r\<lparr>r_health_status := health_status_str status, r_cooldown_until := cooldown_until\<rparr>) chs)\<rparr>,
                     Inr ()))"

section \<open>Mappings\<close>

definition sqlite_list_mappings :: "sqlite_env \<Rightarrow> sqlite_db \<Rightarrow> string \<Rightarrow> storage_error + model_mapping list" where
  "sqlite_list_mappings Q db channel_id =
     with_conn Q (Inr (sort_key mm_id (filter (\<lambda>m. mm_channel_id m = channel_id) (t_mappings db))))"

definition sqlite_list_all_mappings :: "sqlite_env \<Rightarrow> sqlite_db \<Rightarrow> storage_error + model_mapping list" where
  "sqlite_list_all_mappings Q db = with_conn Q (Inr (order_by2 mm_channel_id mm_client_name (t_mappings db)))"

definition sqlite_upsert_mapping ::
  "sqlite_env \<Rightarrow> sqlite_db \<Rightarrow> model_mapping \<Rightarrow> sqlite_db \<times> (storage_error + unit)" where
  "sqlite_upsert_mapping Q db m =
     with_conn_upd Q db
       (if q_foreign_keys Q \<and> row_at r_id (mm_channel_id m) (t_channels db) = None
        then (db, Inl (channel_not_found (mm_channel_id m)))
        else (db\<lparr>t_mappings := sql_upsert mm_id (\<lambda>old new. new) m (t_mappings db)\<rparr>, Inr ()))"

definition mapping_not_found :: "string \<Rightarrow> storage_error" where
  "mapping_not_found k = NotFound (''mapping not found: '' @ k)"

definition sqlite_set_mapping_enabled ::
  "sqlite_env \<Rightarrow> sqlite_db \<Rightarrow> string \<Rightarrow> bool \<Rightarrow> sqlite_db \<times> (storage_error + unit)" where
  "sqlite_set_mapping_enabled Q db k b =
     with_conn_upd Q db
       (let (ms, n) = sql_update mm_id k (\<lambda>m. m\<lparr>mm_enabled := b\<rparr>) (t_mappings db)
        in (db\<lparr>t_mappings := ms\<rparr>, if n = 0 then Inl (mapping_not_found k) else Inr ()))"

definition sqlite_delete_mapping :: "sqlite_env \<Rightarrow> sqlite_db \<Rightarrow> string \<Rightarrow> sqlite_db \<times> (storage_error + unit)" where
  "sqlite_delete_mapping Q db k =
     with_conn_upd Q db
       (let (ms, n) = sql_delete (\<lambda>m. mm_id m = k) (t_mappings db)
        in (db\<lparr>t_mappings := ms\<rparr>, if n = 0 then Inl (mapping_not_found k) else Inr ()))"

section \<open>Aliases\<close>

definition sqlite_list_model_aliases :: "sqlite_env \<Rightarrow> sqlite_db \<Rightarrow> storage_error + model_alias list" where
  "sqlite_list_model_aliases Q db = with_conn Q (Inr (sort_key ma_alias_name (t_aliases db)))"

definition sqlite_get_model_alias_target ::
  "sqlite_env \<Rightarrow> sqlite_db \<Rightarrow> string \<Rightarrow> storage_error + string option" where
  "sqlite_get_model_alias_target Q db alias_name =
     with_conn Q (Inr (map_option ma_target_model
       (find (\<lambda>a. ma_alias_name a = alias_name \<and> ma_enabled a) (t_aliases db))))"

text \<open>
  The identifier of a new row is one more than the greatest the table ever had; after \<open>2 ^ 63 - 1\<close> a
  column with \<open>AUTOINCREMENT\<close> refuses new rows.
\<close>

definition autoincrement :: "nat \<Rightarrow> nat option" where
  "autoincrement seq = (if Suc seq < 2 ^ 63 then Some (Suc seq) else None)"

definition sequence_full :: storage_error where
  "sequence_full = Backend ''database or disk is full''"

definition new_alias_row :: "sqlite_env \<Rightarrow> nat \<Rightarrow> model_alias_request \<Rightarrow> model_alias" where
  "new_alias_row Q n req =
     \<lparr>ma_id = of_nat n, ma_alias_name = mar_alias_name req, ma_target_model = mar_target_model req,
      ma_enabled = mar_enabled req, ma_created_at = q_datetime Q, ma_updated_at = q_datetime Q\<rparr>"

definition merge_alias_row :: "model_alias \<Rightarrow> model_alias \<Rightarrow> model_alias" where
  "merge_alias_row old excluded =
     old\<lparr>ma_target_model := ma_target_model excluded, ma_enabled := ma_enabled excluded,
         ma_updated_at := ma_updated_at excluded\<rparr>"

definition put_alias :: "sqlite_env \<Rightarrow> model_alias_request \<Rightarrow> sqlite_db \<Rightarrow> sqlite_db \<times> (storage_error + unit)" where
  "put_alias Q req db =
     (case row_at ma_alias_name (mar_alias_name req) (t_aliases db) of
        Some _ \<Rightarrow>
          (db\<lparr>t_aliases := sql_upsert ma_alias_name merge_alias_row (new_alias_row Q 0 req) (t_aliases db)\<rparr>, Inr ())
      | None \<Rightarrow>
          (case autoincrement (t_alias_seq db) of
             None \<Rightarrow> (db, Inl sequence_full)
           | Some n \<Rightarrow>
               (db\<lparr>t_aliases := sql_upsert ma_alias_name merge_alias_row (new_alias_row Q n req) (t_aliases db),
                   t_alias_seq := n\<rparr>, Inr ())))"

definition sqlite_upsert_model_alias ::
  "sqlite_env \<Rightarrow> sqlite_db \<Rightarrow> model_alias_request \<Rightarrow> sqlite_db \<times> (storage_error + model_alias)" where
  "sqlite_upsert_model_alias Q db req =
     with_conn_upd Q db
       (case put_alias Q req db of
          (db', Inl e) \<Rightarrow> (db', Inl e)
        | (db', Inr _) \<Rightarrow>
            (db', case row_at ma_alias_name (mar_alias_name req) (t_aliases db') of
                    None \<Rightarrow> Inl (Backend (q_no_rows Q)) | Some a \<Rightarrow> Inr a))"

definition show_int :: "int \<Rightarrow> string" where
  "show_int i = (if i < 0 then ''-'' @ show_nat (nat (- i)) else show_nat (nat i))"

definition alias_not_found :: "i64 \<Rightarrow> storage_error" where
  "alias_not_found k = NotFound (''alias not found: '' @ show_int (sint k))"

definition sqlite_delete_model_alias :: "sqlite_env \<Rightarrow> sqlite_db \<Rightarrow> i64 \<Rightarrow> sqlite_db \<times> (storage_error + unit)" where
  "sqlite_delete_model_alias Q db k =
     with_conn_upd Q db
       (let (as, n) = sql_delete (\<lambda>a. ma_id a = k) (t_aliases db)
        in (db\<lparr>t_aliases := as\<rparr>, if n = 0 then Inl (alias_not_found k) else Inr ()))"

definition sqlite_set_model_alias_enabled ::
  "sqlite_env \<Rightarrow> sqlite_db \<Rightarrow> i64 \<Rightarrow> bool \<Rightarrow> sqlite_db \<times> (storage_error + unit)" where
  "sqlite_set_model_alias_enabled Q db k b =
     with_conn_upd Q db
       (let (as, n) = sql_update ma_id k (\<lambda>a. a\<lparr>ma_enabled := b, ma_updated_at := q_datetime Q\<rparr>) (t_aliases db)
        in (db\<lparr>t_aliases := as\<rparr>, if n = 0 then Inl (alias_not_found k) else Inr ()))"

section \<open>Available channels\<close>

definition available_models :: "sqlite_db \<Rightarrow> string \<Rightarrow> available_model_info list" where
  "available_models db ch =
     map (\<lambda>m. \<lparr>am_mapping_id = mm_id m, am_client_name = mm_client_name m, am_upstream_name = mm_upstream_name m\<rparr>)
       (sort_key mm_client_name (filter (\<lambda>m. mm_channel_id m = ch \<and> mm_enabled m) (t_mappings db)))"

definition sqlite_list_available_channels ::
  "sqlite_env \<Rightarrow> sqlite_db \<Rightarrow> storage_error + available_channel_info list" where
  "sqlite_list_available_channels Q db =
     with_conn Q (Inr (concat (map (\<lambda>r.
        let models = available_models db (r_id r) in
        if models = [] then []
        else [\<lparr>ac_channel_id = r_id r, ac_channel_name = r_name r, ac_protocol = r_protocol r,
               ac_protocols = r_protocols r, ac_health_status = r_health_status r, ac_enabled = True,
               ac_models = models\<rparr>])
        (order_by2 r_priority r_id (filter r_enabled (t_channels db))))))"

section \<open>Migrations\<close>

text \<open>The rows the two migrations insert, where they are not there yet.\<close>

definition seed_row_if_absent :: "sqlite_env \<Rightarrow> string \<Rightarrow> string \<Rightarrow> seed_row list \<Rightarrow> seed_row list" where
  "seed_row_if_absent Q k v rows =
     (if row_at sr_key k rows = None
      then rows @ [\<lparr>sr_key = k, sr_value = v, sr_updated_at = q_now_unix Q\<rparr>] else rows)"

definition migration_v1 :: "sqlite_env \<Rightarrow> sqlite_db \<Rightarrow> sqlite_db" where
  "migration_v1 Q db =
     db\<lparr>t_seed_metadata :=
       seed_row_if_absent Q ''source'' ''pending'' (seed_row_if_absent Q ''version'' ''0'' (t_seed_metadata db))\<rparr>"

definition insert_alias_if_absent :: "sqlite_env \<Rightarrow> string \<Rightarrow> string \<Rightarrow> sqlite_db \<Rightarrow> sqlite_db" where
  "insert_alias_if_absent Q alias_name target db =
     (if row_at ma_alias_name alias_name (t_aliases db) = None
      then fst (put_alias Q \<lparr>mar_alias_name = alias_name, mar_target_model = target, mar_enabled = True\<rparr> db)
      else db)"

text \<open>This migration creates the table it fills, so its five inserts never meet the end of the sequence.\<close>

definition migration_v2 :: "sqlite_env \<Rightarrow> sqlite_db \<Rightarrow> sqlite_db" where
  "migration_v2 Q db =
     fold (\<lambda>a. insert_alias_if_absent Q a []) [''gpt-5.5'', ''gpt-5.4'', ''gpt-5.4-mini'', ''gpt-5.3-codex'', ''gpt-5.2''] db"

definition sqlite_migrate :: "sqlite_env \<Rightarrow> sqlite_db \<Rightarrow> sqlite_db \<times> (storage_error + unit)" where
  "sqlite_migrate Q db =
     with_conn_upd Q db
       (let version = user_version db;
            db1 = (if version < 1 then migration_v1 Q db else db);
            db2 = (if version < 2 then migration_v2 Q db1 else db1)
        in (db2\<lparr>user_version := 2\<rparr>, Inr ()))"

end
