(* ===== verification/Sqlite_Cost.thy ===== *)
theory Sqlite_Cost
  imports Sqlite
begin

text \<open>
  The rest of \<open>crates/storage-sqlite/src/lib.rs\<close>: cost records with their queries and aggregates, switch
  logs, subscription fees, and the backend as an instance of the \<open>Storage\<close> trait.
\<close>

section \<open>Cost records\<close>

text \<open>A column declared \<open>REAL NOT NULL\<close> refuses NaN, which the engine stores as \<open>NULL\<close>.\<close>

definition sqlite_insert_cost_record ::
  "sqlite_env \<Rightarrow> sqlite_db \<Rightarrow> cost_record \<Rightarrow> sqlite_db \<times> (storage_error + unit)" where
  "sqlite_insert_cost_record Q db r =
     with_conn_upd Q db
       (if cr_cost r = NaN then (db, Inl (Backend ''NOT NULL constraint failed: cost_records.cost''))
        else if row_at cr_id (cr_id r) (t_costs db) \<noteq> None
        then (db, Inl (Backend ''UNIQUE constraint failed: cost_records.id''))
        else (db\<lparr>t_costs := t_costs db @ [r]\<rparr>, Inr ()))"

definition in_range :: "sqlite_env \<Rightarrow> time_range \<Rightarrow> cost_record \<Rightarrow> bool" where
  "in_range Q tr r \<longleftrightarrow> q_rfc3339 Q (tr_start tr) \<le> cr_timestamp r \<and> cr_timestamp r < q_rfc3339 Q (tr_end tr)"

definition cost_matches :: "sqlite_env \<Rightarrow> cost_filter \<Rightarrow> cost_record \<Rightarrow> bool" where
  "cost_matches Q f r \<longleftrightarrow>
     is_none_or (\<lambda>p. cr_project r = p) (cf_project_path f) \<and>
     is_none_or (\<lambda>m. cr_upstream_model r = m) (cf_model_name f) \<and>
     is_none_or (\<lambda>c. cr_channel_id r = c) (cf_channel_name f) \<and>
     is_none_or (\<lambda>tr. in_range Q tr r) (cf_time_range f)"

definition query_limit :: "cost_filter \<Rightarrow> nat" where
  "query_limit f = min (unat (unwrap_or 100 (cf_limit f))) 1000"

definition sqlite_query_cost_records ::
  "sqlite_env \<Rightarrow> sqlite_db \<Rightarrow> cost_filter \<Rightarrow> storage_error + cost_record list" where
  "sqlite_query_cost_records Q db f =
     with_conn Q
       (Inr (take (query_limit f) (drop (unat (unwrap_or 0 (cf_offset f)))
          (order_desc cr_timestamp (filter (cost_matches Q f) (t_costs db))))))"

text \<open>
  What is printed as the key of a group, and what the rows are grouped by. \<open>substr\<close> counts characters,
  which are the bytes of a timestamp.
\<close>

fun group_key_expr :: "cost_group_by \<Rightarrow> cost_record \<Rightarrow> string" where
  "group_key_expr ByProject r = cr_project r"
| "group_key_expr ByModel r = cr_channel_id r"
| "group_key_expr ByChannel r = cr_channel_id r"
| "group_key_expr ByProjectModelMonth r =
     cr_project r @ ''|'' @ cr_upstream_model r @ ''|'' @ take 7 (cr_timestamp r)"
| "group_key_expr ByProjectModelHour r =
     cr_project r @ ''|'' @ cr_upstream_model r @ ''|'' @ take 13 (cr_timestamp r)"
| "group_key_expr ByHourly r = take 13 (cr_timestamp r)"
| "group_key_expr ByDaily r = take 10 (cr_timestamp r)"

fun group_clause :: "cost_group_by \<Rightarrow> cost_record \<Rightarrow> string list" where
  "group_clause ByProject r = [cr_project r]"
| "group_clause ByModel r = [cr_channel_id r]"
| "group_clause ByChannel r = [cr_channel_id r]"
| "group_clause ByProjectModelMonth r = [cr_project r, cr_upstream_model r]"
| "group_clause ByProjectModelHour r = [cr_project r, cr_upstream_model r]"
| "group_clause ByHourly r = [take 13 (cr_timestamp r)]"
| "group_clause ByDaily r = [take 10 (cr_timestamp r)]"

text \<open>\<open>SUM\<close> of an integer column, \<open>None\<close> on overflow.\<close>

fun sum_i64 :: "int \<Rightarrow> i64 list \<Rightarrow> i64 option" where
  "sum_i64 acc [] = Some (of_int acc)"
| "sum_i64 acc (x # xs) =
     (let s = acc + sint x in if - (2 ^ 63) \<le> s \<and> s < 2 ^ 63 then sum_i64 s xs else None)"

text \<open>A sum that is NaN (of both infinities) comes back as \<open>NULL\<close>, which no \<open>f64\<close> can be read from.\<close>

definition aggregate_group ::
  "sqlite_env \<Rightarrow> cost_group_by \<Rightarrow> cost_record list \<Rightarrow> storage_error + cost_aggregate" where
  "aggregate_group Q g rows =
     (case (sum_i64 0 (map cr_input_tokens rows), sum_i64 0 (map cr_output_tokens rows),
            sum_i64 0 (map cr_compression_tokens_saved rows)) of
        (Some i, Some out, Some c) \<Rightarrow>
          (let total_cost = q_sum Q (map cr_cost rows) in
           if total_cost = NaN then Inl (Backend (q_null_error Q))
           else Inr \<lparr>ca_group_key = group_key_expr g (q_pick Q rows), ca_total_input_tokens = i,
                     ca_total_output_tokens = out, ca_total_actual_cost = total_cost,
                     ca_total_compression_tokens_saved = c, ca_request_count = of_nat (length rows)\<rparr>)
      | _ \<Rightarrow> Inl (Backend (q_overflow Q)))"

definition groups :: "cost_group_by \<Rightarrow> cost_record list \<Rightarrow> cost_record list list" where
  "groups g rows =
     map (\<lambda>k. filter (\<lambda>r. group_clause g r = k) rows) (remdups (map (group_clause g) rows))"

text \<open>\<open>ORDER BY total_actual_cost DESC\<close>\<close>

fun insert_by_cost :: "cost_aggregate \<Rightarrow> cost_aggregate list \<Rightarrow> cost_aggregate list" where
  "insert_by_cost a [] = [a]"
| "insert_by_cost a (b # bs) =
     (if f64_lt (ca_total_actual_cost a) (ca_total_actual_cost b) then b # insert_by_cost a bs else a # b # bs)"

definition sort_by_cost :: "cost_aggregate list \<Rightarrow> cost_aggregate list" where
  "sort_by_cost as = foldr insert_by_cost as []"

definition sqlite_aggregate_costs ::
  "sqlite_env \<Rightarrow> sqlite_db \<Rightarrow> cost_group_by \<Rightarrow> time_range \<Rightarrow> storage_error + cost_aggregate list" where
  "sqlite_aggregate_costs Q db g tr =
     with_conn Q
       (let rows = filter (\<lambda>r. in_range Q tr r \<and> is_none_or (\<lambda>p. cr_project r = p) (tr_project tr)) (t_costs db)
        in res_bind (collect_rows (aggregate_group Q g) (groups g rows)) (\<lambda>as. Inr (sort_by_cost as)))"

definition sqlite_prune_cost_records :: "sqlite_env \<Rightarrow> sqlite_db \<Rightarrow> u32 \<Rightarrow> sqlite_db \<times> (storage_error + u64)" where
  "sqlite_prune_cost_records Q db older_than_days =
     with_conn_upd Q db
       (let (rs, n) = sql_delete (\<lambda>r. cr_timestamp r < q_cutoff Q older_than_days) (t_costs db)
        in (db\<lparr>t_costs := rs\<rparr>, Inr (of_nat n)))"

definition sqlite_list_projects :: "sqlite_env \<Rightarrow> sqlite_db \<Rightarrow> storage_error + string list" where
  "sqlite_list_projects Q db = with_conn Q (Inr (sort (remdups (map cr_project (t_costs db)))))"

section \<open>Switch logs and subscription fees\<close>

definition sqlite_insert_switch_log :: "sqlite_env \<Rightarrow> sqlite_db \<Rightarrow> switch_log \<Rightarrow> sqlite_db \<times> (storage_error + unit)" where
  "sqlite_insert_switch_log Q db l =
     with_conn_upd Q db
       (if row_at sl_id (sl_id l) (t_switch_logs db) \<noteq> None
        then (db, Inl (Backend ''UNIQUE constraint failed: switch_logs.id''))
        else (db\<lparr>t_switch_logs := t_switch_logs db @ [l]\<rparr>, Inr ()))"

definition sqlite_query_switch_logs :: "sqlite_env \<Rightarrow> sqlite_db \<Rightarrow> u32 option \<Rightarrow> storage_error + switch_log list" where
  "sqlite_query_switch_logs Q db limit =
     with_conn Q (Inr (take (min (unat (unwrap_or 20 limit)) 100) (order_desc sl_created_at (t_switch_logs db))))"

definition sqlite_insert_subscription_fee ::
  "sqlite_env \<Rightarrow> sqlite_db \<Rightarrow> subscription_fee \<Rightarrow> sqlite_db \<times> (storage_error + unit)" where
  "sqlite_insert_subscription_fee Q db f =
     with_conn_upd Q db
       (if sf_monthly_price f = NaN
        then (db, Inl (Backend ''NOT NULL constraint failed: subscription_fees.monthly_price''))
        else
          (case autoincrement (t_fee_seq db) of
             None \<Rightarrow> (db, Inl sequence_full)
           | Some n \<Rightarrow> (db\<lparr>t_fees := t_fees db @ [f\<lparr>sf_id := of_nat n\<rparr>], t_fee_seq := n\<rparr>, Inr ())))"

definition sqlite_query_subscription_fees ::
  "sqlite_env \<Rightarrow> sqlite_db \<Rightarrow> string option \<Rightarrow> string option \<Rightarrow> storage_error + subscription_fee list" where
  "sqlite_query_subscription_fees Q db channel month =
     with_conn Q (Inr (order_desc sf_month (sort_key sf_channel_name
       (filter (\<lambda>f. is_none_or (\<lambda>c. sf_channel_name f = c) channel \<and> is_none_or (\<lambda>m. sf_month f = m) month)
         (t_fees db)))))"

section \<open>The backend\<close>

text \<open>The pool: any error of it is reported with the same text.\<close>

definition sqlite_health_check :: "sqlite_env \<Rightarrow> sqlite_db \<Rightarrow> storage_error + bool" where
  "sqlite_health_check Q db =
     (case q_pool Q of Some _ \<Rightarrow> Inl (Connection ''unable to get connection'') | None \<Rightarrow> Inr True)"

definition sqlite_max_connections :: nat where
  "sqlite_max_connections = 16"

definition sqlite_storage :: "sqlite_env \<Rightarrow> sqlite_db storage" where
  "sqlite_storage Q =
     \<lparr>list_providers = sqlite_list_providers Q, get_provider = sqlite_get_provider Q,
      list_models = sqlite_list_models Q, get_model = sqlite_get_model Q,
      list_channels = sqlite_list_channels Q, get_channel = sqlite_get_channel Q,
      upsert_channel = sqlite_upsert_channel Q, set_channel_enabled = sqlite_set_channel_enabled Q,
      set_channel_api_key = sqlite_set_channel_api_key Q, update_channel = sqlite_update_channel Q,
      delete_channel = sqlite_delete_channel Q, mark_channel_healthy = sqlite_mark_channel_healthy Q,
      record_channel_failure = sqlite_record_channel_failure Q, list_mappings = sqlite_list_mappings Q,
      upsert_mapping = sqlite_upsert_mapping Q, set_mapping_enabled = sqlite_set_mapping_enabled Q,
      delete_mapping = sqlite_delete_mapping Q, list_all_mappings = sqlite_list_all_mappings Q,
      list_model_aliases = sqlite_list_model_aliases Q, get_model_alias_target = sqlite_get_model_alias_target Q,
      upsert_model_alias = sqlite_upsert_model_alias Q, delete_model_alias = sqlite_delete_model_alias Q,
      set_model_alias_enabled = sqlite_set_model_alias_enabled Q, insert_cost_record = sqlite_insert_cost_record Q,
      query_cost_records = sqlite_query_cost_records Q, aggregate_costs = sqlite_aggregate_costs Q,
      prune_cost_records = sqlite_prune_cost_records Q, list_projects = sqlite_list_projects Q,
      insert_switch_log = sqlite_insert_switch_log Q, query_switch_logs = sqlite_query_switch_logs Q,
      list_available_channels = sqlite_list_available_channels Q,
      insert_subscription_fee = sqlite_insert_subscription_fee Q,
      query_subscription_fees = sqlite_query_subscription_fees Q, migrate = sqlite_migrate Q,
      health_check = sqlite_health_check Q, max_connections = sqlite_max_connections\<rparr>"

text \<open>A connection at a fixed moment, for the examples.\<close>

definition sample_sqlite_env :: sqlite_env where
  "sample_sqlite_env =
     \<lparr>q_pool = None, q_foreign_keys = True, q_now_unix = 1000, q_datetime = ''2026-01-01 00:00:00'',
      q_cooldown_end = ''2026-01-01 00:00:30'', q_cutoff = (\<lambda>_. ''2025''), q_rfc3339 = (\<lambda>_. ''2026''),
      q_sum = (\<lambda>_. Fin 0), q_pick = hd, q_range_error = (\<lambda>_ _. ''out of range''), q_param_error = ''parameter'',
      q_no_rows = ''no rows'', q_overflow = ''integer overflow'',
      q_null_error = ''null''\<rparr>"

end
