(* ===== verification/Deployment.thy ===== *)
theory Deployment
  imports Server Compress Router_Hooks Bridge Cost Rate_Limiter Circuit_Breaker Retry Sqlite_Cost
begin

text \<open>
  The proxy that \<open>apps/server/src/main.rs\<close> puts together: the chain compress, model alias, model router,
  bridge with the cost recorder, over one state, and the properties of a request on its way through
  all of it. The locales of the theories \<open>Middleware\<close> and \<open>Server\<close> are interpreted on this chain. The
  resilience middlewares, which the repository provides but \<open>main\<close> does not register, are not part of it.
\<close>

section \<open>The deployed chain\<close>

text \<open>What one phase of a request reads: the clocks, and what the cost recorder draws.\<close>

record reading =
  rd_instant :: instant
  rd_month :: u32
  rd_uuid :: string
  rd_rfc3339 :: string

record ('st, 'db) deployment =
  dp_json :: json_lib
  dp_compressors :: compressors
  dp_http :: http_lib
  dp_bridge :: "'st llm_bridge"
  dp_pricing_json :: "pricing \<Rightarrow> string option"
  dp_storage :: "'db storage"

record 'db proxy_world =
  ds_compress :: compress_state
  ds_alias :: "string hashmap"
  ds_router :: router_state
  ds_db :: 'db

definition router_env_at :: "('st, 'db) deployment \<Rightarrow> reading \<Rightarrow> router_env" where
  "router_env_at D t =
     \<lparr>env_json = dp_json D, env_now = rd_instant t, env_month = rd_month t, env_pricing_json = dp_pricing_json D\<rparr>"

definition cost_env_at :: "reading \<Rightarrow> cost_env" where
  "cost_env_at t =
     \<lparr>ce_uuid = rd_uuid t, ce_now = rd_instant t, ce_rfc3339 = rd_rfc3339 t, ce_user_name = ''unknown''\<rparr>"

definition compress_mw :: "('st, 'db) deployment \<Rightarrow> reading \<Rightarrow> ('db proxy_world, failure) middleware" where
  "compress_mw D t =
     lift_mw ds_compress (\<lambda>s w. w\<lparr>ds_compress := s\<rparr>) id (compress_middleware (dp_json D) (dp_compressors D))"

definition alias_mw :: "('st, 'db) deployment \<Rightarrow> reading \<Rightarrow> ('db proxy_world, failure) middleware" where
  "alias_mw D t = lift_mw ds_alias (\<lambda>s w. w\<lparr>ds_alias := s\<rparr>) Err (model_alias_middleware (dp_json D))"

definition router_mw :: "('st, 'db) deployment \<Rightarrow> reading \<Rightarrow> ('db proxy_world, failure) middleware" where
  "router_mw D t = lift_mw ds_router (\<lambda>s w. w\<lparr>ds_router := s\<rparr>) Err (model_router_middleware (router_env_at D t))"

definition bridge_mw :: "('st, 'db) deployment \<Rightarrow> reading \<Rightarrow> ('db proxy_world, failure) middleware" where
  "bridge_mw D t = lift_mw (\<lambda>_. ()) (\<lambda>_ w. w) id (bridge_middleware (dp_json D) (dp_http D) (dp_bridge D))"

definition deployed_recorder :: "('st, 'db) deployment \<Rightarrow> (reading, 'db proxy_world) cost_recorder" where
  "deployed_recorder D t ctx body w =
     (let (db, r) = cost_record_op (dp_storage D) (cost_env_at t) ctx body (ds_db w) in (w\<lparr>ds_db := db\<rparr>, r))"

definition deployed_config :: "(string \<Rightarrow> string option) \<Rightarrow> proxy_config" where
  "deployed_config env =
     proxy_config_default
       \<lparr>listen := ''127.0.0.1:11837'', cfg_proxy_api_key := env ''AGENT_PROXY_API_KEY'',
        cfg_proxy_token := env ''AGENT_PROXY_TOKEN''\<rparr>"

definition deployed_proxy ::
  "('st, 'db) deployment \<Rightarrow> (string \<Rightarrow> string option) \<Rightarrow> proxy_error + (reading, 'db proxy_world) proxy_state" where
  "deployed_proxy D env =
     builder_build
       (builder_middleware (bridge_mw D)
         (builder_middleware (router_mw D)
           (builder_middleware (alias_mw D)
             (builder_middleware (compress_mw D)
               (builder_cost_recorder (deployed_recorder D)
                 (builder_config (deployed_config env) builder_default))))))"

definition alias_map_of :: "model_alias list \<Rightarrow> string hashmap" where
  "alias_map_of as =
     fold (\<lambda>a m. m(ma_alias_name a \<mapsto> ma_target_model a)) (filter ma_enabled as) Map.empty"

text \<open>
  The state the proxy starts with. \<open>main\<close> reads the database twice, for the router through \<open>SL\<close> and for the
  aliases through \<open>SA\<close>: each read takes a connection of its own, and only the first one has to succeed.
\<close>

definition deployed_world ::
  "'db storage \<Rightarrow> 'db storage \<Rightarrow> router_parsers \<Rightarrow> 'db \<Rightarrow> proxy_error + 'db proxy_world" where
  "deployed_world SL SA P db =
     res_bind (router_from_storage SL P db) (\<lambda>r.
       Inr \<lparr>ds_compress = compress_new,
            ds_alias = alias_map_of (case list_model_aliases SA db of Inl _ \<Rightarrow> [] | Inr as \<Rightarrow> as),
            ds_router = r, ds_db = db\<rparr>)"

definition deployed_chain :: "('st, 'db) deployment \<Rightarrow> reading \<Rightarrow> ('db proxy_world, failure) middleware list" where
  "deployed_chain D t = [compress_mw D t, alias_mw D t, router_mw D t, bridge_mw D t]"

definition deployed_state ::
  "('st, 'db) deployment \<Rightarrow> (string \<Rightarrow> string option) \<Rightarrow> (reading, 'db proxy_world) proxy_state" where
  "deployed_state D env =
     \<lparr>ps_config = deployed_config env, ps_middlewares = deployed_chain D, ps_cost_recorder = Some (deployed_recorder D)\<rparr>"

text \<open>The builder yields the four middlewares in the order of their registration.\<close>

lemma deployed_proxy_eq: "deployed_proxy D env = Inr (deployed_state D env)"
  by (simp add: deployed_proxy_def builder_build_def builder_middleware_def builder_cost_recorder_def
      builder_config_def builder_default_def deployed_state_def deployed_chain_def fun_eq_iff)

lemma deployed_state_fields:
  "ps_middlewares (deployed_state D env) = deployed_chain D"
  "ps_cost_recorder (deployed_state D env) = Some (deployed_recorder D)"
  by (simp_all add: deployed_state_def)

lemma world_new_fields: "w_state (world_new s) = s" "w_sent (world_new s) = []"
  by (simp_all add: world_new_def)

lemmas mw_parts = compress_mw_def alias_mw_def router_mw_def bridge_mw_def lift_mw_def
  compress_middleware_def model_alias_middleware_def model_router_middleware_def bridge_middleware_def

section \<open>What each member does\<close>

lemma compress_mw_request [simp]:
  "on_request (compress_mw D t) s req ctx =
     (s, compress_on_request (dp_json D) (dp_compressors D) (ds_compress s) req ctx)"
  by (simp add: mw_parts map_sum.id)

lemma alias_mw_request [simp]:
  "on_request (alias_mw D t) s req ctx = (s, map_sum Err id (alias_on_request (dp_json D) (ds_alias s) req ctx))"
  by (simp add: mw_parts)

lemma router_mw_request [simp]:
  "on_request (router_mw D t) s req ctx =
     (s\<lparr>ds_router := fst (router_on_request (router_env_at D t) (ds_router s) req ctx)\<rparr>,
      map_sum Err id (snd (router_on_request (router_env_at D t) (ds_router s) req ctx)))"
  by (simp add: mw_parts case_prod_unfold Let_def)

lemma bridge_mw_request [simp]:
  "on_request (bridge_mw D t) s req ctx = (s, bridge_on_request (dp_json D) (dp_http D) (dp_bridge D) req ctx)"
  by (simp add: mw_parts map_sum.id)

lemma compress_mw_response [simp]:
  "on_response (compress_mw D t) s res ctx =
     (s\<lparr>ds_compress := fst (compress_on_response (dp_json D) (dp_compressors D) (ds_compress s) res)\<rparr>,
      snd (compress_on_response (dp_json D) (dp_compressors D) (ds_compress s) res))"
  by (simp add: mw_parts map_sum.id case_prod_unfold Let_def)

lemma alias_mw_response [simp]: "on_response (alias_mw D t) s res ctx = (s, Inr res)"
  by (simp add: mw_parts)

lemma router_mw_response [simp]:
  "on_response (router_mw D t) s res ctx =
     (s\<lparr>ds_router := fst (router_on_response (router_env_at D t) (ds_router s) res ctx)\<rparr>, Inr res)"
  by (simp add: mw_parts case_prod_unfold Let_def)

lemma bridge_mw_response [simp]:
  "on_response (bridge_mw D t) s res ctx = (s, bridge_on_response (dp_json D) (dp_bridge D) res ctx)"
  by (simp add: mw_parts map_sum.id)

lemma map_sum_Inr_iff [simp]: "map_sum f id x = Inr y \<longleftrightarrow> x = Inr y"
  by (cases x) auto

section \<open>Interpretations\<close>

interpretation deployed_frame: mw_frame "deployed_chain D t" same_request for D t
proof unfold_locales
  fix mw s req ctx s' req' ctx'
  assume "mw \<in> set (deployed_chain D t)" and step: "on_request mw s req ctx = (s', Inr (req', ctx'))"
  then consider "mw = compress_mw D t" | "mw = alias_mw D t" | "mw = router_mw D t" | "mw = bridge_mw D t"
    by (auto simp: deployed_chain_def)
  then show "same_request ctx ctx'"
  proof cases
    case 1
    with step show ?thesis using compress_on_request_frame by fastforce
  next
    case 2
    with step show ?thesis using alias_on_request_frame by fastforce
  next
    case 3
    with step have "router_on_request (router_env_at D t) (ds_router s) req ctx
        = (fst (router_on_request (router_env_at D t) (ds_router s) req ctx), Inr (req', ctx'))"
      by (simp add: prod_eq_iff)
    from router_on_request_routes [OF this] show ?thesis by blast
  next
    case 4
    with step show ?thesis using bridge_on_request_frame by fastforce
  qed
qed (auto intro: same_request_trans)

interpretation deployed_keeps: mw_keeps "deployed_chain D t" "\<lambda>s. router_wf (ds_router s)"
  for D :: "('st, 'db) deployment" and t
proof unfold_locales
  fix mw req ctx and s :: "'db proxy_world"
  assume "mw \<in> set (deployed_chain D t)" "router_wf (ds_router s)"
  then show "router_wf (ds_router (fst (on_request mw s req ctx)))"
    by (auto simp: deployed_chain_def router_wf_on_request)
next
  fix mw res ctx and s :: "'db proxy_world"
  assume "mw \<in> set (deployed_chain D t)" "router_wf (ds_router s)"
  then show "router_wf (ds_router (fst (on_response mw s res ctx)))"
    by (auto simp: deployed_chain_def router_wf_on_response)
qed

lemma deployed_record_cost:
  "record_cost (deployed_state D env) t ctx body w =
     w\<lparr>ds_db := fst (insert_cost_record (dp_storage D) (ds_db w) (build_cost_record (cost_env_at t) ctx body))\<rparr>"
  by (auto simp: record_cost_def deployed_state_def deployed_recorder_def cost_record_op_def Let_def
      split: prod.splits sum.splits)

interpretation deployed_served: served_keeps "deployed_state D env" "\<lambda>s. router_wf (ds_router s)"
  for D :: "('st, 'db) deployment" and env
  by unfold_locales
    (simp_all add: deployed_state_fields deployed_record_cost deployed_keeps.keeps_request deployed_keeps.keeps_response)

section \<open>The chain, hook by hook\<close>

lemma deployed_request_Inr:
  assumes "run_on_request_chain (deployed_chain D t) s req ctx = (s', Inr (req', ctx'))"
  obtains req1 ctx1 req2 r req3 ctx3 where
    "compress_on_request (dp_json D) (dp_compressors D) (ds_compress s) req ctx = Inr (req1, ctx1)"
    "alias_on_request (dp_json D) (ds_alias s) req1 ctx1 = Inr (req2, ctx1)"
    "router_on_request (router_env_at D t) (ds_router s) req2 ctx1 = (r, Inr (req3, ctx3))"
    "bridge_on_request (dp_json D) (dp_http D) (dp_bridge D) req3 ctx3 = Inr (req', ctx')"
    "s' = s\<lparr>ds_router := r\<rparr>"
proof -
  obtain req1 ctx1 where c: "compress_on_request (dp_json D) (dp_compressors D) (ds_compress s) req ctx = Inr (req1, ctx1)"
    using assms by (auto simp: deployed_chain_def split: sum.splits)
  with assms obtain req2 ctx2 where a: "alias_on_request (dp_json D) (ds_alias s) req1 ctx1 = Inr (req2, ctx2)"
    by (cases "alias_on_request (dp_json D) (ds_alias s) req1 ctx1") (auto simp: deployed_chain_def)
  have [simp]: "ctx2 = ctx1" using alias_on_request_frame [OF a] by simp
  obtain r x where rt: "router_on_request (router_env_at D t) (ds_router s) req2 ctx1 = (r, x)" by fastforce
  with assms c a obtain req3 ctx3 where x: "x = Inr (req3, ctx3)"
    by (cases x) (auto simp: deployed_chain_def)
  from assms c a rt x have "bridge_on_request (dp_json D) (dp_http D) (dp_bridge D) req3 ctx3 = Inr (req', ctx')"
    "s' = s\<lparr>ds_router := r\<rparr>"
    by (auto simp: deployed_chain_def split: sum.splits)
  with c a rt x that show thesis by simp
qed

lemma deployed_request_state:
  "\<exists>r. fst (run_on_request_chain (deployed_chain D t) s req ctx) = s\<lparr>ds_router := r\<rparr> \<and>
     same_view (rd_month t) (ds_router s) r"
proof -
  have v: "same_view (rd_month t) (ds_router s) (fst (router_on_request (router_env_at D t) (ds_router s) q c))" for q c
    using router_on_request_view [of "router_env_at D t"] by (simp add: router_env_at_def)
  have id: "s = s\<lparr>ds_router := ds_router s\<rparr>" by simp
  show ?thesis
    unfolding deployed_chain_def
    by (auto split: sum.split intro: v exI [of _ "ds_router s"])
qed

lemma deployed_response:
  "run_on_response_chain (deployed_chain D t) s res ctx =
     (case bridge_on_response (dp_json D) (dp_bridge D) res ctx of
        Inl f \<Rightarrow> (s, Inl f)
      | Inr res' \<Rightarrow>
          let (c, x) = compress_on_response (dp_json D) (dp_compressors D) (ds_compress s) res'
          in (s\<lparr>ds_router := fst (router_on_response (router_env_at D t) (ds_router s) res' ctx), ds_compress := c\<rparr>, x))"
  by (simp add: deployed_chain_def run_on_response_chain_def case_prod_unfold Let_def split: sum.split)

lemma deployed_response_db:
  "run_on_response_chain (deployed_chain D t) s res ctx = (s', x) \<Longrightarrow> ds_db s' = ds_db s"
  by (auto simp: deployed_response Let_def split: sum.splits prod.splits)

lemma compress_response_never_panics: "snd (compress_on_response J C s res) \<noteq> Inl Panic"
  by (auto simp: compress_on_response_def Let_def split: sum.splits)

lemma deployed_response_never_panics: "snd (run_on_response_chain (deployed_chain D t) s res ctx) \<noteq> Inl Panic"
  using bridge_never_panics(2) [of "dp_json D" "dp_bridge D" res ctx]
    compress_response_never_panics [of "dp_json D" "dp_compressors D" "ds_compress s"]
  by (auto simp: deployed_response Let_def split: sum.splits prod.splits) (metis snd_conv)

lemma deployed_response_status:
  assumes "run_on_response_chain (deployed_chain D t) s res ctx = (s', Inr res')"
  shows "res_status res' = res_status res \<and> res_headers res' = res_headers res"
proof -
  obtain res1 where b: "bridge_on_response (dp_json D) (dp_bridge D) res ctx = Inr res1"
    using assms by (auto simp: deployed_response split: sum.splits)
  obtain c where "compress_on_response (dp_json D) (dp_compressors D) (ds_compress s) res1 = (c, Inr res')"
    using assms b by (auto simp: deployed_response Let_def split: prod.splits)
  from compress_on_response_frame [OF this] bridge_on_response_frame [OF b] show ?thesis by simp
qed

lemma error_reply_not_Aborted [simp]: "error_reply e \<noteq> Aborted"
  by (simp add: error_reply_def split: prod.split)

lemma failure_reply_Aborted [simp]: "failure_reply f = Aborted \<longleftrightarrow> f = Panic"
  by (cases f) simp_all

text \<open>
  The billing of a reply with body \<open>d\<close>: the usage of a stream is always recorded, a plain body only if it
  is JSON.
\<close>

definition billed ::
  "('st, 'db) deployment \<Rightarrow> reading server_env \<Rightarrow> bool \<Rightarrow> connection_context \<Rightarrow> bytes \<Rightarrow> 'db \<Rightarrow> 'db" where
  "billed D E streaming ctx d db =
     (let bill = (\<lambda>v. fst (insert_cost_record (dp_storage D) db
                        (build_cost_record (cost_env_at (se_response_time E)) ctx v)))
      in if streaming then bill (extract_usage_from_sse (se_json E) d)
         else (case from_slice (se_json E) d of Inl _ \<Rightarrow> db | Inr v \<Rightarrow> bill v))"

text \<open>What one call of the handler does with an admitted request, for the deployed chain.\<close>

lemma deployed_answer:
  assumes "(if b then handle_streaming_response (deployed_state D env) E up ctx s
    else handle_non_streaming_response (deployed_state D env) E up ctx s) = (s', r)"
  shows "r \<noteq> Aborted"
    and "\<And>a h d. r = Forwarded a h d \<Longrightarrow> a = ur_status up \<and>
      (\<forall>k. header_get h k = (if is_forward_header k then map_of (rev (ur_headers up)) k else None)) \<and>
      ds_db s' = billed D E b ctx d (ds_db s)"
    and "(\<And>a h d. r \<noteq> Forwarded a h d) \<Longrightarrow> ds_db s' = ds_db s"
proof -
  note db = deployed_record_cost
  have mws: "ps_middlewares (deployed_state D env) = deployed_chain D" by (simp add: deployed_state_def)
  show "r \<noteq> Aborted"
    using assms deployed_response_never_panics [of D "se_response_time E" s]
    by (auto simp: handle_streaming_response_def handle_non_streaming_response_def mws build_axum_response_def
        split: if_splits sum.splits prod.splits) (metis snd_conv)+
  show "ds_db s' = ds_db s" if "\<And>a h d. r \<noteq> Forwarded a h d"
    using assms that
    by (auto simp: handle_streaming_response_def handle_non_streaming_response_def mws build_axum_response_def
        dest: deployed_response_db split: if_splits sum.splits prod.splits)
  show "a = ur_status up \<and>
      (\<forall>k. header_get h k = (if is_forward_header k then map_of (rev (ur_headers up)) k else None)) \<and>
      ds_db s' = billed D E b ctx d (ds_db s)" if r: "r = Forwarded a h d" for a h d
  proof -
    obtain d0 where d0: "ur_bytes up = Inr d0" using response_forwarded [OF assms [unfolded r]] by blast
    let ?res = "\<lparr>res_status = ur_status up, res_headers = ur_headers up, res_body = d0, res_is_streaming = b\<rparr>"
    obtain s1 res' where c: "run_on_response_chain (deployed_chain D (se_response_time E)) s ?res ctx = (s1, Inr res')"
      using assms r d0
      by (cases b) (auto simp: handle_streaming_response_def handle_non_streaming_response_def mws
          split: sum.splits prod.splits)
    have rep: "build_axum_response res' = Forwarded a h d"
      using assms r d0 c
      by (cases b) (auto simp: handle_streaming_response_def handle_non_streaming_response_def mws split: sum.splits)
    then have "res_body res' = d" by (simp add: build_axum_response_def)
    then have s': "ds_db s' = billed D E b ctx d (ds_db s1)"
      using assms r d0 c
      by (cases b) (auto simp: handle_streaming_response_def handle_non_streaming_response_def mws billed_def db
          split: sum.splits)
    from rep deployed_response_status [OF c] have "a = ur_status up"
      "\<forall>k. header_get h k = (if is_forward_header k then map_of (rev (ur_headers up)) k else None)"
      by (auto simp: build_axum_response_def header_get_fold_insert header_get_def [of "[]"] split: option.splits)
    with s' deployed_response_db [OF c] show ?thesis by simp
  qed
qed

section \<open>The context before the chain\<close>

lemma correlate_session_frame:
  assumes "correlate_session E req cur ctx = (cur', ctx')"
  shows "extensions ctx' = extensions ctx \<and> detected_format ctx' = detected_format ctx \<and>
    ctx_agent_type ctx' = ctx_agent_type ctx \<and>
    session_id ctx' = (case session_header (req_headers req) of None \<Rightarrow> session_id ctx | Some s \<Rightarrow> Some s)"
  using assms
  by (auto simp: correlate_session_def apply_accumulator_def Let_def split: option.splits prod.splits)

lemma admit_Inr:
  assumes "admit st E arole hr w = Inr (cur, req, ctx)"
  shows "req_path req = hr_path hr" and "detected_format ctx = detect_api_format (hr_path hr)"
    and "detect_api_format (hr_path hr) \<noteq> None"
    and "session_id ctx = session_header (hr_headers hr)"
    and "ctx_agent_type ctx = detect_agent_type (hr_headers hr) (hr_path hr)"
    and "with_stats proxy_response_saved (compression_stats_of ctx) = 0"
proof -
  obtain b ctx1 where req: "req = \<lparr>req_method = hr_method hr, req_path = hr_path hr, req_headers = hr_headers hr, req_body = b\<rparr>"
    and f: "detect_api_format (hr_path hr) \<noteq> None" and ctx: "ctx = inject_stats E ctx1"
    and c: "correlate_session E req (w_cursors w) (connection_context_new (se_now E) (w_next_request_id w)
        (detect_agent_type (hr_headers hr) (hr_path hr)) arole (detect_api_format (hr_path hr))) = (cur, ctx1)"
    using assms by (auto simp: admit_def Let_def split: if_splits option.splits sum.splits prod.splits)
  note fr = correlate_session_frame [OF c]
  have inj: "detected_format ctx = detected_format ctx1" "session_id ctx = session_id ctx1"
    "ctx_agent_type ctx = ctx_agent_type ctx1"
    by (simp_all add: ctx inject_stats_def Let_def ctx_simps)
  show "req_path req = hr_path hr" "detected_format ctx = detect_api_format (hr_path hr)"
    "session_id ctx = session_header (hr_headers hr)"
    "ctx_agent_type ctx = detect_agent_type (hr_headers hr) (hr_path hr)"
    using fr by (simp_all add: inj req connection_context_new_def split: option.splits)
  show "detect_api_format (hr_path hr) \<noteq> None" by (rule f)
  have "proxy_response_saved (read_tokenless_stats p v) = 0" for p v
    by (auto simp: read_tokenless_stats_def parse_tokenless_json_def compression_stats_default_def
        proxy_response_saved_def saturating_sub_def unwrap_or_def split: option.splits)
  moreover have "compression_stats_of ctx1 = None"
    using fr by (simp add: ctx_get_def connection_context_new_def)
  ultimately show "with_stats proxy_response_saved (compression_stats_of ctx) = 0"
    by (simp add: ctx inject_stats_def with_stats_def Let_def ctx_simps)
qed

section \<open>What the chain leaves for the upstream\<close>

lemma deployed_request_routed:
  assumes "run_on_request_chain (deployed_chain D t) s req ctx = (s', Inr (req', ctx'))"
  shows "\<exists>ch m. ch \<in> set (channels (ds_router s)) \<and> rc_enabled ch \<and> m \<in> set (rc_mappings ch) \<and>
    has_api_key (ds_router s) (rc_channel_id ch) \<and> is_healthy (ds_router s) (rd_instant t) (rc_channel_id ch) \<and>
    routed (ds_router s) ch m ctx' \<and> same_request ctx ctx' \<and>
    (target_protocol ctx' = detected_format ctx \<longrightarrow> req_path req' = req_path req)"
  using assms
proof (cases rule: deployed_request_Inr)
  case (1 req1 ctx1 req2 r req3 ctx3)
  obtain ch m b where r: "(ch, m) \<in> set (find_candidates (channels (ds_router s)) b)"
    "usable (router_env_at D t) (ds_router s) (ch, m)" "routed (ds_router s) ch m ctx3" "same_request ctx1 ctx3"
    "req_path req3 = req_path req2"
    using router_on_request_routes [OF 1(3)] by force
  note bf = bridge_on_request_frame [OF 1(4)]
  have p: "req_path req3 = req_path req"
    using r(5) alias_on_request_frame [OF 1(2)] compress_on_request_frame [OF 1(1)] by simp
  have sr: "same_request ctx ctx'" by (rule deployed_frame.frame_chain [OF assms])
  have d: "detected_format ctx3 = detected_format ctx"
    using r(4) compress_on_request_frame [OF 1(1)] by (simp add: same_request_def)
  have "req_path req' = req_path req" if "target_protocol ctx' = detected_format ctx"
    using bridge_on_request_Inr [OF 1(4)] that bf d p by auto
  moreover have "routed (ds_router s) ch m ctx'"
    using r(3) bf unfolding routed_def by simp
  ultimately show ?thesis
    using r(1,2) sr by (auto simp: find_candidates_iff usable_def router_env_at_def)
qed

lemma deployed_request_panic:
  assumes "run_on_request_chain (deployed_chain D t) s req ctx = (s', Inl Panic)"
  shows "compress_on_request (dp_json D) (dp_compressors D) (ds_compress s) req ctx = Inl Panic \<and> s' = s"
proof (cases "compress_on_request (dp_json D) (dp_compressors D) (ds_compress s) req ctx")
  case (Inl f)
  with assms show ?thesis by (simp add: deployed_chain_def)
next
  case (Inr x)
  have no: "map_sum Err id y \<noteq> Inl Panic" for y :: "proxy_error + 'z" by (cases y) simp_all
  obtain req1 ctx1 where x: "x = (req1, ctx1)" by fastforce
  from assms Inr x have "\<exists>q c. bridge_on_request (dp_json D) (dp_http D) (dp_bridge D) q c = Inl Panic"
    by (auto simp: deployed_chain_def no split: sum.splits) (metis no sum.distinct)+
  with bridge_never_panics(1) show ?thesis by blast
qed

lemma compress_keeps_response_stats:
  assumes "compress_on_request J C s req ctx = Inr (req', ctx')"
  shows "with_stats proxy_response_saved (compression_stats_of ctx') = with_stats proxy_response_saved (compression_stats_of ctx)"
  using compress_on_request_Inr [OF assms]
  by (auto simp: record_request_stats_def with_stats_def proxy_response_saved_def compression_stats_default_def
      saturating_sub_def ctx_simps Let_def split: option.splits)

lemma apply_selection_stats:
  "apply_selection E st body c req ctx = Inr (req', ctx') \<Longrightarrow> compression_stats_of ctx' = compression_stats_of ctx"
  by (auto simp: apply_selection_def res_bind_Inr_iff Let_def case_prod_unfold ctx_simps split: sum.splits)

lemma deployed_request_response_stats:
  assumes "run_on_request_chain (deployed_chain D t) s req ctx = (s', Inr (req', ctx'))"
  shows "with_stats proxy_response_saved (compression_stats_of ctx') = with_stats proxy_response_saved (compression_stats_of ctx)"
  using assms
proof (cases rule: deployed_request_Inr)
  case (1 req1 ctx1 req2 r req3 ctx3)
  have "compression_stats_of ctx' = compression_stats_of ctx3"
    using bridge_on_request_Inr [OF 1(4)] by (auto simp: ctx_simps split: if_splits)
  moreover have "compression_stats_of ctx3 = compression_stats_of ctx1"
    using router_on_request_Inr [OF 1(3)] apply_selection_stats by blast
  ultimately show ?thesis using compress_keeps_response_stats [OF 1(1)] by simp
qed

text \<open>A call that sent something, taken apart.\<close>

lemma deployed_sent:
  assumes "handle_proxy_request (deployed_state D env) E arole hr w = (w', r)"
    and "w_sent w' = w_sent w @ [u]"
  obtains cur req ctx s req' ctx' ch where
    "admit (deployed_state D env) E arole hr w = Inr (cur, req, ctx)"
    "run_on_request_chain (deployed_chain D (se_request_time E)) (w_state w) req ctx = (s, Inr (req', ctx'))"
    "selected_channel ctx' = Some ch" "u = build_upstream_request req' ch"
    "(case se_client E u of
        Inl e \<Rightarrow> w_state w' = s \<and> r = error_reply (send_error_to_proxy e)
      | Inr up \<Rightarrow> (if is_streaming (se_json E) req' then handle_streaming_response (deployed_state D env) E up ctx' s
          else handle_non_streaming_response (deployed_state D env) E up ctx' s) = (w_state w', r))"
proof (cases "admit (deployed_state D env) E arole hr w")
  case (Inl x)
  with assms show ?thesis by (auto simp: handle_proxy_request_admit)
next
  case (Inr y)
  obtain cur req ctx where y: "y = (cur, req, ctx)" by (cases y)
  let ?w = "w\<lparr>w_next_request_id := w_next_request_id w + 1, w_cursors := cur\<rparr>"
  have mws: "ps_middlewares (deployed_state D env) = deployed_chain D" by (simp add: deployed_state_def)
  from assms(1) Inr y have "handle_accepted (deployed_state D env) E req ctx ?w = (w', r)"
    by (simp add: handle_proxy_request_admit)
  then show ?thesis
  proof (cases rule: handle_accepted_cases)
    case (unsent s req' ctx' ch e)
    with assms(2) Inr y that [of cur req ctx s req' ctx' ch] show ?thesis by (simp add: mws)
  next
    case (answered s req' ctx' ch up s')
    with assms(2) Inr y that [of cur req ctx s req' ctx' ch] show ?thesis by (simp add: mws)
  qed (use assms(2) in auto)
qed

lemma handled_unsent:
  assumes "handle_proxy_request (deployed_state D env) E arole hr w = (w', r)"
  shows "(\<exists>u. w_sent w' = w_sent w @ [u]) \<or> ds_db (w_state w') = ds_db (w_state w)"
proof (cases "admit (deployed_state D env) E arole hr w")
  case (Inl x)
  with assms show ?thesis by (auto simp: handle_proxy_request_admit)
next
  case (Inr y)
  obtain cur req ctx where y: "y = (cur, req, ctx)" by (cases y)
  let ?w = "w\<lparr>w_next_request_id := w_next_request_id w + 1, w_cursors := cur\<rparr>"
  have mws: "ps_middlewares (deployed_state D env) = deployed_chain D" by (simp add: deployed_state_def)
  have db: "ds_db s = ds_db (w_state w)"
    if "run_on_request_chain (deployed_chain D (se_request_time E)) (w_state w) req ctx = (s, x)" for s x
    using deployed_request_state [of D "se_request_time E" "w_state w" req ctx] that by auto
  from assms Inr y have "handle_accepted (deployed_state D env) E req ctx ?w = (w', r)"
    by (simp add: handle_proxy_request_admit)
  then show ?thesis
    by (cases rule: handle_accepted_cases) (auto simp: mws dest: db)
qed

lemma detect_api_format_known: "detect_api_format p = Some f \<Longrightarrow> protocol_to_str f \<noteq> []"
  by (auto simp: detect_api_format_def split: if_splits)

section \<open>A sample deployment\<close>

definition sample_deployment :: "(unit, sqlite_db) deployment" where
  "sample_deployment =
     \<lparr>dp_json = sample_json, dp_compressors = \<lparr>schema_compress = id, response_compress = id\<rparr>,
      dp_http = sample_http, dp_bridge = sample_bridge, dp_pricing_json = (\<lambda>_. None), 
      dp_storage = sqlite_storage sample_sqlite_env\<rparr>"

definition sample_reading :: reading where
  "sample_reading = \<lparr>rd_instant = 0, rd_month = 24313, rd_uuid = ''u'', rd_rfc3339 = ''now''\<rparr>"

text \<open>The database the sample router is loaded from: migrated and seeded before.\<close>

definition sample_channel_of :: "resolved_channel \<Rightarrow> channel" where
  "sample_channel_of c =
     \<lparr>ch_id = rc_channel_id c, ch_name = rc_channel_name c, ch_api_key = rc_api_key c, ch_protocol = ''openai_chat'',
      ch_protocols = ''[]'', ch_is_builtin = False, ch_enabled = rc_enabled c, ch_created_at = 0, ch_updated_at = 0,
      ch_health_status = ''Healthy'', ch_cooldown_until = None, ch_consecutive_failures = 0,
      ch_billing_type = ''metered'', ch_monthly_quota = None, ch_quota_policy = ''fallback'',
      ch_priority = rc_priority c, ch_force_protocol = rc_force_protocol c\<rparr>"

definition sample_mapping_of :: "candidate \<Rightarrow> model_mapping" where
  "sample_mapping_of c =
     \<lparr>mm_id = rm_mapping_id (snd c), mm_channel_id = rc_channel_id (fst c), mm_client_name = rm_client_name (snd c),
      mm_upstream_name = rm_upstream_name (snd c),
      mm_billing = (if is_flat_fee (rm_billing (snd c)) then ''flatfee'' else ''metered''),
      mm_pricing_json = [], mm_weight = 100, mm_enabled = True, mm_protocols = ''[]''\<rparr>"

definition sample_db :: sqlite_db where
  "sample_db =
     (let Q = sample_sqlite_env;
          db1 = fst (sqlite_upsert_channel Q empty_db (sample_channel_of (fst sample_metered)));
          db2 = fst (sqlite_upsert_channel Q db1 (sample_channel_of (fst sample_flat)));
          db3 = fst (sqlite_upsert_mapping Q db2 (sample_mapping_of sample_metered));
          db4 = fst (sqlite_upsert_mapping Q db3 (sample_mapping_of sample_flat))
      in db4\<lparr>user_version := 2, t_seed_metadata := [\<lparr>sr_key = ''version'', sr_value = ''1'', sr_updated_at = 0\<rparr>]\<rparr>)"

definition sample_parsers :: router_parsers where
  "sample_parsers =
     \<lparr>parse_protocols = (\<lambda>_. Some [sample_entry]), parse_string_list = (\<lambda>_. Some []),
      parse_billing = \<lparr>parse_pricing = (\<lambda>_. Inr (PerToken (Fin 1) (Fin 2) None None None ''USD'')),
        parse_flat_fee = (\<lambda>_. Some (None, Some (MaxRequests 100), None))\<rparr>\<rparr>"

definition sample_proxy_world :: "sqlite_db proxy_world" where
  "sample_proxy_world =
     \<lparr>ds_compress = compress_new, ds_alias = Map.empty, ds_router = sample_state, ds_db = sample_db\<rparr>"

definition sample_call :: http_request where
  "sample_call =
     \<lparr>hr_method = ''POST'', hr_path = ''/v1/chat/completions'', hr_headers = [(''x-agent-type'', ''claude'')],
      hr_body = Some ''b''\<rparr>"

definition sample_call_env :: "(upstream_request \<Rightarrow> send_error + upstream_response) \<Rightarrow> reading server_env" where
  "sample_call_env client =
     \<lparr>se_body_limit = sample_body_limit, se_json = sample_json, se_parse_report = (\<lambda>_. None), se_read_report = (\<lambda>_. None),
      se_parse_tokenless = (\<lambda>_. None), se_tokenless_env = None, se_now = 0, se_request_time = sample_reading,
      se_response_time = sample_reading, se_client = client\<rparr>"

abbreviation sample_answer :: "upstream_request \<Rightarrow> send_error + upstream_response" where
  "sample_answer \<equiv> \<lambda>_. Inr \<lparr>ur_status = 200, ur_headers = [], ur_bytes = Inr ''{}''\<rparr>"

lemma sample_router_env: "router_env_at sample_deployment sample_reading = sample_env"
  by (simp add: router_env_at_def sample_deployment_def sample_reading_def sample_env_def)

lemma sample_deployment_fields:
  "dp_compressors sample_deployment = \<lparr>schema_compress = id, response_compress = id\<rparr>"
  "dp_json sample_deployment = sample_json" "dp_http sample_deployment = sample_http"
  "dp_bridge sample_deployment = sample_bridge" "ds_alias sample_proxy_world = Map.empty"
  "ds_router sample_proxy_world = sample_state" "ds_compress sample_proxy_world = compress_new"
  by (simp_all add: sample_deployment_def sample_proxy_world_def)

lemma sample_admit:
  "\<exists>cur req. admit (deployed_state D env) (sample_call_env c) None sample_call
     (world_new sample_proxy_world) = Inr (cur, req, sample_ctx)"
  by (simp add: admit_def sample_call_def sample_call_env_def deployed_state_def deployed_config_def
      proxy_config_default_def detect_api_format_def ends_with_def body_too_large_def header_str_def header_get_def
      to_bytes_def validate_proxy_request_def correlate_session_def session_header_def project_header_def
      header_find_def to_lowercase_def ascii_lower_def inject_stats_def read_tokenless_stats_def
      compression_stats_default_def total_saved_def tokenless_saved_def proxy_schema_saved_def
      proxy_response_saved_def saturating_sub_def world_new_def detect_agent_type_def agent_of_header_def to_str_def
      visible_ascii_def Let_def)

lemma sample_chain:
  "\<exists>s req' ctx' ch. run_on_request_chain (deployed_chain sample_deployment sample_reading) sample_proxy_world req
     sample_ctx = (s, Inr (req', ctx')) \<and> selected_channel ctx' = Some ch \<and>
     ctx_get dc_bool EXT_BRIDGE_REVERSE ctx' = None \<and> ds_compress s = compress_new"
proof -
  obtain r req3 ctx3 where rt: "router_on_request sample_env sample_state req sample_ctx = (r, Inr (req3, ctx3))"
    and tp: "target_protocol ctx3 = Some OpenaiChat" and rev: "ctx_get dc_bool EXT_BRIDGE_REVERSE ctx3 = None"
    using sample_routes by blast
  have "same_request sample_ctx ctx3" "\<exists>ch. selected_channel ctx3 = Some ch"
    using router_on_request_routes [OF rt] unfolding routed_def by auto
  then obtain ch where ch: "selected_channel ctx3 = Some ch" and "detected_format ctx3 = Some OpenaiChat"
    by (auto simp: same_request_def connection_context_new_def)
  with tp have "bridge_on_request sample_json sample_http sample_bridge req3 ctx3 = Inr (req3, ctx3)"
    by (simp add: bridge_on_request_def validate_input_def sample_json_def sample_bridge_def)
  moreover have "compress_on_request sample_json C (ds_compress sample_proxy_world) req sample_ctx = Inr (req, sample_ctx)" for C
    by (rule compress_on_request_no_tools [where body = "JObject [(''model'', JString ''m'')]"])
      (simp_all add: sample_json_def)
  moreover have "alias_on_request sample_json Map.empty req sample_ctx = Inr (req, sample_ctx)"
    by (simp add: alias_on_request_def sample_json_def)
  ultimately show ?thesis
    using rt ch rev by (simp add: deployed_chain_def sample_router_env sample_deployment_fields)
qed

lemma sample_handled:
  "\<exists>w' r u. handle_proxy_request (deployed_state sample_deployment env) (sample_call_env c) None sample_call
     (world_new sample_proxy_world) = (w', r) \<and> w_sent w' = w_sent (world_new sample_proxy_world) @ [u]"
proof -
  obtain cur req where a: "admit (deployed_state sample_deployment env) (sample_call_env c) None sample_call
      (world_new sample_proxy_world) = Inr (cur, req, sample_ctx)" using sample_admit by blast
  obtain s req' ctx' ch where c: "run_on_request_chain (deployed_chain sample_deployment sample_reading)
      sample_proxy_world req sample_ctx = (s, Inr (req', ctx'))" "selected_channel ctx' = Some ch"
    using sample_chain by blast
  have "run_on_request_chain (ps_middlewares (deployed_state sample_deployment env)
      (se_request_time (sample_call_env c))) (w_state ((world_new sample_proxy_world)
        \<lparr>w_next_request_id := w_next_request_id (world_new sample_proxy_world) + 1, w_cursors := cur\<rparr>)) req sample_ctx
      = (s, Inr (req', ctx'))"
    using c(1) by (simp add: deployed_state_def sample_call_env_def world_new_def)
  from handle_accepted_sends [OF this c(2)] show ?thesis
    by (intro exI [of _ "fst (handle_proxy_request (deployed_state sample_deployment env) (sample_call_env c) None
        sample_call (world_new sample_proxy_world))"]
      exI [of _ "snd (handle_proxy_request (deployed_state sample_deployment env) (sample_call_env c) None
        sample_call (world_new sample_proxy_world))"])
      (simp add: handle_proxy_request_admit a)
qed

lemma sample_answered:
  "\<exists>w' h d. handle_proxy_request (deployed_state sample_deployment env) (sample_call_env sample_answer) None
     sample_call (world_new sample_proxy_world) = (w', Forwarded 200 h d)"
proof -
  let ?E = "sample_call_env sample_answer" and ?st = "deployed_state sample_deployment env"
  obtain cur req where a: "admit ?st ?E None sample_call (world_new sample_proxy_world) = Inr (cur, req, sample_ctx)"
    using sample_admit by blast
  obtain s req' ctx' ch where c: "run_on_request_chain (deployed_chain sample_deployment sample_reading)
      sample_proxy_world req sample_ctx = (s, Inr (req', ctx'))" "selected_channel ctx' = Some ch"
    "ctx_get dc_bool EXT_BRIDGE_REVERSE ctx' = None" "ds_compress s = compress_new"
    using sample_chain by blast
  let ?res = "\<lparr>res_status = 200, res_headers = [], res_body = ''{}'', res_is_streaming = False\<rparr>"
  have "bridge_on_response sample_json sample_bridge ?res ctx' = Inr ?res"
    using c(3) by (simp add: bridge_on_response_def)
  moreover have "snd (compress_on_response J \<lparr>schema_compress = id, response_compress = id\<rparr> compress_new ?res) = Inr ?res" for J
    by (simp add: compress_on_response_def split: sum.split)
  ultimately have "snd (run_on_response_chain (deployed_chain sample_deployment t) s ?res ctx') = Inr ?res" for t
    by (simp add: deployed_response c(4) case_prod_unfold Let_def sample_deployment_fields)
  then have "\<exists>s'. run_on_response_chain (deployed_chain sample_deployment t) s ?res ctx' = (s', Inr ?res)" for t
    by (metis prod.collapse)
  then obtain s' where s': "run_on_response_chain (deployed_chain sample_deployment sample_reading) s ?res ctx' = (s', Inr ?res)"
    by blast
  have E: "se_request_time ?E = sample_reading" "se_response_time ?E = sample_reading" "se_json ?E = sample_json"
    "se_client ?E = sample_answer" by (simp_all add: sample_call_env_def)
  have st: "ps_middlewares ?st = deployed_chain sample_deployment" by (simp add: deployed_state_def)
  have ns: "\<not> is_streaming sample_json req'" by (simp add: is_streaming_def sample_json_def)
  show ?thesis
    using a c s' ns
    by (simp add: handle_proxy_request_admit handle_accepted_def world_new_def E st forward_to_upstream_def
        handle_non_streaming_response_def build_axum_response_def Let_def)
qed

lemma sample_router_wf: "router_wf sample_state" "distinct (map rc_channel_id (channels sample_state))"
  by (simp_all add: router_wf_def channel_wf_def sample_defs)

text \<open>The sample router is what the sample database loads to.\<close>

lemma sample_db_tables:
  "t_channels sample_db = map (new_channel_row sample_sqlite_env \<circ> sample_channel_of) [fst sample_metered, fst sample_flat]"
  "t_mappings sample_db = map sample_mapping_of [sample_metered, sample_flat]" "t_aliases sample_db = []"
  by (simp_all add: sample_db_def sqlite_upsert_channel_def sqlite_upsert_mapping_def with_conn_upd_def
      sample_sqlite_env_def empty_db_def sql_upsert_def sample_channel_of_def sample_mapping_of_def new_channel_row_def
      sample_flat_def sample_metered_def Let_def)

lemma sample_world_loads:
  "deployed_world (sqlite_storage sample_sqlite_env) (sqlite_storage sample_sqlite_env) sample_parsers sample_db =
     Inr sample_proxy_world"
  by (simp add: deployed_world_def sqlite_storage_def router_from_storage_def load_channels_def
      sqlite_list_channels_def sqlite_list_mappings_def sqlite_list_model_aliases_def with_conn_def sample_db_tables
      sample_sqlite_env_def order_by2_def new_channel_row_def sample_channel_of_def sample_mapping_of_def
      row_to_channel_def resolve_channel_def resolve_mapping_def sample_parsers_def normalize_protocol_def
      channel_billing_from_storage_def trim_end_char_def map_filter_def initial_api_keys_def alias_map_of_def
      sample_proxy_world_def sample_flat_def sample_metered_def sample_state_def sample_entry_def Let_def)

section \<open>Properties\<close>

text \<open>
  Where a request of a well-formed router goes, and with which key: \<open>sent_to R now model p u\<close> says that the
  upstream request \<open>u\<close> for a client request of the path \<open>p\<close> goes to an enabled channel of the router \<open>R\<close> that has a
  mapping for \<open>model\<close> and is out of cooldown at \<open>now\<close>, at one of the endpoints of that channel and with its key.
\<close>

definition sent_to :: "router_state \<Rightarrow> instant \<Rightarrow> string \<Rightarrow> string \<Rightarrow> upstream_request \<Rightarrow> bool" where
  "sent_to R now model p u \<longleftrightarrow>
     (\<exists>ch m pe path key. ch \<in> set (channels R) \<and> rc_enabled ch \<and> m \<in> set (rc_mappings ch) \<and>
        rm_client_name m = model \<and> is_healthy R now (rc_channel_id ch) \<and>
        pe \<in> set (rc_protocols ch) \<and> pe_base_url pe \<noteq> [] \<and> last (pe_base_url pe) \<noteq> CHR ''/'' \<and>
        up_url u = pe_base_url pe @ unwrap_or path (pe_rewrite_path pe) \<and>
        (map_option protocol_to_str (detect_api_format p) = Some (pe_protocol pe) \<longrightarrow> path = p) \<and>
        key = unwrap_or (rc_api_key ch) (channel_api_keys R (rc_channel_id ch)) \<and> key \<noteq> [] \<and>
        filter (\<lambda>(k, _). to_lowercase k = ''authorization'') (up_headers u) = [(''authorization'', ''Bearer '' @ key)])"

text \<open>The selection behind a routed context.\<close>

definition selected_at :: "router_state \<Rightarrow> instant \<Rightarrow> string \<Rightarrow> connection_context \<Rightarrow> bool" where
  "selected_at R now model ctx \<longleftrightarrow>
     (\<exists>ch m. ch \<in> set (channels R) \<and> rc_enabled ch \<and> m \<in> set (rc_mappings ch) \<and>
        rm_client_name m = model \<and> has_api_key R (rc_channel_id ch) \<and> is_healthy R now (rc_channel_id ch) \<and>
        routed R ch m ctx)"

lemma routed_sends:
  assumes R: "router_wf R" "distinct (map rc_channel_id (channels R))"
    and sel: "selected_at R now model ctx" "selected_channel ctx = Some cc"
    and path: "target_protocol ctx = detect_api_format p \<Longrightarrow> req_path req = p"
  shows "sent_to R now model p (build_upstream_request req cc)"
proof -
  obtain ch m where ch: "ch \<in> set (channels R)" "rc_enabled ch" "m \<in> set (rc_mappings ch)"
    "has_api_key R (rc_channel_id ch)" "is_healthy R now (rc_channel_id ch)" and rt: "routed R ch m ctx"
    and m: "rm_client_name m = model" using sel(1) by (auto simp: selected_at_def)
  obtain pe where pe: "pe \<in> set (rc_protocols ch)" "pe_protocol pe = protocol_to_str (cc_protocol cc)"
    "cc_url cc = pe_base_url pe" "cc_url cc \<noteq> []" "cc_rewrite_path cc = pe_rewrite_path pe"
    and tp: "target_protocol ctx = Some (cc_protocol cc)"
    and key: "cc_api_key cc = unwrap_or (rc_api_key ch) (channel_api_keys R (rc_channel_id ch))"
    using rt sel(2) unfolding routed_def by auto
  have wf: "last (pe_base_url pe) \<noteq> CHR ''/''" "pe_rewrite_path pe \<noteq> Some []"
    using R(1) ch(1) pe(1,3,4) unfolding router_wf_def channel_wf_def by force+
  have ne: "cc_api_key cc \<noteq> []" unfolding key by (rule attached_key_nonempty [OF R(2) ch(1,4)])
  have url: "up_url (build_upstream_request req cc) = pe_base_url pe @ unwrap_or (req_path req) (pe_rewrite_path pe)"
    using wf pe(3,5) by (auto simp: build_upstream_request_def upstream_path_def trim_end_char_id split: option.split)
  have "req_path req = p" if "map_option protocol_to_str (detect_api_format p) = Some (pe_protocol pe)"
  proof -
    from that obtain f where f: "detect_api_format p = Some f" "protocol_to_str f = protocol_to_str (cc_protocol cc)"
      using pe(2) by auto
    then have "f = cc_protocol cc" using detect_api_format_known protocol_to_str_inject by blast
    with f(1) path tp show ?thesis by simp
  qed
  with ch m pe wf url key ne upstream_authorization [of req cc] show ?thesis
    unfolding sent_to_def
    by (intro exI [of _ ch] exI [of _ m] exI [of _ pe] exI [of _ "req_path req"] exI [of _ "cc_api_key cc"]) simp
qed

text \<open>
  C29. A transport failure is not a health event: when the upstream client fails on the request of a
  call, the reply is an upstream error (502, or 429 when the text of the error happens to contain these
  digits), the response chain does not run, and channel health, quotas and the database stay as they
  were, so the unreachable channel stays eligible.
\<close>

theorem transport_failure_keeps_health:
  assumes "handle_proxy_request (deployed_state D env) E arole hr w = (w', r)"
    and "w_sent w' = w_sent w @ [u]" and "se_client E u = Inl e"
  shows "r = error_reply (send_error_to_proxy e) \<and>
    (\<exists>b. r = ErrorReply (if contains ''429'' (send_error_text e) then 429 else 502) b) \<and>
    health_map (ds_router (w_state w')) = health_map (ds_router (w_state w)) \<and>
    quota_entry (rd_month (se_request_time E)) (quota_usage_map (ds_router (w_state w'))) =
      quota_entry (rd_month (se_request_time E)) (quota_usage_map (ds_router (w_state w))) \<and>
    ds_db (w_state w') = ds_db (w_state w)"
  using assms(1,2)
proof (cases rule: deployed_sent)
  case (1 cur req ctx s req' ctx' cc)
  obtain R where R: "s = (w_state w)\<lparr>ds_router := R\<rparr>"
    "same_view (rd_month (se_request_time E)) (ds_router (w_state w)) R"
    using deployed_request_state [of D "se_request_time E" "w_state w" req ctx] 1(2) by auto
  have "\<exists>b. error_reply (send_error_to_proxy e) = ErrorReply (if contains ''429'' (send_error_text e) then 429 else 502) b"
    by (simp add: error_reply_def send_error_to_proxy_def)
  with 1(5) R assms(3) show ?thesis by (simp add: same_view_def)
qed

theorem transport_failure_keeps_health_witness:
  "\<exists>w' r u. handle_proxy_request (deployed_state sample_deployment Map.empty)
     (sample_call_env (\<lambda>_. Inl (ConnectError ''port 4290''))) None sample_call (world_new sample_proxy_world) = (w', r) \<and>
     w_sent w' = [u] \<and> health_map (ds_router (w_state w')) = Map.empty \<and> (\<exists>b. r = ErrorReply 429 b)"
proof -
  let ?E = "sample_call_env (\<lambda>_. Inl (ConnectError ''port 4290''))"
  obtain w' r u where h: "handle_proxy_request (deployed_state sample_deployment Map.empty) ?E
      None sample_call (world_new sample_proxy_world) = (w', r)"
    and u: "w_sent w' = w_sent (world_new sample_proxy_world) @ [u]" using sample_handled by blast
  have c: "se_client ?E u = Inl (ConnectError ''port 4290'')" by (simp add: sample_call_env_def)
  note t = transport_failure_keeps_health [OF h u c]
  have "contains ''429'' (send_error_text (ConnectError ''port 4290''))" by simp
  moreover have "\<exists>b. r = ErrorReply (if contains ''429'' (send_error_text (ConnectError ''port 4290'')) then 429 else 502) b"
    using t by blast
  ultimately have "\<exists>b. r = ErrorReply 429 b" by presburger
  moreover have "health_map (ds_router (w_state w')) = Map.empty"
    using t by (simp add: world_new_def sample_deployment_fields sample_state_def)
  ultimately show ?thesis using h u by (auto simp: world_new_def)
qed

text \<open>When a call is a stream, and the identity of its record.\<close>

lemma is_streaming_iff:
  "is_streaming J req \<longleftrightarrow> (\<exists>v. from_slice J (req_body req) = Inr v \<and> jget ''stream'' v = Some (JBool True))"
proof -
  have "unwrap_or False (as_bool v) \<longleftrightarrow> v = JBool True" for v by (cases v) simp_all
  then have "unwrap_or False (Option.bind x as_bool) \<longleftrightarrow> x = Some (JBool True)" for x
    by (cases x) simp_all
  then show ?thesis by (simp add: is_streaming_def split: sum.split)
qed

lemma record_identity:
  assumes "admit st E arole hr w = Inr (cur, req, ctx)" "routed R ch m ctx'" "same_request ctx ctx'"
  shows "cr_session_id (build_cost_record C ctx' v) = session_header (hr_headers hr) \<and>
    cr_agent_type (build_cost_record C ctx' v) = agent_type_display (detect_agent_type (hr_headers hr) (hr_path hr)) \<and>
    cr_channel_id (build_cost_record C ctx' v) = rc_channel_id ch \<and>
    cr_upstream_channel (build_cost_record C ctx' v) = rc_channel_name ch \<and>
    cr_upstream_model (build_cost_record C ctx' v) = rm_upstream_name m"
  using assms(2,3) admit_Inr(4,5) [OF assms(1)]
  by (auto simp: build_cost_record_def routed_def same_request_def Let_def split: prod.splits)

lemma sent_call_billed:
  assumes "handle_proxy_request (deployed_state D env) E arole hr w = (w', r)" "w_sent w' = w_sent w @ [u]"
  shows "case r of
      Forwarded a h d \<Rightarrow>
        \<exists>u ctx ch m. w_sent w' = w_sent w @ [u] \<and>
          ds_db (w_state w') =
            billed D E (\<exists>v. from_slice (se_json E) (up_body u) = Inr v \<and> jget ''stream'' v = Some (JBool True))
              ctx d (ds_db (w_state w)) \<and>
          ch \<in> set (channels (ds_router (w_state w))) \<and> m \<in> set (rc_mappings ch) \<and>
          (\<forall>C v. cr_session_id (build_cost_record C ctx v) = session_header (hr_headers hr) \<and>
             cr_agent_type (build_cost_record C ctx v) =
               agent_type_display (detect_agent_type (hr_headers hr) (hr_path hr)) \<and>
             cr_channel_id (build_cost_record C ctx v) = rc_channel_id ch \<and>
             cr_upstream_channel (build_cost_record C ctx v) = rc_channel_name ch \<and>
             cr_upstream_model (build_cost_record C ctx v) = rm_upstream_name m)
    | _ \<Rightarrow> ds_db (w_state w') = ds_db (w_state w)"
  using assms
proof (cases rule: deployed_sent)
  case (1 cur req ctx s req' ctx' cc)
  have db: "ds_db s = ds_db (w_state w)"
    using deployed_request_state [of D "se_request_time E" "w_state w" req ctx] 1(2) by auto
  show ?thesis
  proof (cases "se_client E u")
    case (Inl e)
    with 1(5) db show ?thesis by (simp split: reply.split)
  next
    case (Inr up)
    note ans = deployed_answer [of "is_streaming (se_json E) req'" D env E up ctx' s "w_state w'" r]
    have run: "(if is_streaming (se_json E) req' then handle_streaming_response (deployed_state D env) E up ctx' s
        else handle_non_streaming_response (deployed_state D env) E up ctx' s) = (w_state w', r)"
      using 1(5) Inr by simp
    show ?thesis
    proof (cases "\<exists>a h d. r = Forwarded a h d")
      case True
      then obtain a h d where r: "r = Forwarded a h d" by blast
      obtain ch m where ch: "ch \<in> set (channels (ds_router (w_state w)))" "routed (ds_router (w_state w)) ch m ctx'"
        "same_request ctx ctx'" "m \<in> set (rc_mappings ch)" using deployed_request_routed [OF 1(2)] by blast
      have b: "is_streaming (se_json E) req' \<longleftrightarrow>
          (\<exists>v. from_slice (se_json E) (up_body u) = Inr v \<and> jget ''stream'' v = Some (JBool True))"
        unfolding 1(4) is_streaming_iff by (simp add: build_upstream_request_def)
      have "ds_db (w_state w') = billed D E (is_streaming (se_json E) req') ctx' d (ds_db (w_state w))"
        using ans(2) [OF run r] db by simp
      with assms(2) ch record_identity [OF 1(1) ch(2,3)] show ?thesis unfolding r reply.case b by blast
    next
      case False
      then have nf: "\<And>a h d. r \<noteq> Forwarded a h d" by blast
      from ans(3) [OF run nf] db nf show ?thesis by (simp split: reply.split)
    qed
  qed
qed

text \<open>
  C8. Only delivered replies are billed. A call that ends in an error or a panic leaves the database as
  it was. A call that forwards a reply sent one request, and hands the storage one record: if the body
  that was sent asks for a stream (its member \<open>stream\<close> is true), a record of the usage found in the event
  stream the client receives; otherwise a record of the JSON body the client receives, and none if that
  body is not JSON. The record carries the session and the agent of the client's own headers, the
  identifier and name of a channel of the router's table and the upstream model of one of its mappings.
\<close>

theorem only_delivered_replies_are_billed:
  assumes "handle_proxy_request (deployed_state D env) E arole hr w = (w', r)"
  shows "case r of
      Forwarded a h d \<Rightarrow>
        \<exists>u ctx ch m. w_sent w' = w_sent w @ [u] \<and>
          ds_db (w_state w') =
            billed D E (\<exists>v. from_slice (se_json E) (up_body u) = Inr v \<and> jget ''stream'' v = Some (JBool True))
              ctx d (ds_db (w_state w)) \<and>
          ch \<in> set (channels (ds_router (w_state w))) \<and> m \<in> set (rc_mappings ch) \<and>
          (\<forall>C v. cr_session_id (build_cost_record C ctx v) = session_header (hr_headers hr) \<and>
             cr_agent_type (build_cost_record C ctx v) =
               agent_type_display (detect_agent_type (hr_headers hr) (hr_path hr)) \<and>
             cr_channel_id (build_cost_record C ctx v) = rc_channel_id ch \<and>
             cr_upstream_channel (build_cost_record C ctx v) = rc_channel_name ch \<and>
             cr_upstream_model (build_cost_record C ctx v) = rm_upstream_name m)
    | _ \<Rightarrow> ds_db (w_state w') = ds_db (w_state w)"
proof (cases "\<exists>u. w_sent w' = w_sent w @ [u]")
  case True
  then obtain u where "w_sent w' = w_sent w @ [u]" by blast
  with assms show ?thesis by (rule sent_call_billed)
next
  case False
  have nf: "r \<noteq> Forwarded a h d" for a h d
    using handled_forwarded assms False by blast
  have "ds_db (w_state w') = ds_db (w_state w)"
    using handled_unsent [OF assms] False by blast
  with nf show ?thesis by (simp split: reply.split)
qed

theorem only_delivered_replies_are_billed_witness:
  "\<exists>w' h d r. handle_proxy_request (deployed_state sample_deployment Map.empty) (sample_call_env sample_answer) None
       sample_call (world_new sample_proxy_world) = (w', Forwarded 200 h d) \<and>
     ds_db (w_state w') = fst (insert_cost_record (dp_storage sample_deployment) sample_db r) \<and>
     cr_session_id r = None \<and> cr_agent_type r = ''claude-code''"
proof -
  let ?E = "sample_call_env sample_answer"
  obtain w' h d where r: "handle_proxy_request (deployed_state sample_deployment Map.empty) ?E None sample_call
      (world_new sample_proxy_world) = (w', Forwarded 200 h d)" using sample_answered by blast
  have J: "from_slice (se_json ?E) b = Inr (JObject [(''model'', JString ''m'')])" for b
    by (simp add: sample_call_env_def sample_json_def)
  from only_delivered_replies_are_billed [OF r] obtain ctx where
    db: "ds_db (w_state w') = billed sample_deployment ?E False ctx d sample_db"
    and id: "\<forall>C v. cr_session_id (build_cost_record C ctx v) = session_header (hr_headers sample_call) \<and>
      cr_agent_type (build_cost_record C ctx v) =
        agent_type_display (detect_agent_type (hr_headers sample_call) (hr_path sample_call))"
    by (auto simp: J world_new_def sample_proxy_world_def)
  have "session_header (hr_headers sample_call) = None"
    "agent_type_display (detect_agent_type (hr_headers sample_call) (hr_path sample_call)) = ''claude-code''"
    by (simp_all add: sample_call_def session_header_def header_find_def to_lowercase_def ascii_lower_def
        detect_agent_type_def agent_of_header_def header_str_def header_get_def to_str_def visible_ascii_def)
  with r db id show ?thesis by (auto simp: billed_def J)
qed



text \<open>
  C30. The only way a call ends without a reply: if the handler aborts, the compressor's snapshot of the
  tools panicked on this request. Then nothing was sent, and of the middlewares' state nothing changed.
\<close>

theorem abort_only_from_snapshot:
  assumes "handle_proxy_request (deployed_state D env) E arole hr w = (w', Aborted)"
  shows "w_sent w' = w_sent w \<and> w_state w' = w_state w \<and>
    (\<exists>req ctx. req_headers req = hr_headers hr \<and> hr_body hr = Some (req_body req) \<and>
       compress_on_request (dp_json D) (dp_compressors D) (ds_compress (w_state w)) req ctx = Inl Panic)"
proof (cases "admit (deployed_state D env) E arole hr w")
  case (Inl x)
  then have "x \<noteq> Aborted"
    by (auto simp: admit_def Let_def split: if_splits option.splits sum.splits prod.splits)
  with assms Inl show ?thesis by (simp add: handle_proxy_request_admit)
next
  case (Inr y)
  obtain cur req ctx where y: "y = (cur, req, ctx)" by (cases y)
  let ?w = "w\<lparr>w_next_request_id := w_next_request_id w + 1, w_cursors := cur\<rparr>"
  have mws: "ps_middlewares (deployed_state D env) = deployed_chain D" by (simp add: deployed_state_def)
  have req: "req_headers req = hr_headers hr" "hr_body hr = Some (req_body req)"
    using Inr y
    by (auto simp: admit_def to_bytes_def Let_def split: if_splits option.splits sum.splits prod.splits)
  from assms Inr y have "handle_accepted (deployed_state D env) E req ctx ?w = (w', Aborted)"
    by (simp add: handle_proxy_request_admit)
  then show ?thesis
  proof (cases rule: handle_accepted_cases)
    case (failed s f)
    then have "f = Panic" using failure_reply_Aborted by metis
    with failed have run: "run_on_request_chain (deployed_chain D (se_request_time E)) (w_state w) req ctx = (s, Inl Panic)"
      by (simp add: mws)
    from deployed_request_panic [OF run] failed(2) req show ?thesis by auto
  next
    case (answered s req' ctx' ch up s')
    with deployed_answer(1) show ?thesis by blast
  qed (use error_reply_not_Aborted in metis)+
qed

theorem abort_only_from_snapshot_witness:
  "\<exists>w'. handle_proxy_request (deployed_state (sample_deployment\<lparr>dp_json := sample_tool_json split_desc\<rparr>) Map.empty)
     (sample_call_env sample_answer) None sample_call (world_new sample_proxy_world) = (w', Aborted) \<and> w_sent w' = []"
proof -
  let ?D = "sample_deployment\<lparr>dp_json := sample_tool_json split_desc\<rparr>"
  obtain cur req where a: "admit (deployed_state ?D Map.empty) (sample_call_env sample_answer) None sample_call
      (world_new sample_proxy_world) = Inr (cur, req, sample_ctx)" using sample_admit by blast
  have "run_on_request_chain (deployed_chain ?D t) sample_proxy_world req sample_ctx = (sample_proxy_world, Inl Panic)" for t
    by (simp add: deployed_chain_def sample_deployment_fields split_desc_panics)
  then have "\<exists>w'. handle_proxy_request (deployed_state ?D Map.empty) (sample_call_env sample_answer) None sample_call
      (world_new sample_proxy_world) = (w', Aborted)"
    by (simp add: handle_proxy_request_admit a handle_accepted_def deployed_state_fields world_new_fields)
  then obtain w' where h: "handle_proxy_request (deployed_state ?D Map.empty) (sample_call_env sample_answer) None
      sample_call (world_new sample_proxy_world) = (w', Aborted)" by blast
  from abort_only_from_snapshot [OF h] h show ?thesis by (auto simp: world_new_def)
qed

text \<open>
  Savings of the response compressor are never billed: although the compressor measures every
  response it shortens, the response savings of the cost record of a call are exactly those of the
  session report.
\<close>

theorem response_savings_not_recorded:
  assumes "admit (deployed_state D env) E arole hr w = Inr (cur, req, ctx)"
    and "run_on_request_chain (deployed_chain D t) s req ctx = (s', Inr (req', ctx'))"
  shows "cr_response_saved_tokens (build_cost_record C ctx' body) = tokenless_response_saved ctx"
proof -
  have "with_stats proxy_response_saved (compression_stats_of ctx') = 0"
    using deployed_request_response_stats [OF assms(2)] admit_Inr(6) [OF assms(1)] by simp
  moreover have "tokenless_response_saved ctx' = tokenless_response_saved ctx"
    using deployed_frame.frame_chain [OF assms(2)] by (simp add: same_request_def)
  ultimately show ?thesis by (simp add: build_cost_record_def Let_def split: prod.split)
qed

theorem response_savings_not_recorded_witness:
  "\<exists>ctx'. cr_response_saved_tokens (build_cost_record (cost_env_at sample_reading) ctx' JNull) = 0"
proof -
  obtain cur req where a: "admit (deployed_state sample_deployment Map.empty) (sample_call_env sample_answer) None
      sample_call (world_new sample_proxy_world) = Inr (cur, req, sample_ctx)" using sample_admit by blast
  obtain s req' ctx' where c: "run_on_request_chain (deployed_chain sample_deployment sample_reading)
      sample_proxy_world req sample_ctx = (s, Inr (req', ctx'))" using sample_chain by blast
  from response_savings_not_recorded [OF a c] show ?thesis
    by (auto simp: connection_context_new_def)
qed

end
