(* ===== verification/Seed.thy ===== *)
theory Seed
  imports Sqlite
begin

text \<open>
  \<open>crates/storage-sqlite/src/seed.rs\<close>: the data a fresh database is filled with, and its update from a
  remote manifest. The statements run one by one without a transaction, so an entry that fails leaves
  what came before it.

  \<open>seed_env\<close> is what the operations read besides the database: the connection (twice, since
  \<open>seed_init\<close> takes a second one for its status), the embedded files, the environment variable, the
  HTTP client, SHA-256 and the JSON deserialisers of the files. A manifest lists its entries in the
  order in which the \<open>HashMap\<close> of the source iterates over them.
\<close>

section \<open>Data\<close>

record seed_model =
  sm_id :: string
  sm_provider_id :: string
  sm_client_name :: string
  sm_price_input :: f64
  sm_price_output :: f64
  sm_currency :: string
  sm_context_window :: i64
  sm_created_at :: i64

record seed_provider =
  sp_id :: string
  sp_name :: string
  sp_created_at :: i64

record seed_channel =
  sc_id :: string
  sc_name :: string
  sc_api_key :: string
  sc_protocol :: string
  sc_protocols :: string
  sc_is_builtin :: bool
  sc_enabled :: bool
  sc_billing_type :: string
  sc_monthly_quota :: "u64 option"
  sc_quota_policy :: string
  sc_priority :: u32

record seed_manifest_entry =
  se_file :: string
  se_sha256 :: string

record seed_manifest =
  sf_version :: u32
  sf_min_schema_version :: u32
  sf_updated_at :: string
  sf_entries :: "(string \<times> seed_manifest_entry) list"

record seed_entry_status =
  es_name :: string
  es_local_sha256 :: "string option"
  es_remote_sha256 :: "string option"
  es_changed :: bool

record seed_status =
  st_local_version :: u32
  st_remote_version :: "u32 option"
  st_update_available :: bool
  st_source :: string
  st_entries :: "seed_entry_status list"
  st_last_refresh_at :: "string option"
  st_last_error :: "string option"

text \<open>The answer to a GET: its status and the outcome of reading its body as text.\<close>

record seed_response =
  sr_status :: u16
  sr_text :: "string + string"

record seed_files =
  ef_providers :: string
  ef_models :: string
  ef_channels :: string
  ef_model_mappings :: string
  ef_manifest :: string

record seed_env =
  sd_conn :: sqlite_env
  sd_second_conn :: "string option"
  sd_files :: seed_files
  sd_env_url :: "string option"
  sd_client_error :: "string option"
  sd_get :: "string \<Rightarrow> string + seed_response"
  sd_status_text :: "u16 \<Rightarrow> string"
  sd_sha256 :: "string \<Rightarrow> string"
  sd_now_rfc3339 :: string
  parse_seed_providers :: "string \<Rightarrow> string + seed_provider list"
  parse_seed_models :: "string \<Rightarrow> string + seed_model list"
  parse_seed_channels :: "string \<Rightarrow> string + seed_channel list"
  parse_seed_mappings :: "string \<Rightarrow> string + model_mapping list"
  parse_seed_manifest :: "string \<Rightarrow> string + seed_manifest"

section \<open>Metadata\<close>

definition get_metadata :: "sqlite_db \<Rightarrow> string \<Rightarrow> string option" where
  "get_metadata db k = map_option sr_value (row_at sr_key k (t_seed_metadata db))"

definition set_metadata :: "sqlite_env \<Rightarrow> string \<Rightarrow> string \<Rightarrow> sqlite_db \<Rightarrow> sqlite_db" where
  "set_metadata Q k v db =
     db\<lparr>t_seed_metadata := filter (\<lambda>r. sr_key r \<noteq> k) (t_seed_metadata db)
          @ [\<lparr>sr_key = k, sr_value = v, sr_updated_at = q_now_unix Q\<rparr>]\<rparr>"

definition get_local_version_inner :: "sqlite_db \<Rightarrow> u32" where
  "get_local_version_inner db =
     (case get_metadata db ''version'' of None \<Rightarrow> 0 | Some v \<Rightarrow> unwrap_or 0 (parse_u32 v))"

definition entry_status :: "sqlite_db \<Rightarrow> seed_manifest option \<Rightarrow> string \<Rightarrow> seed_entry_status" where
  "entry_status db remote name =
     (let local_sha256 = get_metadata db (name @ '':sha256'');
          remote_sha256 = map_option se_sha256 (Option.bind remote (\<lambda>m. map_of (sf_entries m) name))
      in \<lparr>es_name = name, es_local_sha256 = local_sha256, es_remote_sha256 = remote_sha256,
          es_changed = (case (local_sha256, remote_sha256) of
             (Some l, Some r) \<Rightarrow> l \<noteq> r | (_, Some _) \<Rightarrow> True | _ \<Rightarrow> False)\<rparr>)"

definition build_status :: "sqlite_db \<Rightarrow> seed_manifest option \<Rightarrow> seed_status" where
  "build_status db remote =
     (let local_version = get_local_version_inner db;
          remote_version = map_option sf_version remote;
          last_error = get_metadata db ''last_error''
      in \<lparr>st_local_version = local_version, st_remote_version = remote_version,
          st_update_available = is_some_and (\<lambda>rv. local_version < rv) remote_version,
          st_source = unwrap_or ''unknown'' (get_metadata db ''source''),
          st_entries = map (entry_status db remote) [''providers'', ''models'', ''channels'', ''model_mappings''],
          st_last_refresh_at = get_metadata db ''last_refresh_at'',
          st_last_error = (if last_error = Some [] then None else last_error)\<rparr>)"

section \<open>Statements\<close>

text \<open>A sequence of statements that stops at the first error.\<close>

fun run_statements ::
  "('a \<Rightarrow> sqlite_db \<Rightarrow> sqlite_db \<times> (storage_error + unit)) \<Rightarrow> 'a list \<Rightarrow> sqlite_db \<Rightarrow> sqlite_db \<times> (storage_error + unit)" where
  "run_statements f [] db = (db, Inr ())"
| "run_statements f (x # xs) db =
     (case f x db of (db', Inl e) \<Rightarrow> (db', Inl e) | (db', Inr _) \<Rightarrow> run_statements f xs db')"

definition max_i64 :: "i64 \<Rightarrow> i64 \<Rightarrow> i64" where
  "max_i64 a b = (if sint a \<le> sint b then b else a)"

text \<open>\<open>INSERT OR IGNORE\<close>: a row that violates a uniqueness constraint is skipped.\<close>

definition insert_seed_provider :: "sqlite_env \<Rightarrow> seed_provider \<Rightarrow> sqlite_db \<Rightarrow> sqlite_db \<times> (storage_error + unit)" where
  "insert_seed_provider Q p db =
     (if list_ex (\<lambda>r. pr_id r = sp_id p \<or> pr_name r = sp_name p) (t_providers db) then (db, Inr ())
      else (db\<lparr>t_providers := t_providers db @
                 [\<lparr>pr_id = sp_id p, pr_name = sp_name p, pr_created_at = max_i64 (sp_created_at p) (q_now_unix Q)\<rparr>]\<rparr>,
            Inr ()))"

text \<open>A missing provider is not ignored: \<open>OR IGNORE\<close> does not apply to foreign keys.\<close>

definition insert_seed_model :: "sqlite_env \<Rightarrow> seed_model \<Rightarrow> sqlite_db \<Rightarrow> sqlite_db \<times> (storage_error + unit)" where
  "insert_seed_model Q m db =
     (if sm_price_input m = NaN \<or> sm_price_output m = NaN \<or>
         list_ex (\<lambda>r. mr_id r = sm_id m \<or> mr_client_name r = sm_client_name m) (t_models db)
      then (db, Inr ())
      else if q_foreign_keys Q \<and> row_at pr_id (sm_provider_id m) (t_providers db) = None
      then (db, Inl (Backend ''FOREIGN KEY constraint failed''))
      else (db\<lparr>t_models := t_models db @
                 [\<lparr>mr_id = sm_id m, mr_provider_id = sm_provider_id m, mr_client_name = sm_client_name m,
                   mr_price_input = sm_price_input m, mr_price_output = sm_price_output m,
                   mr_currency = sm_currency m, mr_context_window = sm_context_window m,
                   mr_created_at = max_i64 (sm_created_at m) (q_now_unix Q)\<rparr>]\<rparr>,
            Inr ()))"

definition seed_channel_row :: "sqlite_env \<Rightarrow> seed_channel \<Rightarrow> channel_row" where
  "seed_channel_row Q c =
     \<lparr>r_id = sc_id c, r_name = sc_name c, r_api_key = sc_api_key c, r_protocol = sc_protocol c,
      r_protocols = sc_protocols c, r_is_builtin = sc_is_builtin c, r_enabled = sc_enabled c,
      r_created_at = q_now_unix Q, r_updated_at = q_now_unix Q, r_health_status = ''Healthy'',
      r_cooldown_until = None, r_consecutive_failures = 0, r_billing_type = sc_billing_type c,
      r_monthly_quota = map_option uint (sc_monthly_quota c), r_quota_policy = sc_quota_policy c,
      r_priority = uint (sc_priority c), r_force_protocol = None\<rparr>"

text \<open>On conflict the key, the enabled flag, the health and the forced protocol of the row stay.\<close>

definition merge_seed_channel :: "channel_row \<Rightarrow> channel_row \<Rightarrow> channel_row" where
  "merge_seed_channel old excluded =
     old\<lparr>r_name := r_name excluded, r_protocol := r_protocol excluded, r_protocols := r_protocols excluded,
         r_is_builtin := r_is_builtin excluded, r_updated_at := r_updated_at excluded,
         r_billing_type := r_billing_type excluded, r_monthly_quota := r_monthly_quota excluded,
         r_quota_policy := r_quota_policy excluded, r_priority := r_priority excluded\<rparr>"

definition upsert_seed_channel :: "sqlite_env \<Rightarrow> seed_channel \<Rightarrow> sqlite_db \<Rightarrow> sqlite_db \<times> (storage_error + unit)" where
  "upsert_seed_channel Q c db =
     (if is_some_and (\<lambda>q. 2 ^ 63 \<le> uint q) (sc_monthly_quota c) then (db, Inl (Backend (q_param_error Q)))
      else (db\<lparr>t_channels := sql_upsert r_id merge_seed_channel (seed_channel_row Q c) (t_channels db)\<rparr>, Inr ()))"

definition upsert_seed_mapping :: "sqlite_env \<Rightarrow> model_mapping \<Rightarrow> sqlite_db \<Rightarrow> sqlite_db \<times> (storage_error + unit)" where
  "upsert_seed_mapping Q m db =
     (if q_foreign_keys Q \<and> row_at r_id (mm_channel_id m) (t_channels db) = None
      then (db, Inl (Backend (''channel not found for mapping '' @ mm_id m @ '': FOREIGN KEY constraint failed'')))
      else (db\<lparr>t_mappings := sql_upsert mm_id (\<lambda>old new. new) m (t_mappings db)\<rparr>, Inr ()))"

section \<open>Entries\<close>

definition map_parse_error :: "string \<Rightarrow> string + 'a \<Rightarrow> storage_error + 'a" where
  "map_parse_error what r = map_sum (\<lambda>e. Backend (what @ e)) id r"

definition upsert_entry :: "seed_env \<Rightarrow> string \<Rightarrow> string \<Rightarrow> sqlite_db \<Rightarrow> sqlite_db \<times> (storage_error + unit)" where
  "upsert_entry V name json db =
     (let Q = sd_conn V in
      if name = ''providers'' then
        (case map_parse_error ''invalid providers: '' (parse_seed_providers V json) of
           Inl e \<Rightarrow> (db, Inl e) | Inr ps \<Rightarrow> run_statements (insert_seed_provider Q) ps db)
      else if name = ''models'' then
        (case map_parse_error ''invalid models: '' (parse_seed_models V json) of
           Inl e \<Rightarrow> (db, Inl e) | Inr ms \<Rightarrow> run_statements (insert_seed_model Q) ms db)
      else if name = ''channels'' then
        (case map_parse_error ''invalid channels: '' (parse_seed_channels V json) of
           Inl e \<Rightarrow> (db, Inl e) | Inr cs \<Rightarrow> run_statements (upsert_seed_channel Q) cs db)
      else if name = ''modelMappings'' \<or> name = ''model_mappings'' then
        (case map_parse_error ''invalid model_mappings: '' (parse_seed_mappings V json) of
           Inl e \<Rightarrow> (db, Inl e) | Inr ms \<Rightarrow> run_statements (upsert_seed_mapping Q) ms db)
      else (db, Inl (Backend (''unknown seed entry type: '' @ name))))"

definition upsert_file :: "seed_env \<Rightarrow> string \<times> string \<Rightarrow> sqlite_db \<Rightarrow> sqlite_db \<times> (storage_error + unit)" where
  "upsert_file V f db = upsert_entry V (fst f) (snd f) db"

definition apply_all_entries ::
  "seed_env \<Rightarrow> string \<Rightarrow> string \<Rightarrow> string \<Rightarrow> string \<Rightarrow> string \<Rightarrow> sqlite_db \<Rightarrow> sqlite_db \<times> (storage_error + unit)" where
  "apply_all_entries V providers_json models_json channels_json mappings_json source db =
     (let files = [(''providers'', providers_json), (''models'', models_json),
                   (''channels'', channels_json), (''model_mappings'', mappings_json)]
      in case run_statements (upsert_file V) files db of
           (db', Inl e) \<Rightarrow> (db', Inl e)
         | (db', Inr _) \<Rightarrow>
             (set_metadata (sd_conn V) ''source'' source
               (fold (\<lambda>(name, text). set_metadata (sd_conn V) (name @ '':sha256'') (sd_sha256 V text)) files db'),
              Inr ()))"

section \<open>Operations\<close>

definition seed_status_op :: "string option \<Rightarrow> sqlite_db \<Rightarrow> storage_error + seed_status" where
  "seed_status_op pool db =
     (case pool of Some e \<Rightarrow> Inl (Connection e) | None \<Rightarrow> Inr (build_status db None))"

definition seed_init :: "seed_env \<Rightarrow> sqlite_db \<Rightarrow> sqlite_db \<times> (storage_error + seed_status)" where
  "seed_init V db =
     with_conn_upd (sd_conn V) db
       (if 0 < get_local_version_inner db then (db, seed_status_op (sd_second_conn V) db)
        else
          let f = sd_files V in
          case apply_all_entries V (ef_providers f) (ef_models f) (ef_channels f) (ef_model_mappings f) ''embedded'' db of
            (db1, Inl e) \<Rightarrow> (db1, Inl e)
          | (db1, Inr _) \<Rightarrow>
              (case map_parse_error ''failed to parse embedded manifest: '' (parse_seed_manifest V (ef_manifest f)) of
                 Inl e \<Rightarrow> (db1, Inl e)
               | Inr manifest \<Rightarrow>
                   let db2 = set_metadata (sd_conn V) ''version'' (show_nat (unat (sf_version manifest))) db1
                   in (db2, seed_status_op (sd_second_conn V) db2)))"

definition no_seed_url :: string where
  "no_seed_url =
     ''no seed URL provided '' @ [CHR 0xE2, CHR 0x80, CHR 0x94] @ '' set AGENT_PROXY_SEED_URL or pass a URL''"

definition resolve_seed_url :: "seed_env \<Rightarrow> string option \<Rightarrow> storage_error + string" where
  "resolve_seed_url V explicit =
     (case explicit of
        Some url \<Rightarrow> Inr (trim_end_char (CHR ''/'') url)
      | None \<Rightarrow>
          (case map_option (trim_end_char (CHR ''/'')) (sd_env_url V) of
             Some url \<Rightarrow>
               if url \<noteq> [] then Inr url
               else Inl (Backend no_seed_url)
           | None \<Rightarrow> Inl (Backend no_seed_url)))"

definition http_client :: "seed_env \<Rightarrow> storage_error + unit" where
  "http_client V =
     (case sd_client_error V of
        Some e \<Rightarrow> Inl (Backend (''failed to create HTTP client: '' @ e)) | None \<Rightarrow> Inr ())"

abbreviation http_success :: "u16 \<Rightarrow> bool" where
  "http_success s \<equiv> 200 \<le> s \<and> s < 300"

definition fetch_manifest :: "seed_env \<Rightarrow> string \<Rightarrow> storage_error + seed_manifest" where
  "fetch_manifest V base_url =
     (let url = base_url @ ''/seed-manifest.json'' in
      res_bind (http_client V) (\<lambda>_.
        res_bind (map_parse_error ''failed to fetch manifest: '' (sd_get V url)) (\<lambda>resp.
          if \<not> http_success (sr_status resp)
          then Inl (Backend (''manifest fetch returned '' @ sd_status_text V (sr_status resp)))
          else map_parse_error (''failed to parse manifest from '' @ url @ '': '')
                 (res_bind (sr_text resp) (parse_seed_manifest V)))))"

text \<open>The body of an entry, or the error before anything is applied.\<close>

definition fetch_entry :: "seed_env \<Rightarrow> string \<Rightarrow> string \<Rightarrow> seed_manifest_entry \<Rightarrow> storage_error + string" where
  "fetch_entry V base_url name entry =
     (let url = base_url @ ''/'' @ se_file entry in
      res_bind (http_client V) (\<lambda>_.
        res_bind (map_parse_error (''failed to fetch '' @ url @ '': '') (sd_get V url)) (\<lambda>resp.
          if \<not> http_success (sr_status resp)
          then Inl (Backend (''fetch '' @ url @ '' returned '' @ sd_status_text V (sr_status resp)))
          else res_bind (map_parse_error (''failed to read response body from '' @ url @ '': '') (sr_text resp)) (\<lambda>body.
            if sd_sha256 V body \<noteq> se_sha256 entry
            then Inl (Backend (''SHA-256 mismatch for '' @ name @ '': expected '' @ se_sha256 entry
                   @ '', got '' @ sd_sha256 V body))
            else Inr body))))"

definition fetch_and_apply_entry ::
  "seed_env \<Rightarrow> string \<Rightarrow> string \<Rightarrow> seed_manifest_entry \<Rightarrow> sqlite_db \<Rightarrow> sqlite_db \<times> (storage_error + unit)" where
  "fetch_and_apply_entry V base_url name entry db =
     (case fetch_entry V base_url name entry of
        Inl e \<Rightarrow> (db, Inl e)
      | Inr body \<Rightarrow>
          (case upsert_entry V name body db of
             (db', Inl e) \<Rightarrow> (db', Inl e)
           | (db', Inr _) \<Rightarrow> (set_metadata (sd_conn V) (name @ '':sha256'') (se_sha256 entry) db', Inr ())))"

text \<open>The loop over the manifest, with the errors so far.\<close>

fun refresh_entries ::
  "seed_env \<Rightarrow> string \<Rightarrow> (string \<times> seed_manifest_entry) list \<Rightarrow> sqlite_db \<Rightarrow> string list \<Rightarrow> sqlite_db \<times> string list" where
  "refresh_entries V base_url [] db errors = (db, errors)"
| "refresh_entries V base_url ((name, entry) # es) db errors =
     (if get_metadata db (name @ '':sha256'') = Some (se_sha256 entry)
      then refresh_entries V base_url es db errors
      else
        case fetch_and_apply_entry V base_url name entry db of
          (db', Inr _) \<Rightarrow> refresh_entries V base_url es db' errors
        | (db', Inl e) \<Rightarrow> refresh_entries V base_url es db' (errors @ [name @ '': '' @ storage_error_display e]))"

fun join :: "string \<Rightarrow> string list \<Rightarrow> string" where
  "join sep [] = []"
| "join sep [x] = x"
| "join sep (x # y # xs) = x @ sep @ join sep (y # xs)"

definition finish_refresh ::
  "seed_env \<Rightarrow> string \<Rightarrow> seed_manifest \<Rightarrow> sqlite_db \<Rightarrow> string list \<Rightarrow> sqlite_db" where
  "finish_refresh V base_url manifest db errors =
     (let put = set_metadata (sd_conn V) in
      if errors = [] then
        put ''remote_url'' base_url (put ''source'' ''remote'' (put ''last_error'' []
          (put ''last_refresh_at'' (sd_now_rfc3339 V) (put ''version'' (show_nat (unat (sf_version manifest))) db))))
      else put ''last_error'' (join ''; '' errors) db)"

definition seed_refresh :: "seed_env \<Rightarrow> string option \<Rightarrow> sqlite_db \<Rightarrow> sqlite_db \<times> (storage_error + seed_status)" where
  "seed_refresh V url db =
     (case res_bind (resolve_seed_url V url) (\<lambda>base_url. map_sum id (Pair base_url) (fetch_manifest V base_url)) of
        Inl e \<Rightarrow> (db, Inl e)
      | Inr (base_url, manifest) \<Rightarrow>
          with_conn_upd (sd_conn V) db
            (if sf_version manifest \<le> get_local_version_inner db
             then (db, Inr (build_status db (Some manifest)))
             else
               let (db1, errors) = refresh_entries V base_url (sf_entries manifest) db [];
                   db2 = finish_refresh V base_url manifest db1 errors
               in (db2, Inr (build_status db2 (Some manifest)))))"

text \<open>Without a caller in the repository.\<close>

definition check_remote_manifest ::
  "seed_env \<Rightarrow> string \<Rightarrow> sqlite_db \<Rightarrow> storage_error + (seed_manifest \<times> seed_status) option" where
  "check_remote_manifest V base_url db =
     res_bind (fetch_manifest V base_url) (\<lambda>manifest.
       with_conn (sd_conn V) (Inr (Some (manifest, build_status db (Some manifest)))))"

definition seed_check_remote :: "seed_env \<Rightarrow> string option \<Rightarrow> sqlite_db \<Rightarrow> storage_error + seed_status" where
  "seed_check_remote V url db =
     res_bind (resolve_seed_url V url) (\<lambda>base_url.
       with_conn (sd_conn V)
         (case fetch_manifest V base_url of
            Inr manifest \<Rightarrow> Inr (build_status db (Some manifest))
          | Inl e \<Rightarrow> Inr ((build_status db None)\<lparr>st_last_error := Some (storage_error_display e)\<rparr>)))"

end
