(* ===== verification/Health_Probe.thy ===== *)
theory Health_Probe
  imports Storage_Types Json Model_Router
begin

text \<open>
  \<open>apps/server/src/health_probe.rs\<close>: a probe asks the channel's first protocol for the cheapest model of
  the channel and classifies the answer. Sending is the argument \<open>pb_send\<close> of \<open>probe_env\<close>: it answers a
  request with its latency in milliseconds and either the upstream's status or, for a failure of the
  client, the status the error carries. \<open>pb_client\<close> says whether the client could be built.
\<close>

datatype probe_result =
  ProbeHealthy | InvalidKey | ProbeRateLimited | Unreachable | NoModels | NoProtocols | ProbeUnknown

fun probe_is_healthy :: "probe_result \<Rightarrow> bool" where
  "probe_is_healthy ProbeHealthy = True"
| "probe_is_healthy ProbeRateLimited = True"
| "probe_is_healthy _ = False"

fun as_health_status :: "probe_result \<Rightarrow> string" where
  "as_health_status ProbeHealthy = ''Healthy''"
| "as_health_status ProbeRateLimited = ''Healthy''"
| "as_health_status InvalidKey = ''Degraded''"
| "as_health_status Unreachable = ''Degraded''"
| "as_health_status ProbeUnknown = ''Degraded''"
| "as_health_status NoModels = ''Unavailable''"
| "as_health_status NoProtocols = ''Unavailable''"

record probe_response =
  pb_result :: probe_result
  pb_model :: string
  pb_latency_ms :: u64
  pb_http_status :: u16

record probe_request =
  pq_url :: string
  pq_headers :: "(string \<times> string) list"
  pq_body :: json

record probe_env =
  pb_client :: bool
  pb_send :: "probe_request \<Rightarrow> u64 \<times> (u16 option + u16)"

text \<open>The loop over the enabled mappings, with the best price so far.\<close>

fun cheapest_of :: "model list \<Rightarrow> (f64 \<times> string) option \<Rightarrow> model_mapping list \<Rightarrow> (f64 \<times> string) option" where
  "cheapest_of models best [] = best"
| "cheapest_of models best (m # ms) =
     (case find (\<lambda>x. md_client_name x = mm_client_name m) models of
        None \<Rightarrow> cheapest_of models best ms
      | Some x \<Rightarrow>
          let total_price = f64_add (md_price_input x) (md_price_output x)
          in cheapest_of models
               (if is_none_or (\<lambda>b. f64_lt total_price (fst b)) best then Some (total_price, mm_upstream_name m) else best) ms)"

definition find_cheapest_model :: "'s storage \<Rightarrow> 's \<Rightarrow> string \<Rightarrow> string option" where
  "find_cheapest_model S db channel_id =
     (case list_mappings S db channel_id of
        Inl _ \<Rightarrow> None
      | Inr mappings \<Rightarrow>
          let on = filter mm_enabled mappings in
          if on = [] then None
          else (case list_models S db None of
                  Inl _ \<Rightarrow> None
                | Inr all_models \<Rightarrow> map_option snd (cheapest_of all_models None on)))"

definition probe_chat_body :: "string \<Rightarrow> json" where
  "probe_chat_body model_name =
     JObject [(''max_tokens'', JNumber (PosInt 1)),
              (''messages'', JArray [JObject [(''content'', JString ''hi''), (''role'', JString ''user'')]]),
              (''model'', JString model_name)]"

definition build_probe_request :: "protocol_entry \<Rightarrow> string \<Rightarrow> (string \<times> json) option" where
  "build_probe_request p model_name =
     (let base_url = trim_end_char (CHR ''/'') (pe_base_url p) in
      if pe_protocol p = ''openai_chat'' then Some (base_url @ ''/v1/chat/completions'', probe_chat_body model_name)
      else if pe_protocol p = ''anthropic_messages'' then Some (base_url @ ''/v1/messages'', probe_chat_body model_name)
      else if pe_protocol p = ''openai_responses''
      then Some (base_url @ ''/v1/responses'', JObject [(''input'', JString ''hi''), (''model'', JString model_name)])
      else None)"

definition no_protocol_response :: probe_response where
  "no_protocol_response = \<lparr>pb_result = NoProtocols, pb_model = [], pb_latency_ms = 0, pb_http_status = 0\<rparr>"

definition no_model_response :: probe_response where
  "no_model_response = \<lparr>pb_result = NoModels, pb_model = [], pb_latency_ms = 0, pb_http_status = 0\<rparr>"

definition probe_headers :: "channel \<Rightarrow> protocol_entry \<Rightarrow> (string \<times> string) list" where
  "probe_headers c p =
     (''Content-Type'', ''application/json'') #
     (if ch_api_key c = [] then []
      else if pe_protocol p = ''anthropic_messages''
      then [(''x-api-key'', ch_api_key c), (''anthropic-version'', ''2023-06-01'')]
      else [(''Authorization'', ''Bearer '' @ ch_api_key c)])"

definition classify_probe :: "u16 \<Rightarrow> probe_result" where
  "classify_probe status =
     (if 200 \<le> status \<and> status \<le> 299 then ProbeHealthy
      else if status = 401 \<or> status = 403 then InvalidKey
      else if status = 429 then ProbeRateLimited
      else ProbeUnknown)"

definition send_probe :: "probe_env \<Rightarrow> channel \<Rightarrow> protocol_entry \<Rightarrow> string \<Rightarrow> json \<Rightarrow> string \<Rightarrow> probe_response" where
  "send_probe B c p url body model_name =
     (if \<not> pb_client B
      then \<lparr>pb_result = Unreachable, pb_model = model_name, pb_latency_ms = 0, pb_http_status = 0\<rparr>
      else
        case pb_send B \<lparr>pq_url = url, pq_headers = probe_headers c p, pq_body = body\<rparr> of
          (latency, Inr status) \<Rightarrow>
            \<lparr>pb_result = classify_probe status, pb_model = model_name, pb_latency_ms = latency, pb_http_status = status\<rparr>
        | (latency, Inl status) \<Rightarrow>
            \<lparr>pb_result = Unreachable, pb_model = model_name, pb_latency_ms = latency,
             pb_http_status = unwrap_or 0 status\<rparr>)"

definition probe_channel :: "'s storage \<Rightarrow> router_parsers \<Rightarrow> probe_env \<Rightarrow> 's \<Rightarrow> channel \<Rightarrow> probe_response" where
  "probe_channel S P B db c =
     (case unwrap_or [] (parse_protocols P (ch_protocols c)) of
        [] \<Rightarrow> no_protocol_response
      | p # _ \<Rightarrow>
          (case find_cheapest_model S db (ch_id c) of
             None \<Rightarrow> no_model_response
           | Some model_name \<Rightarrow>
               (case build_probe_request p model_name of
                  None \<Rightarrow> \<lparr>pb_result = NoProtocols, pb_model = model_name, pb_latency_ms = 0, pb_http_status = 0\<rparr>
                | Some (url, body) \<Rightarrow> send_probe B c p url body model_name)))"

end
