(* ===== verification/Admin.thy ===== *)
theory Admin
  imports Deployment Seed Health_Probe
begin

text \<open>
  \<open>apps/server/src/admin.rs\<close>: the handlers of the admin API. They share their state with the proxy: the
  database, the compression switch, and the router's channel table, health map and key map, which are
  the fields of \<open>proxy_world\<close>. A request is a value of \<open>admin_request\<close>, after routing and
  deserialisation; \<open>admin_env\<close> is what the handlers call and read.
\<close>

section \<open>Requests and errors\<close>

record app_error =
  ae_status :: status
  ae_code :: string
  ae_message :: string

definition app_error_new :: "status \<Rightarrow> string \<Rightarrow> string \<Rightarrow> app_error" where
  "app_error_new s c m = \<lparr>ae_status = s, ae_code = c, ae_message = m\<rparr>"

definition app_not_found :: "string \<Rightarrow> app_error" where
  "app_not_found resource = app_error_new 404 ''not_found'' (resource @ '' not found'')"

definition app_error_of_storage :: "storage_error \<Rightarrow> app_error" where
  "app_error_of_storage e = app_error_new 500 ''internal_error'' (storage_error_display e)"

definition app_error_body :: "app_error \<Rightarrow> json" where
  "app_error_body e =
     JObject [(''error'', JObject [(''code'', JString (ae_code e)), (''message'', JString (ae_message e))])]"

text \<open>The handlers that tell a missing row from the other errors.\<close>

fun not_found_or :: "string \<Rightarrow> storage_error \<Rightarrow> app_error" where
  "not_found_or resource (NotFound _) = app_not_found resource"
| "not_found_or resource e = app_error_of_storage e"

record update_mapping_body =
  um_upstream_name :: "string option"
  um_client_name :: "string option"
  um_billing :: "string option"
  um_pricing_json :: "string option"
  um_weight :: "u32 option"
  um_enabled :: "bool option"
  um_protocols :: "string option"

record cost_records_query =
  cq_project :: "string option"
  cq_model_name :: "string option"
  cq_channel_name :: "string option"
  cq_days :: "u32 option"
  cq_limit :: "u32 option"
  cq_offset :: "u32 option"
  cq_tz_offset :: "int option"

record cost_report_query =
  rq_project :: "string option"
  rq_days :: u32
  rq_group_by :: "string option"
  rq_tz_offset :: "int option"

record compression_savings_report =
  sv_schema_saved_tokens :: i64
  sv_response_saved_tokens :: i64
  sv_rtk_saved_tokens :: i64
  sv_total_saved_tokens :: i64

record seed_refresh_response =
  sx_success :: bool
  sx_previous_version :: u32
  sx_new_version :: u32
  sx_source :: string
  sx_errors :: "string list"

record channel_protocols_response =
  cp_channel_id :: string
  cp_channel_name :: string
  cp_protocols :: "protocol_entry list"

text \<open>
  \<open>ad_protocols_error\<close> is the message of the JSON package for a text that is not a list of protocols,
  \<open>ad_debug_list\<close> the debug format of a list of strings, \<open>ad_min_time\<close> the earliest second the date
  package represents; a date before it is a panic.
\<close>

record 'db admin_env =
  ad_storage :: "'db storage"
  ad_parsers :: router_parsers
  ad_probe :: probe_env
  ad_now :: instant
  ad_unix :: int
  ad_min_time :: int
  ad_protocols_error :: "string \<Rightarrow> string"
  ad_debug_list :: "string list \<Rightarrow> string"
  ad_seed_status :: "'db \<Rightarrow> storage_error + seed_status"
  ad_seed_check_remote :: "string option \<Rightarrow> 'db \<Rightarrow> storage_error + seed_status"
  ad_seed_refresh :: "string option \<Rightarrow> 'db \<Rightarrow> 'db \<times> (storage_error + seed_status)"

type_synonym ('db, 'a) handler = "'db proxy_world \<Rightarrow> 'db proxy_world \<times> (app_error + 'a)"

text \<open>A query of the storage, and an update with its error mapping.\<close>

definition storage_query :: "('db \<Rightarrow> storage_error + 'a) \<Rightarrow> ('db, 'a) handler" where
  "storage_query q w = (w, map_sum app_error_of_storage id (q (ds_db w)))"

definition storage_update ::
  "(storage_error \<Rightarrow> app_error) \<Rightarrow> ('db \<Rightarrow> 'db \<times> (storage_error + 'a)) \<Rightarrow> ('db, 'a) handler" where
  "storage_update conv u w = (let (db, r) = u (ds_db w) in (w\<lparr>ds_db := db\<rparr>, map_sum conv id r))"

text \<open>Sequencing with \<open>?\<close>.\<close>

definition and_then :: "('db, 'a) handler \<Rightarrow> ('a \<Rightarrow> ('db, 'b) handler) \<Rightarrow> ('db, 'b) handler" where
  "and_then h k w = (case h w of (w', Inl e) \<Rightarrow> (w', Inl e) | (w', Inr x) \<Rightarrow> k x w')"

definition or_not_found :: "string \<Rightarrow> ('db, 'a option) handler \<Rightarrow> ('db, 'a) handler" where
  "or_not_found resource h =
     and_then h (\<lambda>x w. (w, case x of None \<Rightarrow> Inl (app_not_found resource) | Some y \<Rightarrow> Inr y))"

section \<open>Shared state\<close>

text \<open>A failed reload is logged only.\<close>

definition reload_channels :: "'db admin_env \<Rightarrow> 'db proxy_world \<Rightarrow> 'db proxy_world" where
  "reload_channels A w =
     w\<lparr>ds_router := fst (reload_channels_from_storage (ad_storage A) (ad_parsers A) (ds_db w) (ds_router w))\<rparr>"

definition then_reload :: "'db admin_env \<Rightarrow> 'a \<Rightarrow> ('db, 'a) handler" where
  "then_reload A x w = (reload_channels A w, Inr x)"

definition upd_health :: "(channel_state hashmap \<Rightarrow> channel_state hashmap) \<Rightarrow> 'db proxy_world \<Rightarrow> 'db proxy_world" where
  "upd_health f w = w\<lparr>ds_router := (ds_router w)\<lparr>health_map := f (health_map (ds_router w))\<rparr>\<rparr>"

definition upd_keys :: "(string hashmap \<Rightarrow> string hashmap) \<Rightarrow> 'db proxy_world \<Rightarrow> 'db proxy_world" where
  "upd_keys f w = w\<lparr>ds_router := (ds_router w)\<lparr>channel_api_keys := f (channel_api_keys (ds_router w))\<rparr>\<rparr>"

text \<open>\<open>let _ = state.storage....await\<close>\<close>

definition ignoring :: "('db \<Rightarrow> 'db \<times> (storage_error + unit)) \<Rightarrow> 'db proxy_world \<Rightarrow> 'db proxy_world" where
  "ignoring u w = w\<lparr>ds_db := fst (u (ds_db w))\<rparr>"

section \<open>Providers, models and channels\<close>

definition admin_list_providers :: "'db admin_env \<Rightarrow> ('db, provider list) handler" where
  "admin_list_providers A = storage_query (list_providers (ad_storage A))"

definition admin_list_models :: "'db admin_env \<Rightarrow> string option \<Rightarrow> ('db, model list) handler" where
  "admin_list_models A provider_id = storage_query (\<lambda>db. list_models (ad_storage A) db provider_id)"

definition admin_list_channels :: "'db admin_env \<Rightarrow> string option \<Rightarrow> ('db, channel list) handler" where
  "admin_list_channels A model_id = storage_query (\<lambda>db. list_channels (ad_storage A) db model_id)"

definition admin_list_available_channels :: "'db admin_env \<Rightarrow> ('db, available_channel_info list) handler" where
  "admin_list_available_channels A = storage_query (list_available_channels (ad_storage A))"

definition admin_list_projects :: "'db admin_env \<Rightarrow> ('db, string list) handler" where
  "admin_list_projects A = storage_query (list_projects (ad_storage A))"

definition admin_query_switch_logs :: "'db admin_env \<Rightarrow> u32 option \<Rightarrow> ('db, switch_log list) handler" where
  "admin_query_switch_logs A limit = storage_query (\<lambda>db. query_switch_logs (ad_storage A) db limit)"

definition admin_get_provider :: "'db admin_env \<Rightarrow> string \<Rightarrow> ('db, provider) handler" where
  "admin_get_provider A k =
     or_not_found (''provider '' @ k) (storage_query (\<lambda>db. get_provider (ad_storage A) db k))"

definition admin_get_model :: "'db admin_env \<Rightarrow> string \<Rightarrow> ('db, model) handler" where
  "admin_get_model A k = or_not_found (''model '' @ k) (storage_query (\<lambda>db. get_model (ad_storage A) db k))"

definition admin_get_channel :: "'db admin_env \<Rightarrow> string \<Rightarrow> ('db, channel) handler" where
  "admin_get_channel A k = or_not_found (''channel '' @ k) (storage_query (\<lambda>db. get_channel (ad_storage A) db k))"

text \<open>The check of the forced protocol against the new or the stored protocols.\<close>

definition validate_force_protocol :: "'db admin_env \<Rightarrow> string \<Rightarrow> channel_update \<Rightarrow> ('db, unit) handler" where
  "validate_force_protocol A k body =
     (case cu_force_protocol body of
        None \<Rightarrow> (\<lambda>w. (w, Inr ()))
      | Some fp \<Rightarrow>
          and_then
            (case cu_protocols body of
               Some new_protocols \<Rightarrow> (\<lambda>w. (w, Inr new_protocols))
             | None \<Rightarrow> and_then (admin_get_channel A k) (\<lambda>c w. (w, Inr (ch_protocols c))))
            (\<lambda>protocols_json w.
               (w, case parse_protocols (ad_parsers A) protocols_json of
                     None \<Rightarrow> Inl (app_error_new 400 ''bad_request''
                               (''invalid protocols JSON: '' @ ad_protocols_error A protocols_json))
                   | Some entries \<Rightarrow>
                       if list_ex (\<lambda>e. pe_protocol e = fp) entries then Inr ()
                       else Inl (app_error_new 400 ''bad_request''
                              (''force_protocol '' @ [CHR 0x27] @ fp @ [CHR 0x27] @
                               '' not found in channel protocols. Supported: '' @
                               ad_debug_list A (map pe_protocol entries))))))"

definition admin_update_channel :: "'db admin_env \<Rightarrow> string \<Rightarrow> channel_update \<Rightarrow> ('db, channel) handler" where
  "admin_update_channel A k body =
     and_then (validate_force_protocol A k body) (\<lambda>_.
       and_then (storage_update (not_found_or (''channel '' @ k)) (\<lambda>db. update_channel (ad_storage A) db k body))
         (then_reload A))"

definition deleted_json :: json where
  "deleted_json = JObject [(''deleted'', JBool True)]"

definition ok_json :: json where
  "ok_json = JObject [(''status'', JString ''ok'')]"

definition admin_delete_channel :: "'db admin_env \<Rightarrow> string \<Rightarrow> ('db, json) handler" where
  "admin_delete_channel A k =
     and_then (storage_update (not_found_or (''channel '' @ k)) (\<lambda>db. delete_channel (ad_storage A) db k))
       (\<lambda>_. then_reload A deleted_json)"

definition admin_get_channel_protocols :: "'db admin_env \<Rightarrow> string \<Rightarrow> ('db, channel_protocols_response) handler" where
  "admin_get_channel_protocols A k =
     and_then (admin_get_channel A k) (\<lambda>c w.
       (w, case parse_protocols (ad_parsers A) (ch_protocols c) of
             None \<Rightarrow> Inl (app_error_new 500 ''internal_error''
                       (''failed to parse protocols JSON: '' @ ad_protocols_error A (ch_protocols c)))
           | Some ps \<Rightarrow> Inr \<lparr>cp_channel_id = ch_id c, cp_channel_name = ch_name c, cp_protocols = ps\<rparr>))"

definition admin_mark_channel_healthy :: "'db admin_env \<Rightarrow> string \<Rightarrow> ('db, json) handler" where
  "admin_mark_channel_healthy A k =
     and_then (storage_update app_error_of_storage (\<lambda>db. mark_channel_healthy (ad_storage A) db k))
       (\<lambda>_ w. (w, Inr ok_json))"

definition admin_record_channel_failure :: "'db admin_env \<Rightarrow> string \<Rightarrow> ('db, json) handler" where
  "admin_record_channel_failure A k =
     and_then (storage_update app_error_of_storage (\<lambda>db. record_channel_failure (ad_storage A) db k))
       (\<lambda>_ w. (w, Inr ok_json))"

section \<open>Keys and probes\<close>

definition run_probe :: "'db admin_env \<Rightarrow> channel \<Rightarrow> 'db proxy_world \<Rightarrow> probe_response" where
  "run_probe A c w = probe_channel (ad_storage A) (ad_parsers A) (ad_probe A) (ds_db w) c"

definition note_healthy :: "'db admin_env \<Rightarrow> string \<Rightarrow> 'db proxy_world \<Rightarrow> 'db proxy_world" where
  "note_healthy A k w =
     ignoring (\<lambda>db. mark_channel_healthy (ad_storage A) db k) (upd_health (\<lambda>h. h(k := None)) w)"

definition note_unhealthy :: "'db admin_env \<Rightarrow> string \<Rightarrow> 'db proxy_world \<Rightarrow> 'db proxy_world" where
  "note_unhealthy A k = upd_health (mark_unhealthy_immediate (ad_now A) k)"

text \<open>The reply is the outcome of the probe, \<open>None\<close> when none ran.\<close>

definition admin_set_channel_api_key ::
  "'db admin_env \<Rightarrow> string \<Rightarrow> string \<Rightarrow> ('db, probe_response option) handler" where
  "admin_set_channel_api_key A k key =
     and_then (storage_update app_error_of_storage (\<lambda>db. set_channel_api_key (ad_storage A) db k key)) (\<lambda>_.
       if key = [] then
         (\<lambda>w. (ignoring (\<lambda>db. record_channel_failure (ad_storage A) db k)
                 (note_unhealthy A k (upd_keys (\<lambda>m. m(k := None)) w)), Inr None))
       else
         (\<lambda>w. and_then (admin_get_channel A k) (\<lambda>c w'.
            let probe = run_probe A c w' in
            ((if probe_is_healthy (pb_result probe) then note_healthy A k w' else note_unhealthy A k w'), Inr (Some probe)))
          (upd_keys (\<lambda>m. m(k \<mapsto> key)) w)))"

definition admin_probe_channel :: "'db admin_env \<Rightarrow> string \<Rightarrow> ('db, probe_response) handler" where
  "admin_probe_channel A k =
     and_then (admin_get_channel A k) (\<lambda>c w.
       let probe = run_probe A c w in
       (if probe_is_healthy (pb_result probe) then note_healthy A k w
        else if pb_result probe \<noteq> NoModels \<and> pb_result probe \<noteq> NoProtocols then note_unhealthy A k w
        else w, Inr probe))"

section \<open>Mappings and aliases\<close>

definition admin_list_model_mappings :: "'db admin_env \<Rightarrow> ('db, model_mapping list) handler" where
  "admin_list_model_mappings A = storage_query (list_all_mappings (ad_storage A))"

definition admin_list_model_aliases :: "'db admin_env \<Rightarrow> ('db, model_alias list) handler" where
  "admin_list_model_aliases A = storage_query (list_model_aliases (ad_storage A))"

definition admin_create_model_mapping :: "'db admin_env \<Rightarrow> model_mapping \<Rightarrow> ('db, model_mapping) handler" where
  "admin_create_model_mapping A m =
     and_then (storage_update app_error_of_storage (\<lambda>db. upsert_mapping (ad_storage A) db m)) (\<lambda>_. then_reload A m)"

definition apply_mapping_update :: "update_mapping_body \<Rightarrow> model_mapping \<Rightarrow> model_mapping" where
  "apply_mapping_update b m =
     m\<lparr>mm_upstream_name := unwrap_or (mm_upstream_name m) (um_upstream_name b),
       mm_client_name := unwrap_or (mm_client_name m) (um_client_name b),
       mm_billing := unwrap_or (mm_billing m) (um_billing b),
       mm_pricing_json := unwrap_or (mm_pricing_json m) (um_pricing_json b),
       mm_weight := unwrap_or (mm_weight m) (um_weight b),
       mm_enabled := unwrap_or (mm_enabled m) (um_enabled b),
       mm_protocols := unwrap_or (mm_protocols m) (um_protocols b)\<rparr>"

definition admin_update_model_mapping :: "'db admin_env \<Rightarrow> string \<Rightarrow> update_mapping_body \<Rightarrow> ('db, json) handler" where
  "admin_update_model_mapping A k body =
     and_then (storage_query (list_all_mappings (ad_storage A))) (\<lambda>mappings.
       case find (\<lambda>m. mm_id m = k) mappings of
         None \<Rightarrow> (\<lambda>w. (w, Inl (app_not_found (''mapping '' @ k))))
       | Some existing \<Rightarrow>
           and_then (storage_update app_error_of_storage
               (\<lambda>db. upsert_mapping (ad_storage A) db (apply_mapping_update body existing)))
             (\<lambda>_. then_reload A ok_json))"

definition admin_delete_model_mapping :: "'db admin_env \<Rightarrow> string \<Rightarrow> ('db, json) handler" where
  "admin_delete_model_mapping A k =
     and_then (storage_update (not_found_or (''mapping '' @ k)) (\<lambda>db. delete_mapping (ad_storage A) db k))
       (\<lambda>_. then_reload A deleted_json)"

definition admin_create_model_alias :: "'db admin_env \<Rightarrow> model_alias_request \<Rightarrow> ('db, model_alias) handler" where
  "admin_create_model_alias A req =
     storage_update app_error_of_storage (\<lambda>db. upsert_model_alias (ad_storage A) db req)"

definition admin_delete_model_alias :: "'db admin_env \<Rightarrow> i64 \<Rightarrow> ('db, json) handler" where
  "admin_delete_model_alias A k =
     and_then (storage_update (not_found_or (''alias '' @ show_int (sint k))) (\<lambda>db. delete_model_alias (ad_storage A) db k))
       (\<lambda>_ w. (w, Inr deleted_json))"

section \<open>Health, seed data and compression\<close>

definition clamp_u32 :: "nat \<Rightarrow> u32" where
  "clamp_u32 n = (if n < 2 ^ 32 then of_nat n else of_nat (2 ^ 32 - 1))"

definition admin_health :: "'db admin_env \<Rightarrow> ('db, bool \<times> u32 \<times> u32) handler" where
  "admin_health A w =
     (let healthy = (case health_check (ad_storage A) (ds_db w) of Inl _ \<Rightarrow> False | Inr b \<Rightarrow> b);
          chs = (case list_channels (ad_storage A) (ds_db w) None of Inl _ \<Rightarrow> [] | Inr cs \<Rightarrow> cs)
      in (w, Inr (healthy,
            clamp_u32 (length (filter (\<lambda>c. ch_enabled c \<and> ch_health_status c = health_status_str HsHealthy) chs)),
            clamp_u32 (length chs))))"

definition admin_seed_status :: "'db admin_env \<Rightarrow> bool \<Rightarrow> ('db, seed_status) handler" where
  "admin_seed_status A remote =
     (if remote then storage_query (ad_seed_check_remote A None) else storage_query (ad_seed_status A))"

definition admin_seed_refresh :: "'db admin_env \<Rightarrow> string option \<Rightarrow> ('db, seed_refresh_response) handler" where
  "admin_seed_refresh A url =
     and_then (storage_query (ad_seed_status A)) (\<lambda>previous.
       and_then (storage_update app_error_of_storage (ad_seed_refresh A url)) (\<lambda>s w.
         (w, Inr \<lparr>sx_success = (st_last_error s = None), sx_previous_version = st_local_version previous,
                  sx_new_version = st_local_version s, sx_source = st_source s,
                  sx_errors = (case st_last_error s of None \<Rightarrow> [] | Some e \<Rightarrow> [e])\<rparr>)))"

definition admin_compress_status :: "('db, bool) handler" where
  "admin_compress_status w = (w, Inr (enabled (ds_compress w)))"

definition admin_compress_toggle :: "bool \<Rightarrow> ('db, bool) handler" where
  "admin_compress_toggle b w = (w\<lparr>ds_compress := (ds_compress w)\<lparr>enabled := b\<rparr>\<rparr>, Inr b)"

section \<open>Cost reports\<close>

text \<open>
  Seconds since the epoch. The offset is clamped, so it is always a valid one; subtracting days from
  the local midnight panics (\<open>None\<close>) when the date package cannot represent the result.
\<close>

definition clamp_offset :: "int \<Rightarrow> int" where
  "clamp_offset m = max (- 720) (min m 840)"

definition compute_time_range :: "int \<Rightarrow> int \<Rightarrow> u32 \<Rightarrow> int option \<Rightarrow> string option \<Rightarrow> time_range option" where
  "compute_time_range min_time now days tz_offset project =
     map_option (\<lambda>start. \<lparr>tr_start = of_int start, tr_end = of_int now, tr_project = project\<rparr>)
       (case tz_offset of
          Some offset_minutes \<Rightarrow>
            (let offset = clamp_offset offset_minutes * 60;
                 local_today_start = (now + offset) div 86400 * 86400;
                 days_back = (if days = 0 then 0 else uint days - 1) * 86400;
                 local_start = local_today_start - days_back;
                 utc_start = local_start - offset
             in if local_start < min_time \<or> utc_start < min_time then None else Some utc_start)
        | None \<Rightarrow> Some (now - uint days * 86400))"

text \<open>A query handler: \<open>None\<close> is a panic, and the state is only read.\<close>

definition admin_query_cost_records ::
  "'db admin_env \<Rightarrow> cost_records_query \<Rightarrow> 'db proxy_world \<Rightarrow> (app_error + cost_record list) option" where
  "admin_query_cost_records A q w =
     (case (case cq_days q of
              None \<Rightarrow> Some None
            | Some days \<Rightarrow>
                map_option Some (compute_time_range (ad_min_time A) (ad_unix A) days (cq_tz_offset q) None)) of
        None \<Rightarrow> None
      | Some tr \<Rightarrow>
          Some (snd (storage_query (\<lambda>db. query_cost_records (ad_storage A) db
            \<lparr>cf_project_path = cq_project q, cf_model_name = cq_model_name q, cf_channel_name = cq_channel_name q,
             cf_time_range = tr, cf_limit = cq_limit q, cf_offset = cq_offset q\<rparr>) w)))"

definition admin_cost_report ::
  "'db admin_env \<Rightarrow> cost_report_query \<Rightarrow> 'db proxy_world \<Rightarrow> (app_error + cost_aggregate list) option" where
  "admin_cost_report A q w =
     map_option (\<lambda>tr.
       let group_by = (if rq_project q \<noteq> None then ByProjectModelMonth else ByProject)
       in map_sum id
            (\<lambda>results. case rq_project q of
                         None \<Rightarrow> results
                       | Some project \<Rightarrow> filter (\<lambda>r. starts_with project (ca_group_key r)) results)
            (snd (storage_query (\<lambda>db. aggregate_costs (ad_storage A) db group_by tr) w)))
       (compute_time_range (ad_min_time A) (ad_unix A) (rq_days q) (rq_tz_offset q) None)"

definition savings_report :: "cost_record list \<Rightarrow> compression_savings_report" where
  "savings_report records =
     \<lparr>sv_schema_saved_tokens = sum_list (map cr_schema_saved_tokens records),
      sv_response_saved_tokens = sum_list (map cr_response_saved_tokens records),
      sv_rtk_saved_tokens = sum_list (map cr_rtk_saved_tokens records),
      sv_total_saved_tokens = sum_list (map cr_tokens_saved records)\<rparr>"

definition admin_cost_savings ::
  "'db admin_env \<Rightarrow> cost_report_query \<Rightarrow> 'db proxy_world \<Rightarrow> (app_error + compression_savings_report) option" where
  "admin_cost_savings A q w =
     map_option (\<lambda>tr.
       map_sum id savings_report
         (snd (storage_query (\<lambda>db. query_cost_records (ad_storage A) db
            \<lparr>cf_project_path = rq_project q, cf_model_name = None, cf_channel_name = None,
             cf_time_range = Some tr, cf_limit = None, cf_offset = None\<rparr>) w)))
       (compute_time_range (ad_min_time A) (ad_unix A) (rq_days q) (rq_tz_offset q) (rq_project q))"

definition admin_cost_trend ::
  "'db admin_env \<Rightarrow> cost_report_query \<Rightarrow> 'db proxy_world \<Rightarrow> (app_error + cost_aggregate list) option" where
  "admin_cost_trend A q w =
     map_option (\<lambda>tr.
       let group_by = (if rq_group_by q = Some ''daily'' then ByDaily else ByHourly)
       in snd (storage_query (\<lambda>db. aggregate_costs (ad_storage A) db group_by tr) w))
       (compute_time_range (ad_min_time A) (ad_unix A) (rq_days q) (rq_tz_offset q) (rq_project q))"

definition admin_prune_cost_records :: "'db admin_env \<Rightarrow> u32 \<Rightarrow> ('db, u64) handler" where
  "admin_prune_cost_records A older_than_days =
     storage_update app_error_of_storage (\<lambda>db. prune_cost_records (ad_storage A) db older_than_days)"

section \<open>Routes\<close>

datatype admin_request =
    GetProviders
  | GetProvider string
  | GetModels "string option"
  | GetModel string
  | GetChannels "string option"
  | GetChannel string
  | PutChannel string channel_update
  | DeleteChannel string
  | PostChannelHealthy string
  | PostChannelFailure string
  | PutChannelApiKey string string
  | PostChannelProbe string
  | GetChannelProtocols string
  | GetCostRecords cost_records_query
  | GetCostReport cost_report_query
  | GetCostSavings cost_report_query
  | GetCostTrend cost_report_query
  | PostPrune u32
  | GetModelMappings
  | PostModelMapping model_mapping
  | PutModelMapping string update_mapping_body
  | DeleteModelMapping string
  | GetModelAliases
  | PostModelAlias model_alias_request
  | DeleteModelAlias i64
  | GetAvailableChannels
  | GetProjects
  | GetSwitchLogs "u32 option"
  | GetHealth
  | GetSeedStatus bool
  | PostSeedRefresh "string option"
  | GetCompressStatus
  | PostCompressToggle bool

text \<open>
  The status of the reply; \<open>None\<close> is a panic of the handler, which closes the connection without an
  answer.
\<close>

definition result_status :: "app_error + 'a \<Rightarrow> status" where
  "result_status r = (case r of Inl e \<Rightarrow> ae_status e | Inr _ \<Rightarrow> 200)"

definition reply_status :: "'w \<times> (app_error + 'a) \<Rightarrow> 'w \<times> status option" where
  "reply_status r = (fst r, Some (result_status (snd r)))"

definition reply_query :: "'w \<Rightarrow> (app_error + 'a) option \<Rightarrow> 'w \<times> status option" where
  "reply_query w r = (w, map_option result_status r)"

fun admin_route :: "'db admin_env \<Rightarrow> admin_request \<Rightarrow> 'db proxy_world \<Rightarrow> 'db proxy_world \<times> status option" where
  "admin_route A GetProviders w = reply_status (admin_list_providers A w)"
| "admin_route A (GetProvider k) w = reply_status (admin_get_provider A k w)"
| "admin_route A (GetModels p) w = reply_status (admin_list_models A p w)"
| "admin_route A (GetModel k) w = reply_status (admin_get_model A k w)"
| "admin_route A (GetChannels m) w = reply_status (admin_list_channels A m w)"
| "admin_route A (GetChannel k) w = reply_status (admin_get_channel A k w)"
| "admin_route A (PutChannel k body) w = reply_status (admin_update_channel A k body w)"
| "admin_route A (DeleteChannel k) w = reply_status (admin_delete_channel A k w)"
| "admin_route A (PostChannelHealthy k) w = reply_status (admin_mark_channel_healthy A k w)"
| "admin_route A (PostChannelFailure k) w = reply_status (admin_record_channel_failure A k w)"
| "admin_route A (PutChannelApiKey k key) w = reply_status (admin_set_channel_api_key A k key w)"
| "admin_route A (PostChannelProbe k) w = reply_status (admin_probe_channel A k w)"
| "admin_route A (GetChannelProtocols k) w = reply_status (admin_get_channel_protocols A k w)"
| "admin_route A (GetCostRecords q) w = reply_query w (admin_query_cost_records A q w)"
| "admin_route A (GetCostReport q) w = reply_query w (admin_cost_report A q w)"
| "admin_route A (GetCostSavings q) w = reply_query w (admin_cost_savings A q w)"
| "admin_route A (GetCostTrend q) w = reply_query w (admin_cost_trend A q w)"
| "admin_route A (PostPrune d) w = reply_status (admin_prune_cost_records A d w)"
| "admin_route A GetModelMappings w = reply_status (admin_list_model_mappings A w)"
| "admin_route A (PostModelMapping m) w = reply_status (admin_create_model_mapping A m w)"
| "admin_route A (PutModelMapping k body) w = reply_status (admin_update_model_mapping A k body w)"
| "admin_route A (DeleteModelMapping k) w = reply_status (admin_delete_model_mapping A k w)"
| "admin_route A GetModelAliases w = reply_status (admin_list_model_aliases A w)"
| "admin_route A (PostModelAlias req) w = reply_status (admin_create_model_alias A req w)"
| "admin_route A (DeleteModelAlias k) w = reply_status (admin_delete_model_alias A k w)"
| "admin_route A GetAvailableChannels w = reply_status (admin_list_available_channels A w)"
| "admin_route A GetProjects w = reply_status (admin_list_projects A w)"
| "admin_route A (GetSwitchLogs limit) w = reply_status (admin_query_switch_logs A limit w)"
| "admin_route A GetHealth w = reply_status (admin_health A w)"
| "admin_route A (GetSeedStatus remote) w = reply_status (admin_seed_status A remote w)"
| "admin_route A (PostSeedRefresh url) w = reply_status (admin_seed_refresh A url w)"
| "admin_route A GetCompressStatus w = reply_status (admin_compress_status w)"
| "admin_route A (PostCompressToggle b) w = reply_status (admin_compress_toggle b w)"

text \<open>
  With the admin key in front: the layer is added only when a key is given, as the outermost one. The
  layers for cross-origin headers and for the body size belong to the HTTP packages.
\<close>

definition admin_call ::
  "'db admin_env \<Rightarrow> string option \<Rightarrow> header_map \<Rightarrow> admin_request \<Rightarrow> 'db proxy_world \<Rightarrow> 'db proxy_world \<times> status option" where
  "admin_call A admin_key h rq w =
     (case admin_key of
        None \<Rightarrow> admin_route A rq w
      | Some key \<Rightarrow>
          (case admin_auth_middleware key (admin_route A rq w) h of Inl s \<Rightarrow> (w, Some s) | Inr r \<Rightarrow> r))"

end
