(* ===== verification/Calls.thy ===== *)
theory Calls
  imports Server
begin

text \<open>
  A call of the handler in the steps in which the tasks of the server interleave. \<open>handle_proxy_request\<close> is an
  \<open>async fn\<close>; between two of its steps the other tasks may run and change the shared state. A step is the
  part before the chain, one hook of the request chain, the hand-over to the upstream client, the arrival
  of the upstream's answer, one hook of the response chain, or the billing with the reply.

  The lemmas show that a call which nothing interrupts does what the handler does: the steps are those of
  the handler, in its order.
\<close>

section \<open>Steps\<close>

text \<open>
  \<open>Requesting i\<close> runs the hook with index \<open>i\<close> next, \<open>Responding i\<close> the hook with index \<open>i - 1\<close>: the response
  chain runs backwards. The flag of \<open>Waiting\<close> and \<open>Responding\<close> is \<open>is_streaming\<close>. When the client goes away
  the server drops the task of the call, \<open>Dropped\<close>.
\<close>

datatype call =
    Requesting nat proxy_request connection_context
  | Waiting upstream_request bool connection_context
  | Responding nat bool proxy_response connection_context
  | Answered reply
  | Dropped

definition finished :: "call \<Rightarrow> bool" where
  "finished c \<longleftrightarrow> (case c of Answered _ \<Rightarrow> True | Dropped \<Rightarrow> True | _ \<Rightarrow> False)"

definition arrive ::
  "('t, 'w) proxy_state \<Rightarrow> 't server_env \<Rightarrow> string option \<Rightarrow> http_request \<Rightarrow> 'w world \<Rightarrow> 'w world \<times> call" where
  "arrive st E arole hr w =
     (case admit st E arole hr w of
        Inl r \<Rightarrow> (w\<lparr>w_next_request_id := w_next_request_id w + 1\<rparr>, Answered r)
      | Inr (cur, req, ctx) \<Rightarrow>
          (w\<lparr>w_next_request_id := w_next_request_id w + 1, w_cursors := cur\<rparr>, Requesting 0 req ctx))"

definition request_step ::
  "('t, 'w) proxy_state \<Rightarrow> 't server_env \<Rightarrow> nat \<Rightarrow> proxy_request \<Rightarrow> connection_context \<Rightarrow> 'w world \<Rightarrow> 'w world \<times> call" where
  "request_step st E i req ctx w =
     (let mws = ps_middlewares st (se_request_time E) in
      if i < length mws
      then (case on_request (mws ! i) (w_state w) req ctx of
              (s, Inl f) \<Rightarrow> (w\<lparr>w_state := s\<rparr>, Answered (failure_reply f))
            | (s, Inr (req', ctx')) \<Rightarrow> (w\<lparr>w_state := s\<rparr>, Requesting (Suc i) req' ctx'))
      else (case selected_channel ctx of
              None \<Rightarrow> (w, Answered (error_reply (ChannelSelection ''unknown'')))
            | Some ch \<Rightarrow>
                let u = build_upstream_request req ch
                in (w\<lparr>w_sent := w_sent w @ [u]\<rparr>, Waiting u (is_streaming (se_json E) req) ctx)))"

definition answer_step ::
  "('t, 'w) proxy_state \<Rightarrow> 't server_env \<Rightarrow> upstream_request \<Rightarrow> bool \<Rightarrow> connection_context \<Rightarrow> call" where
  "answer_step st E u b ctx =
     (case se_client E u of
        Inl e \<Rightarrow> Answered (error_reply (send_error_to_proxy e))
      | Inr up \<Rightarrow>
          (case ur_bytes up of
             Inl e \<Rightarrow> Answered (error_reply (Upstream
               ((if b then ''failed to read streaming response: '' else ''failed to read upstream response: '') @ e)))
           | Inr d \<Rightarrow>
               Responding (length (ps_middlewares st (se_response_time E))) b
                 \<lparr>res_status = ur_status up, res_headers = ur_headers up, res_body = d, res_is_streaming = b\<rparr> ctx))"

definition bill_step ::
  "('t, 'w) proxy_state \<Rightarrow> 't server_env \<Rightarrow> bool \<Rightarrow> proxy_response \<Rightarrow> connection_context \<Rightarrow> 'w \<Rightarrow> 'w" where
  "bill_step st E b res ctx s =
     (if b then record_cost st (se_response_time E) ctx (extract_usage_from_sse (se_json E) (res_body res)) s
      else (case from_slice (se_json E) (res_body res) of
              Inl _ \<Rightarrow> s | Inr body_json \<Rightarrow> record_cost st (se_response_time E) ctx body_json s))"

definition response_step ::
  "('t, 'w) proxy_state \<Rightarrow> 't server_env \<Rightarrow> nat \<Rightarrow> bool \<Rightarrow> proxy_response \<Rightarrow> connection_context \<Rightarrow> 'w world \<Rightarrow> 'w world \<times> call" where
  "response_step st E i b res ctx w =
     (case i of
        0 \<Rightarrow> (w\<lparr>w_state := bill_step st E b res ctx (w_state w)\<rparr>, Answered (build_axum_response res))
      | Suc j \<Rightarrow>
          (case on_response (ps_middlewares st (se_response_time E) ! j) (w_state w) res ctx of
             (s, Inl f) \<Rightarrow> (w\<lparr>w_state := s\<rparr>, Answered (failure_reply f))
           | (s, Inr res') \<Rightarrow> (w\<lparr>w_state := s\<rparr>, Responding j b res' ctx)))"

fun advance :: "('t, 'w) proxy_state \<Rightarrow> 't server_env \<Rightarrow> call \<Rightarrow> 'w world \<Rightarrow> 'w world \<times> call" where
  "advance st E (Requesting i req ctx) w = request_step st E i req ctx w"
| "advance st E (Waiting u b ctx) w = (w, answer_step st E u b ctx)"
| "advance st E (Responding i b res ctx) w = response_step st E i b res ctx w"
| "advance st E (Answered r) w = (w, Answered r)"
| "advance st E Dropped w = (w, Dropped)"

text \<open>A call on its own: \<open>n\<close> steps with nothing in between.\<close>

fun run_call :: "('t, 'w) proxy_state \<Rightarrow> 't server_env \<Rightarrow> nat \<Rightarrow> 'w world \<times> call \<Rightarrow> 'w world \<times> call" where
  "run_call st E 0 wc = wc"
| "run_call st E (Suc n) (w, c) = run_call st E n (advance st E c w)"

section \<open>A call on its own is the handler\<close>

lemma run_call_finished: "finished c \<Longrightarrow> run_call st E n (w, c) = (w, c)"
  by (induction n) (auto simp: finished_def split: call.splits)

lemma run_call_add: "run_call st E (m + n) wc = run_call st E n (run_call st E m wc)"
  by (induction m arbitrary: wc) (auto simp: split: prod.splits, metis prod.collapse run_call.simps(2))

text \<open>From step \<open>i\<close> on, the steps of the request chain are the rest of the chain.\<close>

lemma run_call_requesting:
  assumes mws: "ps_middlewares st (se_request_time E) = mws" and "i \<le> length mws"
  shows "run_call st E (length mws - i) (w, Requesting i req ctx) =
    (case run_on_request_chain (drop i mws) (w_state w) req ctx of
       (s, Inl f) \<Rightarrow> (w\<lparr>w_state := s\<rparr>, Answered (failure_reply f))
     | (s, Inr (req', ctx')) \<Rightarrow> (w\<lparr>w_state := s\<rparr>, Requesting (length mws) req' ctx'))"
  using assms(2)
proof (induction "length mws - i" arbitrary: i w req ctx)
  case (Suc n)
  then have i: "i < length mws" by simp
  then have d: "drop i mws = mws ! i # drop (Suc i) mws" by (simp add: Cons_nth_drop_Suc)
  have n: "length mws - i = Suc n" "n = length mws - Suc i" "Suc i \<le> length mws"
    using Suc(2) i by simp_all
  show ?case
  proof (cases "on_request (mws ! i) (w_state w) req ctx")
    case (Pair s x)
    show ?thesis
    proof (cases x)
      case (Inl f)
      with Pair i show ?thesis
        unfolding n(1) d by (simp add: request_step_def mws run_call_finished finished_def)
    next
      case (Inr y)
      obtain req' ctx' where y: "y = (req', ctx')" by (cases y)
      have "request_step st E i req ctx w = (w\<lparr>w_state := s\<rparr>, Requesting (Suc i) req' ctx')"
        using Pair Inr y i by (simp add: request_step_def mws)
      with Suc(1) [OF n(2,3), of "w\<lparr>w_state := s\<rparr>" req' ctx'] Pair Inr y show ?thesis
        unfolding n(1) d by (simp add: n(2) split: prod.split sum.split)
    qed
  qed
qed simp

lemma run_call_responding:
  assumes "i \<le> length (ps_middlewares st (se_response_time E))"
  shows "run_call st E i (w, Responding i b res ctx) =
    (case run_on_response_chain (take i (ps_middlewares st (se_response_time E))) (w_state w) res ctx of
       (s, Inl f) \<Rightarrow> (w\<lparr>w_state := s\<rparr>, Answered (failure_reply f))
     | (s, Inr res') \<Rightarrow> (w\<lparr>w_state := s\<rparr>, Responding 0 b res' ctx))"
  using assms
proof (induction i arbitrary: w res)
  case 0
  then show ?case by (simp add: run_on_response_chain_def)
next
  case (Suc i)
  then have t: "take (Suc i) (ps_middlewares st (se_response_time E)) =
      take i (ps_middlewares st (se_response_time E)) @ [ps_middlewares st (se_response_time E) ! i]"
    by (simp add: take_Suc_conv_app_nth)
  show ?case
  proof (cases "on_response (ps_middlewares st (se_response_time E) ! i) (w_state w) res ctx")
    case (Pair s x)
    with Suc show ?thesis
      by (cases x) (simp_all add: t run_on_response_chain_snoc response_step_def run_call_finished finished_def
          split: prod.split sum.split)
  qed
qed

text \<open>The steps after the upstream's answer are the two functions that handle a response.\<close>

lemma run_call_waiting:
  assumes "n = length (ps_middlewares st (se_response_time E))"
  shows "run_call st E (Suc (n + 1)) (w, Waiting u b ctx) =
    (case se_client E u of
       Inl e \<Rightarrow> (w, Answered (error_reply (send_error_to_proxy e)))
     | Inr up \<Rightarrow>
         let (s, r) = (if b then handle_streaming_response st E up ctx (w_state w)
                       else handle_non_streaming_response st E up ctx (w_state w))
         in (w\<lparr>w_state := s\<rparr>, Answered r))"
proof (cases "se_client E u")
  case (Inl e)
  then show ?thesis by (simp add: answer_step_def run_call_finished finished_def)
next
  case (Inr up)
  show ?thesis
  proof (cases "ur_bytes up")
    case err: (Inl e)
    with Inr show ?thesis
      by (simp add: answer_step_def run_call_finished finished_def handle_streaming_response_def
          handle_non_streaming_response_def)
  next
    case d: (Inr d)
    let ?res = "\<lparr>res_status = ur_status up, res_headers = ur_headers up, res_body = d, res_is_streaming = b\<rparr>"
    have "run_call st E (Suc (n + 1)) (w, Waiting u b ctx) = run_call st E 1 (run_call st E n (w, Responding n b ?res ctx))"
      using Inr d assms by (simp add: answer_step_def run_call_add [symmetric])
    also have "run_call st E n (w, Responding n b ?res ctx) =
        (case run_on_response_chain (ps_middlewares st (se_response_time E)) (w_state w) ?res ctx of
           (s, Inl f) \<Rightarrow> (w\<lparr>w_state := s\<rparr>, Answered (failure_reply f))
         | (s, Inr res') \<Rightarrow> (w\<lparr>w_state := s\<rparr>, Responding 0 b res' ctx))"
      using run_call_responding [of n st E w b ?res ctx] assms by simp
    finally show ?thesis
      using Inr d
      by (cases b) (auto simp: handle_streaming_response_def handle_non_streaming_response_def response_step_def
          bill_step_def run_call_finished finished_def split: prod.splits sum.splits)
  qed
qed

lemma run_call_accepted:
  assumes "length (ps_middlewares st (se_request_time E)) = n" "length (ps_middlewares st (se_response_time E)) = n"
    and "handle_accepted st E req ctx w = (w', r)"
  shows "run_call st E (2 * n + 3) (w, Requesting 0 req ctx) = (w', Answered r)"
proof -
  have "2 * n + 3 = n + (1 + Suc (n + 1))" by simp
  then have "run_call st E (2 * n + 3) (w, Requesting 0 req ctx) =
      run_call st E (Suc (n + 1)) (run_call st E 1 (run_call st E n (w, Requesting 0 req ctx)))"
    by (metis run_call_add)
  also have "run_call st E n (w, Requesting 0 req ctx) =
      (case run_on_request_chain (ps_middlewares st (se_request_time E)) (w_state w) req ctx of
         (s, Inl f) \<Rightarrow> (w\<lparr>w_state := s\<rparr>, Answered (failure_reply f))
       | (s, Inr (req', ctx')) \<Rightarrow> (w\<lparr>w_state := s\<rparr>, Requesting n req' ctx'))"
    using run_call_requesting [OF refl, of 0 st E w req ctx] assms(1) by simp
  finally have eq: "run_call st E (2 * n + 3) (w, Requesting 0 req ctx) =
      run_call st E (Suc (n + 1)) (run_call st E 1
        (case run_on_request_chain (ps_middlewares st (se_request_time E)) (w_state w) req ctx of
           (s, Inl f) \<Rightarrow> (w\<lparr>w_state := s\<rparr>, Answered (failure_reply f))
         | (s, Inr (req', ctx')) \<Rightarrow> (w\<lparr>w_state := s\<rparr>, Requesting n req' ctx')))" .
  have send: "run_call st E 1 (w\<lparr>w_state := s\<rparr>, Requesting n req' ctx') =
      (case selected_channel ctx' of
         None \<Rightarrow> (w\<lparr>w_state := s\<rparr>, Answered (error_reply (ChannelSelection ''unknown'')))
       | Some ch \<Rightarrow> (w\<lparr>w_state := s, w_sent := w_sent w @ [build_upstream_request req' ch]\<rparr>,
           Waiting (build_upstream_request req' ch) (is_streaming (se_json E) req') ctx'))" for s req' ctx'
    using assms(1) by (simp add: request_step_def Let_def split: option.split)
  note wait = run_call_waiting [OF assms(2) [symmetric]]
  from assms(3) show ?thesis
  proof (cases rule: handle_accepted_cases)
    case (failed s f)
    then show ?thesis unfolding eq by (simp add: run_call_finished finished_def del: run_call.simps)
  next
    case (unrouted s req' ctx')
    then show ?thesis unfolding eq by (simp add: send run_call_finished finished_def del: run_call.simps One_nat_def)
  next
    case (unsent s req' ctx' ch e)
    then show ?thesis unfolding eq by (simp add: send wait del: run_call.simps One_nat_def)
  next
    case (answered s req' ctx' ch up s')
    then show ?thesis unfolding eq by (simp add: send wait del: run_call.simps One_nat_def split: if_splits)
  qed
qed

lemma run_call_handler:
  assumes "length (ps_middlewares st (se_request_time E)) = n" "length (ps_middlewares st (se_response_time E)) = n"
    and "handle_proxy_request st E arole hr w = (w', r)"
  shows "run_call st E (2 * n + 3) (arrive st E arole hr w) = (w', Answered r)"
  using assms(3) run_call_accepted [OF assms(1,2)]
  by (auto simp: handle_proxy_request_admit arrive_def run_call_finished finished_def split: sum.splits prod.splits)

section \<open>What a step keeps\<close>

text \<open>The index of a call stays within the chain.\<close>

fun call_wf :: "nat \<Rightarrow> call \<Rightarrow> bool" where
  "call_wf n (Requesting i req ctx) \<longleftrightarrow> i \<le> n"
| "call_wf n (Responding i b res ctx) \<longleftrightarrow> i \<le> n"
| "call_wf n c \<longleftrightarrow> True"

lemma arrive_wf: "call_wf n (snd (arrive st E arole hr w))"
  by (simp add: arrive_def split: sum.split prod.split)

lemma advance_wf:
  assumes "\<And>t. length (ps_middlewares st t) = n" "call_wf n c"
  shows "call_wf n (snd (advance st E c w))"
proof (cases c)
  case (Requesting i req ctx)
  then show ?thesis
    by (auto simp: request_step_def assms(1) Let_def split: prod.split sum.split option.split)
next
  case (Responding i b res ctx)
  with assms(2) show ?thesis by (cases i) (auto simp: response_step_def split: prod.split sum.split)
qed (auto simp: answer_step_def assms split: sum.split)

context served_keeps
begin

lemma hook_keeps:
  assumes "I s" "i < length (ps_middlewares st t)"
  shows "I (fst (on_request (ps_middlewares st t ! i) s req ctx))"
    and "I (fst (on_response (ps_middlewares st t ! i) s res ctx))"
  using mw_keeps.keeps_request [OF chain_keeps nth_mem [OF assms(2)] assms(1)]
    mw_keeps.keeps_response [OF chain_keeps nth_mem [OF assms(2)] assms(1)] by blast+

lemma bill_keeps: "I s \<Longrightarrow> I (bill_step st E b res ctx s)"
  by (simp add: bill_step_def recorder_keeps split: sum.split)

lemma advance_keeps:
  assumes "\<And>t. length (ps_middlewares st t) = n" "call_wf n c" "I (w_state w)"
  shows "I (w_state (fst (advance st E c w)))"
proof (cases c)
  case (Requesting i req ctx)
  with assms(3) hook_keeps(1) [OF assms(3), of i "se_request_time E" req ctx] show ?thesis
    by (auto simp: request_step_def Let_def split: prod.split sum.split option.split)
next
  case (Responding i b res ctx)
  show ?thesis
  proof (cases i)
    case 0
    with Responding assms(3) show ?thesis by (simp add: response_step_def bill_keeps)
  next
    case (Suc j)
    with Responding assms(1) [of "se_response_time E"] assms(2) have "j < length (ps_middlewares st (se_response_time E))"
      by simp
    from hook_keeps(2) [OF assms(3) this, of res ctx] Suc Responding show ?thesis
      by (auto simp: response_step_def split: prod.split sum.split)
  qed
qed (use assms(3) in auto)

end

lemma arrive_state [simp]: "w_state (fst (arrive st E arole hr w)) = w_state w"
  "w_sent (fst (arrive st E arole hr w)) = w_sent w"
  "w_next_request_id (fst (arrive st E arole hr w)) = w_next_request_id w + 1"
  by (simp_all add: arrive_def split: sum.split prod.split)

end
