(* ===== verification/Sqlite_Inv.thy ===== *)
theory Sqlite_Inv
  imports Sqlite_Cost Seed
begin

text \<open>
  The integrity of the database. \<open>db_ok\<close> collects what the schema promises: primary keys are unique,
  references resolve, the numeric columns hold what the accessors can read. Every operation of the
  backend and of the seed data keeps it on a connection that enforces foreign keys; \<open>db_reachable\<close> are
  the databases such operations can produce.
\<close>

section \<open>The invariant\<close>

definition channel_row_ok :: "channel_row \<Rightarrow> bool" where
  "channel_row_ok r \<longleftrightarrow>
     0 \<le> r_consecutive_failures r \<and> is_none_or (\<lambda>q. 0 \<le> q \<and> q < 2 ^ 63) (r_monthly_quota r) \<and>
     0 \<le> r_priority r \<and> r_priority r < 2 ^ 32"

definition channels_ok :: "channel_row list \<Rightarrow> bool" where
  "channels_ok chs \<longleftrightarrow> distinct (map r_id chs) \<and> list_all channel_row_ok chs"

definition mappings_ok :: "channel_row list \<Rightarrow> model_mapping list \<Rightarrow> bool" where
  "mappings_ok chs ms \<longleftrightarrow> distinct (map mm_id ms) \<and> mm_channel_id ` set ms \<subseteq> r_id ` set chs"

definition catalog_ok :: "provider_row list \<Rightarrow> model_row list \<Rightarrow> bool" where
  "catalog_ok ps ms \<longleftrightarrow>
     distinct (map pr_id ps) \<and> distinct (map pr_name ps) \<and>
     distinct (map mr_id ms) \<and> distinct (map mr_client_name ms) \<and> mr_provider_id ` set ms \<subseteq> pr_id ` set ps"

text \<open>The identifiers of an \<open>AUTOINCREMENT\<close> column: unique, and none greater than the sequence.\<close>

definition ids_ok :: "nat \<Rightarrow> i64 list \<Rightarrow> bool" where
  "ids_ok n is \<longleftrightarrow> n < 2 ^ 63 \<and> distinct is \<and> list_all (\<lambda>i. unat i \<le> n) is"

definition aliases_ok :: "nat \<Rightarrow> model_alias list \<Rightarrow> bool" where
  "aliases_ok n as \<longleftrightarrow> distinct (map ma_alias_name as) \<and> ids_ok n (map ma_id as)"

definition fees_ok :: "nat \<Rightarrow> subscription_fee list \<Rightarrow> bool" where
  "fees_ok n fs \<longleftrightarrow> ids_ok n (map sf_id fs) \<and> list_all (\<lambda>f. sf_monthly_price f \<noteq> NaN) fs"

definition records_ok :: "cost_record list \<Rightarrow> switch_log list \<Rightarrow> bool" where
  "records_ok cs ls \<longleftrightarrow>
     distinct (map cr_id cs) \<and> list_all (\<lambda>c. cr_cost c \<noteq> NaN) cs \<and> distinct (map sl_id ls)"

definition db_ok :: "sqlite_db \<Rightarrow> bool" where
  "db_ok db \<longleftrightarrow>
     channels_ok (t_channels db) \<and> mappings_ok (t_channels db) (t_mappings db) \<and>
     catalog_ok (t_providers db) (t_models db) \<and> aliases_ok (t_alias_seq db) (t_aliases db) \<and>
     records_ok (t_costs db) (t_switch_logs db) \<and> fees_ok (t_fee_seq db) (t_fees db) \<and>
     distinct (map sr_key (t_seed_metadata db))"

lemma db_okD:
  assumes "db_ok db"
  shows "channels_ok (t_channels db)" "mappings_ok (t_channels db) (t_mappings db)"
    "catalog_ok (t_providers db) (t_models db)" "aliases_ok (t_alias_seq db) (t_aliases db)"
    "records_ok (t_costs db) (t_switch_logs db)" "distinct (map sr_key (t_seed_metadata db))"
    "fees_ok (t_fee_seq db) (t_fees db)"
  using assms by (simp_all add: db_ok_def)

lemma db_ok_empty: "db_ok empty_db"
  by (simp add: db_ok_def empty_db_def channels_ok_def mappings_ok_def catalog_ok_def aliases_ok_def ids_ok_def fees_ok_def
      records_ok_def)

text \<open>An operation on one table only has to keep the condition of this table.\<close>

lemma db_ok_channels:
  assumes "db_ok db" "channels_ok chs" "r_id ` set (t_channels db) \<subseteq> r_id ` set chs"
  shows "db_ok (db\<lparr>t_channels := chs\<rparr>)"
  using assms order.trans [OF _ assms(3)] by (simp add: db_ok_def mappings_ok_def)

lemma db_ok_mappings: "db_ok db \<Longrightarrow> mappings_ok (t_channels db) ms \<Longrightarrow> db_ok (db\<lparr>t_mappings := ms\<rparr>)"
  by (simp add: db_ok_def)

lemma db_ok_aliases:
  "db_ok db \<Longrightarrow> aliases_ok n as \<Longrightarrow> db_ok (db\<lparr>t_aliases := as, t_alias_seq := n\<rparr>)"
  by (simp add: db_ok_def)

lemma db_ok_catalog:
  "db_ok db \<Longrightarrow> catalog_ok ps ms \<Longrightarrow> db_ok (db\<lparr>t_providers := ps, t_models := ms\<rparr>)"
  by (simp add: db_ok_def)

lemma fst_with_conn_upd: "fst (with_conn_upd Q db r) = (if q_pool Q = None then fst r else db)"
  by (simp add: with_conn_upd_def split: option.split)

lemma with_conn_upd_keeps: "P db \<Longrightarrow> (q_pool Q = None \<Longrightarrow> P (fst r)) \<Longrightarrow> P (fst (with_conn_upd Q db r))"
  by (simp add: fst_with_conn_upd)

section \<open>Channels and mappings\<close>

lemma list_all_map_if: "list_all P xs \<Longrightarrow> (\<And>x. P x \<Longrightarrow> P (f x)) \<Longrightarrow> list_all P (map (\<lambda>x. if c x then f x else x) xs)"
  by (induction xs) auto

lemma set_key_map:
  assumes "\<And>r. key (f r) = key r"
  shows "key ` set (map (\<lambda>r. if key r = k then f r else r) rows) = key ` set rows"
  using map_key_map [where key = key and f = f and k = k and rows = rows, OF assms] by (metis list.set_map)

lemma channels_ok_map:
  assumes "channels_ok chs" "\<And>r. r_id (f r) = r_id r" "\<And>r. channel_row_ok r \<Longrightarrow> channel_row_ok (f r)"
  shows "channels_ok (map (\<lambda>r. if r_id r = k then f r else r) chs)"
  using assms map_key_map [where key = r_id and f = f and k = k, OF assms(2)]
  by (simp add: channels_ok_def list_all_map_if del: map_map)

lemma channels_ok_upsert:
  assumes "channels_ok chs" "\<And>r. r_id (merge r new) = r_id r" "channel_row_ok new"
    and "\<And>r. channel_row_ok r \<Longrightarrow> channel_row_ok (merge r new)"
  shows "channels_ok (sql_upsert r_id merge new chs)"
proof -
  have "list_all channel_row_ok (sql_upsert r_id merge new chs)"
    using assms(1,3,4) by (auto simp: channels_ok_def sql_upsert_def list_all_iff)
  with assms(1,2) distinct_upsert [where key = r_id and merge = merge and new = new] show ?thesis
    by (simp add: channels_ok_def)
qed

lemma db_ok_upsert_channels:
  assumes "db_ok db" "\<And>r. r_id (merge r new) = r_id r" "channel_row_ok new"
    and "\<And>r. channel_row_ok r \<Longrightarrow> channel_row_ok (merge r new)"
  shows "db_ok (db\<lparr>t_channels := sql_upsert r_id merge new (t_channels db)\<rparr>)"
  by (rule db_ok_channels [OF assms(1) channels_ok_upsert])
    (use assms set_key_upsert [where key = r_id and merge = merge and new = new] db_okD in auto)

lemma db_ok_map_channels:
  assumes "db_ok db" "\<And>r. r_id (f r) = r_id r" "\<And>r. channel_row_ok r \<Longrightarrow> channel_row_ok (f r)"
  shows "db_ok (db\<lparr>t_channels := fst (sql_update r_id k f (t_channels db))\<rparr>)"
  unfolding sql_update_fst
  by (rule db_ok_channels [OF assms(1) channels_ok_map])
    (use assms db_okD set_key_map [where key = r_id and f = f] in auto)

lemma update_channel_row_ok:
  assumes "db_ok db" "\<And>r. r_id (f r) = r_id r" "\<And>r. channel_row_ok r \<Longrightarrow> channel_row_ok (f r)"
  shows "db_ok (fst (update_channel_row Q db k f))"
  unfolding update_channel_row_def
  by (rule with_conn_upd_keeps [where P = db_ok, OF assms(1)])
    (use db_ok_map_channels [OF assms] in \<open>simp add: case_prod_unfold Let_def\<close>)

lemma uint_quota_ok:
  "\<not> is_some_and (\<lambda>q. 2 ^ 63 \<le> uint q) (x :: u64 option) \<Longrightarrow> is_none_or (\<lambda>q. 0 \<le> q \<and> q < 2 ^ 63) (map_option uint x)"
  by (cases x) auto

lemma uint_u32_ok: "uint (p :: u32) < 2 ^ 32"
  using uint_lt2p [of p] by simp

lemma upsert_channel_ok: "db_ok db \<Longrightarrow> db_ok (fst (sqlite_upsert_channel Q db c))"
  unfolding sqlite_upsert_channel_def
  by (rule with_conn_upd_keeps [where P = db_ok])
    (auto intro!: db_ok_upsert_channels
      simp: merge_channel_row_def new_channel_row_def channel_row_ok_def uint_quota_ok [simplified] uint_u32_ok [simplified])

lemma set_channel_enabled_ok: "db_ok db \<Longrightarrow> db_ok (fst (sqlite_set_channel_enabled Q db k b))"
  unfolding sqlite_set_channel_enabled_def by (rule update_channel_row_ok) (simp_all add: channel_row_ok_def)

lemma set_channel_api_key_ok: "db_ok db \<Longrightarrow> db_ok (fst (sqlite_set_channel_api_key Q db k key))"
  unfolding sqlite_set_channel_api_key_def by (rule update_channel_row_ok) (simp_all add: channel_row_ok_def)

lemma mark_channel_healthy_ok: "db_ok db \<Longrightarrow> db_ok (fst (sqlite_mark_channel_healthy Q db k))"
  unfolding sqlite_mark_channel_healthy_def by (rule update_channel_row_ok) (simp_all add: channel_row_ok_def)

lemma clamp_i64_range: "0 \<le> clamp_i64 q" "clamp_i64 q < 2 ^ 63"
  by (simp_all add: clamp_i64_def)

lemma apply_channel_update_ok: "channel_row_ok r \<Longrightarrow> channel_row_ok (apply_channel_update Q u r)"
  using clamp_i64_range uint_u32_ok
  by (cases "cu_priority u") (auto simp: channel_row_ok_def apply_channel_update_def split: option.split)

lemma fst_update_channel:
  "fst (sqlite_update_channel Q db k u) = fst (update_channel_row Q db k (apply_channel_update Q u))"
  by (simp add: sqlite_update_channel_def case_prod_unfold split: sum.split)

lemma update_channel_ok: "db_ok db \<Longrightarrow> db_ok (fst (sqlite_update_channel Q db k u))"
  unfolding fst_update_channel
  by (rule update_channel_row_ok) (simp_all add: apply_channel_update_ok, simp add: apply_channel_update_def)

lemma mappings_ok_no_channel:
  assumes "mappings_ok chs ms" "filter (\<lambda>r. r_id r = k) chs = []"
  shows "filter (\<lambda>m. mm_channel_id m \<noteq> k) ms = ms"
proof -
  have "k \<notin> r_id ` set chs" using assms(2) by (auto simp: filter_empty_conv)
  with assms(1) have "\<forall>m\<in>set ms. mm_channel_id m \<noteq> k" by (auto simp: mappings_ok_def)
  then show ?thesis by simp
qed

lemma fst_delete_channel:
  assumes "q_foreign_keys Q" "db_ok db" "q_pool Q = None"
  shows "fst (sqlite_delete_channel Q db k) =
    db\<lparr>t_channels := filter (\<lambda>r. r_id r \<noteq> k) (t_channels db),
       t_mappings := filter (\<lambda>m. mm_channel_id m \<noteq> k) (t_mappings db)\<rparr>"
  using assms mappings_ok_no_channel [of "t_channels db" "t_mappings db" k]
  by (auto simp: sqlite_delete_channel_def with_conn_upd_def sql_delete_def db_ok_def)

lemma delete_channel_ok:
  assumes "q_foreign_keys Q" "db_ok db"
  shows "db_ok (fst (sqlite_delete_channel Q db k))"
proof (cases "q_pool Q")
  case None
  from fst_delete_channel [OF assms None] assms(2) show ?thesis
    by (auto simp: db_ok_def channels_ok_def mappings_ok_def distinct_filter list_all_iff)
next
  case (Some e)
  with assms(2) show ?thesis by (simp add: sqlite_delete_channel_def with_conn_upd_def)
qed

lemma record_channel_failure_ok:
  assumes "db_ok db"
  shows "db_ok (fst (sqlite_record_channel_failure Q db k))"
proof -
  let ?bump = "\<lambda>r. r\<lparr>r_consecutive_failures := r_consecutive_failures r + 1, r_updated_at := q_now_unix Q\<rparr>"
  let ?db = "db\<lparr>t_channels := fst (sql_update r_id k ?bump (t_channels db))\<rparr>"
  have db: "db_ok ?db" by (rule db_ok_map_channels [OF assms]) (simp_all add: channel_row_ok_def)
  have "db_ok (?db\<lparr>t_channels := fst (sql_update r_id k
      (\<lambda>r. r\<lparr>r_health_status := s, r_cooldown_until := u\<rparr>) (t_channels ?db))\<rparr>)" for s u
    by (rule db_ok_map_channels [OF db]) (simp_all add: channel_row_ok_def)
  with db assms show ?thesis
    unfolding sqlite_record_channel_failure_def
    by (intro with_conn_upd_keeps [where P = db_ok]) (simp_all add: Let_def split: option.split)
qed

lemma mappings_ok_upsert:
  assumes "mappings_ok chs ms" "row_at r_id (mm_channel_id m) chs \<noteq> None"
  shows "mappings_ok chs (sql_upsert mm_id (\<lambda>old new. new) m ms)"
proof -
  have *: "sql_upsert mm_id (\<lambda>old new. new) m ms = sql_upsert mm_id (\<lambda>old new. new\<lparr>mm_id := mm_id old\<rparr>) m ms"
    by (auto simp: sql_upsert_def)
  have "mm_channel_id ` set (sql_upsert mm_id (\<lambda>old new. new) m ms) \<subseteq> insert (mm_channel_id m) (mm_channel_id ` set ms)"
    by (auto simp: sql_upsert_def)
  moreover have "distinct (map mm_id (sql_upsert mm_id (\<lambda>old new. new) m ms))"
    unfolding * by (rule distinct_upsert) (use assms in \<open>simp_all add: mappings_ok_def\<close>)
  moreover have "mm_channel_id m \<in> r_id ` set chs" using assms(2) by (simp add: row_at_None_iff)
  moreover have "mm_channel_id ` set ms \<subseteq> r_id ` set chs" using assms(1) by (simp add: mappings_ok_def)
  ultimately show ?thesis unfolding mappings_ok_def by (meson insert_subset order.trans)
qed

lemma upsert_mapping_ok: "q_foreign_keys Q \<Longrightarrow> db_ok db \<Longrightarrow> db_ok (fst (sqlite_upsert_mapping Q db m))"
  unfolding sqlite_upsert_mapping_def
  by (rule with_conn_upd_keeps [where P = db_ok]) (simp_all add: db_ok_mappings mappings_ok_upsert db_okD)

lemma set_mapping_enabled_ok:
  assumes "db_ok db"
  shows "db_ok (fst (sqlite_set_mapping_enabled Q db k b))"
proof -
  let ?ms = "map (\<lambda>m. if mm_id m = k then m\<lparr>mm_enabled := b\<rparr> else m) (t_mappings db)"
  have "map mm_id ?ms = map mm_id (t_mappings db)" by (rule map_key_map) simp
  moreover have "mm_channel_id ` set ?ms \<subseteq> mm_channel_id ` set (t_mappings db)" by auto
  ultimately have "mappings_ok (t_channels db) ?ms"
    using db_okD(2) [OF assms] by (auto simp: mappings_ok_def simp del: map_map set_map)
  with assms show ?thesis
    unfolding sqlite_set_mapping_enabled_def
    by (intro with_conn_upd_keeps [where P = db_ok]) (simp_all add: sql_update_def db_ok_mappings)
qed

lemma delete_mapping_ok: "db_ok db \<Longrightarrow> db_ok (fst (sqlite_delete_mapping Q db k))"
  unfolding sqlite_delete_mapping_def
  by (rule with_conn_upd_keeps [where P = db_ok])
    (auto simp: sql_delete_def db_ok_def mappings_ok_def distinct_filter)

section \<open>Aliases\<close>

lemma unat_of_nat_small: "n < 2 ^ 63 \<Longrightarrow> unat (of_nat n :: i64) = n"
  by (simp add: unat_of_nat take_bit_nat_eq_self)

lemma ids_ok_next:
  assumes "ids_ok n is" "autoincrement n = Some k"
  shows "ids_ok k (is @ [of_nat k])"
proof -
  have k: "k = Suc n" "Suc n < 2 ^ 63" using assms(2) by (auto simp: autoincrement_def split: if_splits)
  note u = unat_of_nat_small [OF k(2)]
  have le: "unat i \<le> n" if "i \<in> set is" for i using assms(1) that by (simp add: ids_ok_def list_all_iff)
  have "of_nat k \<notin> set is" using le [of "of_nat k"] u by (auto simp: k(1))
  moreover have "list_all (\<lambda>i. unat i \<le> k) is" using le by (auto simp: list_all_iff k(1) intro: le_SucI)
  ultimately show ?thesis using assms(1) k u by (simp add: ids_ok_def)
qed

lemma ids_ok_filter: "ids_ok n (map f xs) \<Longrightarrow> ids_ok n (map f (filter P xs))"
  by (auto simp: ids_ok_def distinct_map_filter list_all_iff)

lemma put_alias_ok:
  assumes "db_ok db"
  shows "db_ok (fst (put_alias Q req db))"
proof (cases "row_at ma_alias_name (mar_alias_name req) (t_aliases db)")
  case None
  show ?thesis
  proof (cases "autoincrement (t_alias_seq db)")
    case (Some n)
    let ?as = "t_aliases db @ [new_alias_row Q n req]"
    have new: "sql_upsert ma_alias_name merge_alias_row (new_alias_row Q n req) (t_aliases db) = ?as"
      using None by (simp add: sql_upsert_def new_alias_row_def row_at_None_list_ex)
    have "aliases_ok n ?as"
      using db_okD(4) [OF assms] None ids_ok_next [OF _ Some, of "map ma_id (t_aliases db)"]
      by (simp add: aliases_ok_def new_alias_row_def row_at_None_iff)
    with assms None Some show ?thesis by (simp add: put_alias_def new db_ok_aliases)
  qed (use assms None in \<open>simp add: put_alias_def\<close>)
next
  case (Some old)
  let ?new = "new_alias_row Q 0 req"
  let ?as = "map (\<lambda>a. if ma_alias_name a = mar_alias_name req then merge_alias_row a ?new else a) (t_aliases db)"
  have up: "sql_upsert ma_alias_name merge_alias_row ?new (t_aliases db) = ?as"
    using Some row_at_None_list_ex [of ma_alias_name "mar_alias_name req" "t_aliases db"]
    by (simp add: sql_upsert_def new_alias_row_def)
  have "map ma_alias_name ?as = map ma_alias_name (t_aliases db)" "map ma_id ?as = map ma_id (t_aliases db)"
    by (simp_all add: merge_alias_row_def)
  then have "aliases_ok (t_alias_seq db) ?as"
    using db_okD(4) [OF assms] unfolding aliases_ok_def by (simp only:)
  with assms Some show ?thesis by (simp add: put_alias_def up db_ok_def)
qed

lemma upsert_model_alias_ok: "db_ok db \<Longrightarrow> db_ok (fst (sqlite_upsert_model_alias Q db req))"
  unfolding sqlite_upsert_model_alias_def
  by (rule with_conn_upd_keeps [where P = db_ok])
    (use put_alias_ok [of db Q req] in \<open>auto simp: case_prod_unfold split: sum.split\<close>)

lemma delete_model_alias_ok: "db_ok db \<Longrightarrow> db_ok (fst (sqlite_delete_model_alias Q db k))"
  unfolding sqlite_delete_model_alias_def
  by (rule with_conn_upd_keeps [where P = db_ok])
    (auto simp: sql_delete_def db_ok_def aliases_ok_def distinct_filter ids_ok_filter)

lemma set_model_alias_enabled_ok: "db_ok db \<Longrightarrow> db_ok (fst (sqlite_set_model_alias_enabled Q db k b))"
  unfolding sqlite_set_model_alias_enabled_def
  by (rule with_conn_upd_keeps [where P = db_ok])
    (auto simp: sql_update_def db_ok_def aliases_ok_def list_all_iff comp_def if_distrib cong: if_cong)

lemma insert_alias_if_absent_ok: "db_ok db \<Longrightarrow> db_ok (insert_alias_if_absent Q a t db)"
  by (simp add: insert_alias_if_absent_def put_alias_ok)

lemma fold_keeps: "P x \<Longrightarrow> (\<And>a x. P x \<Longrightarrow> P (f a x)) \<Longrightarrow> P (fold f as x)"
  by (induction as arbitrary: x) auto

lemma migrate_ok:
  assumes "db_ok db"
  shows "db_ok (fst (sqlite_migrate Q db))"
proof -
  have v1: "db_ok (migration_v1 Q db)"
    using assms by (auto simp: migration_v1_def seed_row_if_absent_def db_ok_def row_at_None_iff)
  have v2: "db_ok (migration_v2 Q d)" if "db_ok d" for d
    unfolding migration_v2_def by (rule fold_keeps [where P = db_ok, OF that]) (rule insert_alias_if_absent_ok)
  have "db_ok (d\<lparr>user_version := v\<rparr>)" if "db_ok d" for d v using that by (simp add: db_ok_def)
  with v1 v2 assms show ?thesis
    unfolding sqlite_migrate_def
    by (intro with_conn_upd_keeps [where P = db_ok]) (simp_all add: Let_def)
qed

section \<open>Records\<close>

lemma insert_cost_record_ok: "db_ok db \<Longrightarrow> db_ok (fst (sqlite_insert_cost_record Q db r))"
  unfolding sqlite_insert_cost_record_def
  by (rule with_conn_upd_keeps [where P = db_ok]) (auto simp: db_ok_def records_ok_def row_at_None_iff)

lemma prune_cost_records_ok: "db_ok db \<Longrightarrow> db_ok (fst (sqlite_prune_cost_records Q db d))"
  unfolding sqlite_prune_cost_records_def
  by (rule with_conn_upd_keeps [where P = db_ok])
    (auto simp: sql_delete_def db_ok_def records_ok_def distinct_filter list_all_iff)

lemma insert_switch_log_ok: "db_ok db \<Longrightarrow> db_ok (fst (sqlite_insert_switch_log Q db l))"
  unfolding sqlite_insert_switch_log_def
  by (rule with_conn_upd_keeps [where P = db_ok]) (auto simp: db_ok_def records_ok_def row_at_None_iff)

lemma insert_subscription_fee_ok: "db_ok db \<Longrightarrow> db_ok (fst (sqlite_insert_subscription_fee Q db f))"
  unfolding sqlite_insert_subscription_fee_def
  by (rule with_conn_upd_keeps [where P = db_ok])
    (auto simp: db_ok_def fees_ok_def ids_ok_next split: option.split)

section \<open>Seed data\<close>

lemma run_statements_keeps:
  "P db \<Longrightarrow> (\<And>x db. P db \<Longrightarrow> P (fst (f x db))) \<Longrightarrow> P (fst (run_statements f xs db))"
proof (induction xs arbitrary: db)
  case (Cons x xs)
  then have "P (fst (f x db))" by blast
  with Cons show ?case by (simp add: case_prod_unfold split: sum.split)
qed simp

text \<open>A condition that each statement of the seed data keeps is kept by seeding and by a refresh.\<close>

locale seed_statements =
  fixes V :: seed_env and P :: "sqlite_db \<Rightarrow> bool"
  assumes keeps_metadata: "P db \<Longrightarrow> P (set_metadata (sd_conn V) k v db)"
    and keeps_provider: "P db \<Longrightarrow> P (fst (insert_seed_provider (sd_conn V) p db))"
    and keeps_model: "P db \<Longrightarrow> P (fst (insert_seed_model (sd_conn V) m db))"
    and keeps_channel: "P db \<Longrightarrow> P (fst (upsert_seed_channel (sd_conn V) c db))"
    and keeps_mapping: "P db \<Longrightarrow> P (fst (upsert_seed_mapping (sd_conn V) mm db))"
begin

lemma keeps_entry:
  assumes "P db"
  shows "P (fst (upsert_entry V name json db))"
proof -
  note run = run_statements_keeps [where P = P, OF assms]
  have "P (fst (run_statements (insert_seed_provider (sd_conn V)) xs db))" for xs by (rule run) (rule keeps_provider)
  moreover have "P (fst (run_statements (insert_seed_model (sd_conn V)) xs db))" for xs by (rule run) (rule keeps_model)
  moreover have "P (fst (run_statements (upsert_seed_channel (sd_conn V)) xs db))" for xs by (rule run) (rule keeps_channel)
  moreover have "P (fst (run_statements (upsert_seed_mapping (sd_conn V)) xs db))" for xs by (rule run) (rule keeps_mapping)
  ultimately show ?thesis using assms by (simp add: upsert_entry_def Let_def split: sum.split)
qed

lemma keeps_all_entries:
  assumes "P db"
  shows "P (fst (apply_all_entries V p m c mm s db))"
proof -
  let ?files = "[(''providers'', p), (''models'', m), (''channels'', c), (''model_mappings'', mm)]"
  have "P (fst (run_statements (upsert_file V) ?files db))"
    by (rule run_statements_keeps [where P = P, OF assms]) (simp add: upsert_file_def keeps_entry)
  then have "P (fold (\<lambda>(name, text). set_metadata (sd_conn V) (name @ '':sha256'') (sd_sha256 V text)) ?files
      (fst (run_statements (upsert_file V) ?files db)))"
    by (rule fold_keeps [where P = P]) (auto simp: keeps_metadata)
  with \<open>P (fst (run_statements (upsert_file V) ?files db))\<close> show ?thesis
    unfolding apply_all_entries_def Let_def
    by (simp only: case_prod_unfold split: sum.split) (auto intro!: keeps_metadata)
qed

lemma keeps_init: "P db \<Longrightarrow> P (fst (seed_init V db))"
  unfolding seed_init_def
  by (rule with_conn_upd_keeps [where P = P], assumption)
    (use keeps_all_entries in \<open>auto simp: Let_def case_prod_unfold keeps_metadata split: sum.split\<close>)

lemma keeps_fetched: "P db \<Longrightarrow> P (fst (fetch_and_apply_entry V url name e db))"
  using keeps_entry by (auto simp: fetch_and_apply_entry_def case_prod_unfold keeps_metadata split: sum.split)

lemma keeps_entries: "P db \<Longrightarrow> P (fst (refresh_entries V url es db errors))"
proof (induction es arbitrary: db errors)
  case (Cons x es)
  obtain name e where x: "x = (name, e)" by (cases x)
  show ?case
    using Cons keeps_fetched [OF Cons.prems, of url name e] by (simp add: x case_prod_unfold split: sum.split)
qed simp

lemma keeps_finish: "P db \<Longrightarrow> P (finish_refresh V url m db errors)"
  by (simp add: finish_refresh_def Let_def keeps_metadata)

lemma keeps_refresh: "P db \<Longrightarrow> P (fst (seed_refresh V url db))"
  using keeps_entries
  by (simp add: seed_refresh_def fst_with_conn_upd case_prod_unfold Let_def keeps_finish split: sum.split)

end

interpretation seeding_db: seed_statements V "\<lambda>db. db_ok db \<and> q_foreign_keys (sd_conn V)" for V
proof
  fix db k v p m c mm
  assume "db_ok db \<and> q_foreign_keys (sd_conn V)"
  then have db: "db_ok db" and q: "q_foreign_keys (sd_conn V)" by auto
  have "db_ok (set_metadata (sd_conn V) k v db)" using db by (auto simp: db_ok_def set_metadata_def distinct_filter)
  with q show "db_ok (set_metadata (sd_conn V) k v db) \<and> q_foreign_keys (sd_conn V)" by simp
  have "db_ok (fst (insert_seed_provider (sd_conn V) p db))"
    using db by (auto simp: insert_seed_provider_def db_ok_def catalog_ok_def list_ex_iff)
  with q show "db_ok (fst (insert_seed_provider (sd_conn V) p db)) \<and> q_foreign_keys (sd_conn V)" by simp
  have "db_ok (fst (insert_seed_model (sd_conn V) m db))"
    using db q by (auto simp: insert_seed_model_def db_ok_def catalog_ok_def list_ex_iff row_at_None_iff)
  with q show "db_ok (fst (insert_seed_model (sd_conn V) m db)) \<and> q_foreign_keys (sd_conn V)" by simp
  have "db_ok (fst (upsert_seed_channel (sd_conn V) c db))"
    using db by (auto intro!: db_ok_upsert_channels simp: upsert_seed_channel_def merge_seed_channel_def
      seed_channel_row_def channel_row_ok_def uint_quota_ok [simplified] uint_u32_ok [simplified])
  with q show "db_ok (fst (upsert_seed_channel (sd_conn V) c db)) \<and> q_foreign_keys (sd_conn V)" by simp
  have "db_ok (fst (upsert_seed_mapping (sd_conn V) mm db))"
    using db q by (simp add: upsert_seed_mapping_def db_ok_mappings mappings_ok_upsert db_okD)
  with q show "db_ok (fst (upsert_seed_mapping (sd_conn V) mm db)) \<and> q_foreign_keys (sd_conn V)" by simp
qed

lemma seed_init_ok: "q_foreign_keys (sd_conn V) \<Longrightarrow> db_ok db \<Longrightarrow> db_ok (fst (seed_init V db))"
  using seeding_db.keeps_init by blast

lemma seed_refresh_ok: "q_foreign_keys (sd_conn V) \<Longrightarrow> db_ok db \<Longrightarrow> db_ok (fst (seed_refresh V url db))"
  using seeding_db.keeps_refresh by blast

text \<open>
  The failure counters stay readable: the column is read as a \<open>u32\<close>, while its statement adds 1 in 64 bits.
  Seeding writes no counter but the 0 of a new row.
\<close>

definition counters_ok :: "sqlite_db \<Rightarrow> bool" where
  "counters_ok db \<longleftrightarrow> list_all (\<lambda>r. r_consecutive_failures r < 2 ^ 32) (t_channels db)"

interpretation seeding_counters: seed_statements V counters_ok for V
proof
  fix db k v p m c mm
  assume db: "counters_ok db"
  then show "counters_ok (set_metadata (sd_conn V) k v db)"
    "counters_ok (fst (insert_seed_provider (sd_conn V) p db))" "counters_ok (fst (insert_seed_model (sd_conn V) m db))"
    "counters_ok (fst (upsert_seed_mapping (sd_conn V) mm db))"
    by (simp_all add: counters_ok_def set_metadata_def insert_seed_provider_def insert_seed_model_def upsert_seed_mapping_def)
  show "counters_ok (fst (upsert_seed_channel (sd_conn V) c db))"
    using db by (auto simp: counters_ok_def upsert_seed_channel_def sql_upsert_def list_all_iff seed_channel_row_def
        merge_seed_channel_def)
qed

section \<open>Reachable databases\<close>

text \<open>One operation of the backend, on a connection that enforces foreign keys.\<close>

inductive db_step :: "sqlite_db \<Rightarrow> sqlite_db \<Rightarrow> bool" where
  step_migrate: "db_step db (fst (sqlite_migrate Q db))"
| step_seed_init: "q_foreign_keys (sd_conn V) \<Longrightarrow> db_step db (fst (seed_init V db))"
| step_seed_refresh: "q_foreign_keys (sd_conn V) \<Longrightarrow> db_step db (fst (seed_refresh V url db))"
| step_upsert_channel: "db_step db (fst (sqlite_upsert_channel Q db c))"
| step_set_channel_enabled: "db_step db (fst (sqlite_set_channel_enabled Q db k b))"
| step_set_channel_api_key: "db_step db (fst (sqlite_set_channel_api_key Q db k key))"
| step_update_channel: "db_step db (fst (sqlite_update_channel Q db k u))"
| step_delete_channel: "q_foreign_keys Q \<Longrightarrow> db_step db (fst (sqlite_delete_channel Q db k))"
| step_mark_channel_healthy: "db_step db (fst (sqlite_mark_channel_healthy Q db k))"
| step_record_channel_failure: "db_step db (fst (sqlite_record_channel_failure Q db k))"
| step_upsert_mapping: "q_foreign_keys Q \<Longrightarrow> db_step db (fst (sqlite_upsert_mapping Q db m))"
| step_set_mapping_enabled: "db_step db (fst (sqlite_set_mapping_enabled Q db k b))"
| step_delete_mapping: "db_step db (fst (sqlite_delete_mapping Q db k))"
| step_upsert_model_alias: "db_step db (fst (sqlite_upsert_model_alias Q db req))"
| step_delete_model_alias: "db_step db (fst (sqlite_delete_model_alias Q db n))"
| step_set_model_alias_enabled: "db_step db (fst (sqlite_set_model_alias_enabled Q db n b))"
| step_insert_cost_record: "db_step db (fst (sqlite_insert_cost_record Q db r))"
| step_prune_cost_records: "db_step db (fst (sqlite_prune_cost_records Q db d))"
| step_insert_switch_log: "db_step db (fst (sqlite_insert_switch_log Q db l))"
| step_insert_subscription_fee: "db_step db (fst (sqlite_insert_subscription_fee Q db f))"

inductive db_reachable :: "sqlite_db \<Rightarrow> bool" where
  reach_empty: "db_reachable empty_db"
| reach_step: "db_reachable db \<Longrightarrow> db_step db db' \<Longrightarrow> db_reachable db'"

lemmas op_ok = migrate_ok seed_init_ok seed_refresh_ok upsert_channel_ok set_channel_enabled_ok
  set_channel_api_key_ok update_channel_ok delete_channel_ok mark_channel_healthy_ok record_channel_failure_ok
  upsert_mapping_ok set_mapping_enabled_ok delete_mapping_ok upsert_model_alias_ok delete_model_alias_ok
  set_model_alias_enabled_ok insert_cost_record_ok prune_cost_records_ok insert_switch_log_ok
  insert_subscription_fee_ok

lemma db_step_ok: "db_step db db' \<Longrightarrow> db_ok db \<Longrightarrow> db_ok db'"
  by (induction rule: db_step.induct) (simp_all add: op_ok)

lemma db_reachable_ok: "db_reachable db \<Longrightarrow> db_ok db"
  by (induction rule: db_reachable.induct) (auto simp: db_ok_empty intro: db_step_ok)

section \<open>Properties\<close>

text \<open>
  C11. Whatever sequence of operations a database has gone through since it was created (migrations, seeding,
  channel, mapping, alias and record operations, successful or not, with any data), the primary keys of every
  table are unique, those the database numbers itself included, every mapping belongs to a channel that exists and every model to a provider that exists, no
  stored cost or fee is NaN, and the quota and priority columns of every channel are in the range their accessors
  read, while its failure counter is only known not to be negative: the statement that counts has no bound.
\<close>

theorem database_integrity: "db_reachable db \<Longrightarrow> db_ok db"
  by (rule db_reachable_ok)

theorem database_integrity_witness:
  "db_ok (fst (sqlite_migrate sample_sqlite_env empty_db)) \<and>
   t_aliases (fst (sqlite_migrate sample_sqlite_env empty_db)) \<noteq> []"
proof
  show "db_ok (fst (sqlite_migrate sample_sqlite_env empty_db))"
    by (rule database_integrity) (intro reach_step [OF reach_empty] step_migrate)
  show "t_aliases (fst (sqlite_migrate sample_sqlite_env empty_db)) \<noteq> []"
    by (simp add: sqlite_migrate_def sample_sqlite_env_def with_conn_upd_def empty_db_def migration_v1_def
        migration_v2_def insert_alias_if_absent_def put_alias_def autoincrement_def sql_upsert_def
        new_alias_row_def Let_def)
qed

end
