(* ===== verification/Channel_Store.thy ===== *)
theory Channel_Store
  imports Router_Hooks Sqlite_Inv
begin

text \<open>
  What the router and the admin API rely on when they read channels from a storage backend, as a
  contract: \<open>channel_reader\<close> has the laws of the queries, \<open>channel_store\<close> adds those of the updates. The
  clients' lemmas (what a loaded channel table looks like, what a deletion does to the next load) are
  proved from the contract, and the SQLite backend is shown to keep it for every database that
  satisfies \<open>db_ok\<close>.
\<close>

section \<open>The contract\<close>

locale channel_reader =
  fixes S :: "'s storage" and inv :: "'s \<Rightarrow> bool"
  assumes list_distinct: "inv db \<Longrightarrow> list_channels S db None = Inr cs \<Longrightarrow> distinct (map ch_id cs)"
    and get_is_find: "inv db \<Longrightarrow> list_channels S db None = Inr cs \<Longrightarrow>
      get_channel S db k = Inr (find (\<lambda>c. ch_id c = k) cs)"
    and mappings_belong: "inv db \<Longrightarrow> list_mappings S db k = Inr ms \<Longrightarrow> m \<in> set ms \<Longrightarrow> mm_channel_id m = k"
begin

lemma resolve_channel_id: "resolve_channel S P db ch = Inr (Some c) \<Longrightarrow> rc_channel_id c = ch_id ch"
  by (auto simp: resolve_channel_def Let_def split: if_splits sum.splits)

lemma resolve_channels_from:
  "resolve_channels S P db chs = Inr cs \<Longrightarrow> c \<in> set cs \<Longrightarrow>
     \<exists>ch\<in>set chs. resolve_channel S P db ch = Inr (Some c)"
  by (induction chs arbitrary: cs) (auto simp: res_bind_Inr_iff split: option.splits)

lemma resolve_channels_distinct:
  "resolve_channels S P db chs = Inr cs \<Longrightarrow> distinct (map ch_id chs) \<Longrightarrow> distinct (map rc_channel_id cs)"
proof (induction chs arbitrary: cs)
  case (Cons ch chs)
  then obtain r rs where r: "resolve_channel S P db ch = Inr r" and rs: "resolve_channels S P db chs = Inr rs"
    and cs: "cs = (case r of None \<Rightarrow> rs | Some c \<Rightarrow> c # rs)" by (auto simp: res_bind_Inr_iff)
  have "distinct (map rc_channel_id rs)" using Cons rs by simp
  moreover have "rc_channel_id c \<notin> rc_channel_id ` set rs" if "r = Some c" for c
    using resolve_channels_from [OF rs] resolve_channel_id r that Cons.prems(2) by fastforce
  ultimately show ?case by (auto simp: cs split: option.split)
qed simp

lemma loaded_distinct:
  "inv db \<Longrightarrow> load_channels S P db = Inr chs \<Longrightarrow> distinct (map rc_channel_id chs)"
  using list_distinct resolve_channels_distinct by (fastforce simp: load_channels_def split: sum.splits)

text \<open>A loaded channel is the row the backend has under its identifier, with its own mappings only.\<close>

lemma loaded_from_row:
  assumes "inv db" "load_channels S P db = Inr chs" "c \<in> set chs"
  shows "\<exists>ch ms. get_channel S db (rc_channel_id c) = Inr (Some ch) \<and> resolve_channel S P db ch = Inr (Some c) \<and>
    ch_id ch = rc_channel_id c \<and> list_mappings S db (rc_channel_id c) = Inr ms \<and>
    (\<forall>m\<in>set ms. mm_channel_id m = rc_channel_id c)"
proof -
  obtain cs where cs: "list_channels S db None = Inr cs" and r: "resolve_channels S P db cs = Inr chs"
    using assms(2) by (auto simp: load_channels_def split: sum.splits)
  obtain ch where ch: "ch \<in> set cs" "resolve_channel S P db ch = Inr (Some c)"
    using resolve_channels_from [OF r assms(3)] by blast
  have "find (\<lambda>x. ch_id x = ch_id ch) cs = Some ch"
    using row_at_in [OF list_distinct [OF assms(1) cs] ch(1)] by (simp add: row_at_def)
  moreover obtain ms where "list_mappings S db (ch_id ch) = Inr ms"
    using ch(2) by (auto simp: resolve_channel_def Let_def split: if_splits sum.splits)
  ultimately show ?thesis
    using ch(2) resolve_channel_id [OF ch(2)] get_is_find [OF assms(1) cs] mappings_belong [OF assms(1)] by auto
qed

lemma absent_not_loaded:
  assumes "inv db" "get_channel S db k = Inr None" "load_channels S P db = Inr chs"
  shows "k \<notin> rc_channel_id ` set chs"
  using loaded_from_row [OF assms(1,3)] assms(2) by fastforce

text \<open>The router's table after a start or a reload has distinct identifiers.\<close>

lemma from_storage_distinct:
  "inv db \<Longrightarrow> router_from_storage S P db = Inr st \<Longrightarrow> distinct (map rc_channel_id (channels st))"
  by (auto simp: router_from_storage_def res_bind_Inr_iff dest: loaded_distinct)

lemma reload_distinct:
  "inv db \<Longrightarrow> distinct (map rc_channel_id (channels st)) \<Longrightarrow>
     distinct (map rc_channel_id (channels (fst (reload_channels_from_storage S P db st))))"
  by (auto simp: reload_channels_from_storage_def dest: loaded_distinct split: sum.split)

end

locale channel_store = channel_reader S inv
  for S :: "'s storage" and inv :: "'s \<Rightarrow> bool" +
  assumes inv_update: "inv db \<Longrightarrow> inv (fst (update_channel S db k u))"
    and inv_delete: "inv db \<Longrightarrow> inv (fst (delete_channel S db k))"
    and get_after_update: "inv db \<Longrightarrow> update_channel S db k u = (db', Inr c) \<Longrightarrow>
      get_channel S db' k' = (if k' = k then Inr (Some c) else get_channel S db k')"
    and get_after_delete: "inv db \<Longrightarrow> delete_channel S db k = (db', Inr ()) \<Longrightarrow>
      get_channel S db' k' = (if k' = k then Inr None else get_channel S db k')"
begin

text \<open>After a deletion and a reload the router does not know the channel.\<close>

lemma deleted_not_loaded:
  assumes "inv db" "delete_channel S db k = (db', Inr ())" "load_channels S P db' = Inr chs"
  shows "k \<notin> rc_channel_id ` set chs"
  using absent_not_loaded [OF _ _ assms(3)] inv_delete [OF assms(1), of k] get_after_delete [OF assms(1,2)] assms(2)
  by simp

text \<open>After an update and a reload the router has the row the update returned.\<close>

lemma updated_loaded:
  assumes "inv db" "update_channel S db k u = (db', Inr c)" "load_channels S P db' = Inr chs" "rc \<in> set chs"
    and "rc_channel_id rc = k"
  shows "resolve_channel S P db' c = Inr (Some rc)"
  using loaded_from_row [OF _ assms(3,4)] inv_update [OF assms(1), of k u] get_after_update [OF assms(1,2)] assms(2,5)
  by auto

end

section \<open>The SQLite backend keeps the contract\<close>

lemma with_conn_Inr: "with_conn Q r = Inr x \<longleftrightarrow> q_pool Q = None \<and> r = Inr x"
  by (simp add: with_conn_def split: option.split)

lemma with_conn_upd_Inr: "with_conn_upd Q db r = (db', Inr x) \<longleftrightarrow> q_pool Q = None \<and> r = (db', Inr x)"
  by (simp add: with_conn_upd_def split: option.split)

lemma row_to_channel_id: "row_to_channel Q r = Inr c \<Longrightarrow> ch_id c = r_id r"
  by (auto simp: row_to_channel_def Let_def split: if_splits)

lemma collect_find:
  assumes "list_all2 (\<lambda>r c. row_to_channel Q r = Inr c) rows cs"
  shows "(case row_at r_id k rows of None \<Rightarrow> Inr None | Some r \<Rightarrow> res_bind (row_to_channel Q r) (\<lambda>c. Inr (Some c))) =
    Inr (find (\<lambda>c. ch_id c = k) cs)"
  using assms by (induction rule: list_all2_induct) (auto dest: row_to_channel_id)

lemma sqlite_get_is_find:
  assumes "db_ok db" "sqlite_list_channels Q db None = Inr cs"
  shows "sqlite_get_channel Q db k = Inr (find (\<lambda>c. ch_id c = k) cs)"
proof -
  let ?rows = "order_by2 r_priority r_id (t_channels db)"
  have q: "q_pool Q = None" and c: "collect_rows (row_to_channel Q) ?rows = Inr cs"
    using assms(2) by (simp_all add: sqlite_list_channels_def with_conn_Inr)
  have "distinct (map r_id (t_channels db))" using db_okD(1) [OF assms(1)] by (simp add: channels_ok_def)
  then have "row_at r_id k (t_channels db) = row_at r_id k ?rows" by (intro row_at_perm) simp_all
  then show ?thesis
    using collect_find [OF collect_rows_Inr [OF c]] q by (simp add: sqlite_get_channel_def with_conn_def)
qed

lemma sqlite_list_distinct:
  assumes "db_ok db" "sqlite_list_channels Q db None = Inr cs"
  shows "distinct (map ch_id cs)"
proof -
  have "collect_rows (row_to_channel Q) (order_by2 r_priority r_id (t_channels db)) = Inr cs"
    using assms(2) by (simp add: sqlite_list_channels_def with_conn_Inr)
  from collect_rows_map_key [OF this row_to_channel_id]
  have "map ch_id cs = map r_id (order_by2 r_priority r_id (t_channels db))" .
  with db_okD(1) [OF assms(1)] show ?thesis by (simp add: channels_ok_def)
qed

text \<open>A single row after \<open>UPDATE\<close> and \<open>DELETE\<close>: the table as a map.\<close>

lemma update_channel_row_Inr:
  assumes "update_channel_row Q db k f = (db', Inr x)" "\<And>r. r_id (f r) = r_id r"
  shows "q_pool Q = None"
    and "row_at r_id k' (t_channels db') =
      (if k' = k then map_option f (row_at r_id k (t_channels db)) else row_at r_id k' (t_channels db))"
    and "t_mappings db' = t_mappings db" "row_at r_id k (t_channels db) \<noteq> None"
proof -
  have u: "q_pool Q = None" "db' = db\<lparr>t_channels := fst (sql_update r_id k f (t_channels db))\<rparr>"
    "snd (sql_update r_id k f (t_channels db)) \<noteq> 0"
    using assms(1) by (auto simp: update_channel_row_def with_conn_upd_Inr case_prod_unfold Let_def split: if_splits)
  show "q_pool Q = None" "t_mappings db' = t_mappings db" using u by simp_all
  show "row_at r_id k' (t_channels db') =
      (if k' = k then map_option f (row_at r_id k (t_channels db)) else row_at r_id k' (t_channels db))"
    by (simp add: u sql_update_fst row_at_map [where f = f and key = r_id, OF assms(2)])
  show "row_at r_id k (t_channels db) \<noteq> None"
    using u(3) by (auto simp: sql_update_def row_at_None_iff filter_empty_conv)
qed

lemma sqlite_get_after_update:
  assumes "sqlite_update_channel Q db k u = (db', Inr c)"
  shows "sqlite_get_channel Q db' k' = (if k' = k then Inr (Some c) else sqlite_get_channel Q db k')"
proof -
  have id: "r_id (apply_channel_update Q u r) = r_id r" for r by (simp add: apply_channel_update_def)
  have up: "update_channel_row Q db k (apply_channel_update Q u) = (db', Inr ())"
    and c: "(case row_at r_id k (t_channels db') of None \<Rightarrow> Inl (Backend (q_no_rows Q)) | Some r \<Rightarrow> row_to_channel Q r) = Inr c"
    using assms by (auto simp: sqlite_update_channel_def split: prod.splits sum.splits)
  note rows = update_channel_row_Inr [OF up id]
  obtain r where "row_at r_id k (t_channels db') = Some r" "row_to_channel Q r = Inr c"
    using c by (auto split: option.splits)
  then show ?thesis using rows(1) rows(2) [of k'] by (auto simp: sqlite_get_channel_def with_conn_def)
qed

lemma sqlite_get_after_delete:
  assumes "sqlite_delete_channel Q db k = (db', Inr ())"
  shows "sqlite_get_channel Q db' k' = (if k' = k then Inr None else sqlite_get_channel Q db k')"
  using assms
  by (auto simp: sqlite_delete_channel_def with_conn_upd_Inr sql_delete_def sqlite_get_channel_def with_conn_def
      row_at_filter_key split: if_splits)

interpretation sqlite: channel_store "sqlite_storage Q" "\<lambda>db. db_ok db \<and> q_foreign_keys Q" for Q
proof
  fix db cs k ms m u db' c k'
  assume "db_ok db \<and> q_foreign_keys Q"
  then have db: "db_ok db" "q_foreign_keys Q" by auto
  show "list_channels (sqlite_storage Q) db None = Inr cs \<Longrightarrow> distinct (map ch_id cs)"
    using db(1) by (simp add: sqlite_storage_def sqlite_list_distinct)
  show "list_channels (sqlite_storage Q) db None = Inr cs \<Longrightarrow>
      get_channel (sqlite_storage Q) db k = Inr (find (\<lambda>c. ch_id c = k) cs)"
    using db(1) by (simp add: sqlite_storage_def sqlite_get_is_find)
  show "list_mappings (sqlite_storage Q) db k = Inr ms \<Longrightarrow> m \<in> set ms \<Longrightarrow> mm_channel_id m = k"
    by (auto simp: sqlite_storage_def sqlite_list_mappings_def with_conn_Inr)
  show "db_ok (fst (update_channel (sqlite_storage Q) db k u)) \<and> q_foreign_keys Q"
    using db by (simp add: sqlite_storage_def update_channel_ok)
  show "db_ok (fst (delete_channel (sqlite_storage Q) db k)) \<and> q_foreign_keys Q"
    using db by (simp add: sqlite_storage_def delete_channel_ok)
  show "update_channel (sqlite_storage Q) db k u = (db', Inr c) \<Longrightarrow>
      get_channel (sqlite_storage Q) db' k' = (if k' = k then Inr (Some c) else get_channel (sqlite_storage Q) db k')"
    by (simp add: sqlite_storage_def sqlite_get_after_update)
  show "delete_channel (sqlite_storage Q) db k = (db', Inr ()) \<Longrightarrow>
      get_channel (sqlite_storage Q) db' k' = (if k' = k then Inr None else get_channel (sqlite_storage Q) db k')"
    by (simp add: sqlite_storage_def sqlite_get_after_delete)
qed

end
