(* ===== verification/Storage_Props.thy ===== *)
theory Storage_Props
  imports Channel_Store
begin

text \<open>
  What the SQLite backend does, stated over whole operations: the channel table is a map from
  identifiers to rows, an upserted channel reads back, failures escalate a channel's health, and aggregates
  count every record once. The report per month is shown to merge months.
\<close>

section \<open>The channel table as a map\<close>

definition abs_channels :: "sqlite_db \<Rightarrow> string \<rightharpoonup> channel_row" where
  "abs_channels db = (\<lambda>k. row_at r_id k (t_channels db))"

text \<open>The abstract operations.\<close>

definition abs_upsert :: "channel_row \<Rightarrow> (string \<rightharpoonup> channel_row) \<Rightarrow> string \<rightharpoonup> channel_row" where
  "abs_upsert new A = A(r_id new \<mapsto> (case A (r_id new) of None \<Rightarrow> new | Some old \<Rightarrow> merge_channel_row old new))"

definition abs_modify :: "string \<Rightarrow> (channel_row \<Rightarrow> channel_row) \<Rightarrow> (string \<rightharpoonup> channel_row) \<Rightarrow> string \<rightharpoonup> channel_row" where
  "abs_modify k f A = A(k := map_option f (A k))"

text \<open>A database with one channel, and two records of one project and model in different months.\<close>

definition sample_stored_channel :: channel where
  "sample_stored_channel =
     \<lparr>ch_id = ''c'', ch_name = ''C'', ch_api_key = ''key'', ch_protocol = ''openai_chat'', ch_protocols = ''[]'',
      ch_is_builtin = False, ch_enabled = True, ch_created_at = 0, ch_updated_at = 0,
      ch_health_status = ''Healthy'', ch_cooldown_until = None, ch_consecutive_failures = 0,
      ch_billing_type = ''metered'', ch_monthly_quota = None, ch_quota_policy = ''fallback'', ch_priority = 1,
      ch_force_protocol = None\<rparr>"

definition sample_store :: sqlite_db where
  "sample_store = fst (sqlite_upsert_channel sample_sqlite_env empty_db sample_stored_channel)"

definition sample_cost :: "string \<Rightarrow> string \<Rightarrow> cost_record" where
  "sample_cost k t =
     \<lparr>cr_id = k, cr_channel_id = ''c'', cr_upstream_channel = ''C'', cr_upstream_model = ''m'',
      cr_request_time_ms = 1, cr_project = ''p'', cr_user_id = ''u'', cr_agent_type = ''a'',
      cr_input_tokens = 10, cr_output_tokens = 5, cr_cache_write_tokens = 0, cr_cache_read_tokens = 0,
      cr_thinking_tokens = 0, cr_cost = Fin 1, cr_schema_saved_tokens = 0, cr_response_saved_tokens = 0,
      cr_rtk_saved_tokens = 0, cr_pre_compress_tokens = 0, cr_post_compress_tokens = 0,
      cr_compression_tokens_saved = 0, cr_unit = ''USD'', cr_pricing_snapshot_json = [], cr_timestamp = t,
      cr_session_id = None, cr_before_tokens = 0, cr_after_tokens = 0, cr_tokens_saved = 0,
      cr_compression_breakdown_json = ''[]''\<rparr>"

definition sample_costs_db :: sqlite_db where
  "sample_costs_db =
     empty_db\<lparr>t_costs := [sample_cost ''1'' ''2026-01-05'', sample_cost ''2'' ''2026-02-05'']\<rparr>"

definition sample_range_env :: sqlite_env where
  "sample_range_env = sample_sqlite_env\<lparr>q_rfc3339 := (\<lambda>t. if t = 0 then ''2025'' else ''2027'')\<rparr>"

lemma sample_store_ok: "db_ok sample_store" "q_pool sample_sqlite_env = None"
  by (simp_all add: sample_store_def upsert_channel_ok db_ok_empty sample_sqlite_env_def)

lemma new_channel_row_id [simp]: "r_id (new_channel_row Q c) = ch_id c"
  by (simp add: new_channel_row_def)

lemma abs_upsert_channels:
  "abs_channels (db\<lparr>t_channels := sql_upsert r_id merge_channel_row (new_channel_row Q c) (t_channels db)\<rparr>) =
     abs_upsert (new_channel_row Q c) (abs_channels db)"
  using row_at_upsert [where key = r_id and merge = merge_channel_row and new = "new_channel_row Q c" and rows = "t_channels db"]
  by (auto simp: abs_channels_def abs_upsert_def fun_eq_iff merge_channel_row_def)

lemma abs_update_channels:
  assumes "\<And>r. r_id (f r) = r_id r"
  shows "abs_channels (db\<lparr>t_channels := fst (sql_update r_id k f (t_channels db))\<rparr>) = abs_modify k f (abs_channels db)"
  by (auto simp: abs_channels_def abs_modify_def fun_eq_iff sql_update_fst row_at_map [where f = f and key = r_id, OF assms])

lemma abs_update_channel_row:
  assumes "q_pool Q = None" "\<And>r. r_id (f r) = r_id r" "distinct (map r_id (t_channels db))"
  shows "abs_channels (fst (update_channel_row Q db k f)) = abs_modify k f (abs_channels db)"
    and "snd (update_channel_row Q db k f) =
      (case abs_channels db k of None \<Rightarrow> Inl (channel_not_found k) | Some _ \<Rightarrow> Inr ())"
proof -
  have eq: "update_channel_row Q db k f =
      (db\<lparr>t_channels := fst (sql_update r_id k f (t_channels db))\<rparr>,
       if snd (sql_update r_id k f (t_channels db)) = 0 then Inl (channel_not_found k) else Inr ())"
    using assms(1) by (simp add: update_channel_row_def with_conn_upd_def case_prod_unfold Let_def)
  show "abs_channels (fst (update_channel_row Q db k f)) = abs_modify k f (abs_channels db)"
    by (simp add: eq abs_update_channels [OF assms(2)])
  show "snd (update_channel_row Q db k f) =
      (case abs_channels db k of None \<Rightarrow> Inl (channel_not_found k) | Some _ \<Rightarrow> Inr ())"
    using sql_update_count [where f = f, OF assms(3)] by (auto simp: eq abs_channels_def split: option.split)
qed

text \<open>
  C6. The channel table implements a map from identifiers to rows: with a connection, inserting or
  replacing a channel, changing its flag or its key, marking it healthy and deleting it are the
  corresponding updates of the map, and each of the updates of an existing row fails with \<open>NotFound\<close>
  exactly for the identifiers that are not in the map.
\<close>

theorem channel_table_refines_map:
  assumes "db_ok db" "q_pool Q = None"
  shows "abs_channels (fst (sqlite_upsert_channel Q db c)) =
      (if is_some_and (\<lambda>q. 2 ^ 63 \<le> uint q) (ch_monthly_quota c) then abs_channels db
       else abs_upsert (new_channel_row Q c) (abs_channels db)) \<and>
    abs_channels (fst (sqlite_set_channel_enabled Q db k b)) =
      abs_modify k (\<lambda>r. r\<lparr>r_enabled := b, r_updated_at := q_now_unix Q\<rparr>) (abs_channels db) \<and>
    abs_channels (fst (sqlite_set_channel_api_key Q db k key)) =
      abs_modify k (\<lambda>r. r\<lparr>r_api_key := key, r_updated_at := q_now_unix Q\<rparr>) (abs_channels db) \<and>
    abs_channels (fst (sqlite_mark_channel_healthy Q db k)) =
      abs_modify k (\<lambda>r. r\<lparr>r_health_status := ''Healthy'', r_cooldown_until := None,
        r_consecutive_failures := 0, r_updated_at := q_now_unix Q\<rparr>) (abs_channels db) \<and>
    abs_channels (fst (sqlite_delete_channel Q db k)) = (abs_channels db)(k := None) \<and>
    (let missing = (case abs_channels db k of None \<Rightarrow> Inl (channel_not_found k) | Some _ \<Rightarrow> Inr ())
     in snd (sqlite_set_channel_enabled Q db k b) = missing \<and> snd (sqlite_set_channel_api_key Q db k key) = missing \<and>
        snd (sqlite_mark_channel_healthy Q db k) = missing \<and> snd (sqlite_delete_channel Q db k) = missing)"
proof -
  have d: "distinct (map r_id (t_channels db))" using db_okD(1) [OF assms(1)] by (simp add: channels_ok_def)
  note upd = abs_update_channel_row [OF assms(2) _ d]
  have "abs_channels (fst (sqlite_upsert_channel Q db c)) =
      (if is_some_and (\<lambda>q. 2 ^ 63 \<le> uint q) (ch_monthly_quota c) then abs_channels db
       else abs_upsert (new_channel_row Q c) (abs_channels db))"
    using assms(2) by (simp add: sqlite_upsert_channel_def with_conn_upd_def abs_upsert_channels)
  moreover have "abs_channels (fst (sqlite_delete_channel Q db k)) = (abs_channels db)(k := None)"
    using assms(2) by (auto simp: sqlite_delete_channel_def with_conn_upd_def sql_delete_def abs_channels_def
        fun_eq_iff row_at_filter_key)
  moreover have "snd (sqlite_delete_channel Q db k) =
      (case abs_channels db k of None \<Rightarrow> Inl (channel_not_found k) | Some _ \<Rightarrow> Inr ())"
    using assms(2) sql_delete_count [where key = r_id and k = k and rows = "t_channels db"]
    by (auto simp: sqlite_delete_channel_def with_conn_upd_def abs_channels_def case_prod_unfold Let_def split: option.split)
  ultimately show ?thesis
    by (simp add: sqlite_set_channel_enabled_def sqlite_set_channel_api_key_def sqlite_mark_channel_healthy_def
        upd [simplified] Let_def)
qed

theorem channel_table_refines_map_witness:
  "abs_channels (fst (sqlite_delete_channel sample_sqlite_env sample_store ''c'')) ''c'' = None \<and>
   snd (sqlite_delete_channel sample_sqlite_env sample_store ''d'') = Inl (channel_not_found ''d'')"
  using channel_table_refines_map [OF sample_store_ok, of sample_stored_channel "''c''" True "[]"]
    channel_table_refines_map [OF sample_store_ok, of sample_stored_channel "''d''" True "[]"]
  by (simp add: sample_store_def abs_channels_def sqlite_upsert_channel_def with_conn_upd_def sample_sqlite_env_def
      empty_db_def sql_upsert_def sample_stored_channel_def new_channel_row_def Let_def)

section \<open>Round trip\<close>

lemma stored_channel:
  assumes "channel_row_ok r" "r_consecutive_failures r < 2 ^ 32"
  shows "row_to_channel Q r = Inr \<lparr>ch_id = r_id r, ch_name = r_name r, ch_api_key = r_api_key r,
    ch_protocol = r_protocol r, ch_protocols = r_protocols r, ch_is_builtin = r_is_builtin r,
    ch_enabled = r_enabled r, ch_created_at = r_created_at r, ch_updated_at = r_updated_at r,
    ch_health_status = (if r_api_key r = [] then ''Unavailable'' else r_health_status r),
    ch_cooldown_until = r_cooldown_until r, ch_consecutive_failures = of_int (r_consecutive_failures r),
    ch_billing_type = r_billing_type r, ch_monthly_quota = map_option of_int (r_monthly_quota r),
    ch_quota_policy = r_quota_policy r, ch_priority = of_int (r_priority r), ch_force_protocol = r_force_protocol r\<rparr>"
  using assms by (cases "r_monthly_quota r") (auto simp: row_to_channel_def channel_row_ok_def Let_def)

text \<open>What reads back of an upserted channel, given the row that was there before.\<close>

definition reads_back :: "channel_row option \<Rightarrow> channel \<Rightarrow> channel \<Rightarrow> bool" where
  "reads_back before c c' \<longleftrightarrow>
     (ch_id c', ch_name c', ch_protocol c', ch_protocols c', ch_is_builtin c', ch_enabled c') =
       (ch_id c, ch_name c, ch_protocol c, ch_protocols c, ch_is_builtin c, ch_enabled c) \<and>
     (ch_billing_type c', ch_monthly_quota c', ch_quota_policy c', ch_priority c', ch_force_protocol c') =
       (ch_billing_type c, ch_monthly_quota c, ch_quota_policy c, ch_priority c, ch_force_protocol c) \<and>
     ch_api_key c' = (if ch_api_key c \<noteq> [] then ch_api_key c else (case before of None \<Rightarrow> [] | Some r \<Rightarrow> r_api_key r)) \<and>
     ch_health_status c' = (if ch_api_key c' = [] then ''Unavailable'' else ch_health_status c)"

lemma quota_round_trip: "map_option of_int (map_option uint (q :: u64 option)) = q"
  by (cases q) simp_all

lemma stored_reads_back:
  assumes "channel_row_ok r" "r_consecutive_failures r < 2 ^ 32"
    and "r = (case old of None \<Rightarrow> new_channel_row Q c | Some row \<Rightarrow> merge_channel_row row (new_channel_row Q c))"
    and "r_id r = ch_id c"
  shows "\<exists>c'. row_to_channel Q r = Inr c' \<and> reads_back old c c'"
  using stored_channel [OF assms(1,2), of Q] assms(3,4)
  by (cases old) (simp_all add: reads_back_def new_channel_row_def merge_channel_row_def quota_round_trip)

text \<open>
  C27. A channel that is written reads back: after an upsert that succeeds, and as long as the failure counter
  of the row fits the \<open>u32\<close> it is read as, the channel under this identifier
  has the written name, protocols, flags, billing, quota, priority and forced protocol; its key is the
  written one unless that is empty, in which case the previous key is kept; its health is what was
  written, but \<open>Unavailable\<close> while it has no key. No other channel changes. An upsert that fails (the
  quota does not fit the column) changes nothing.
\<close>

theorem upserted_channel_reads_back:
  assumes "db_ok db" "q_pool Q = None"
    and "is_none_or (\<lambda>r. r_consecutive_failures r < 2 ^ 32) (abs_channels db (ch_id c))"
  shows "case sqlite_upsert_channel Q db c of
      (db', Inr _) \<Rightarrow>
        \<exists>c'. sqlite_get_channel Q db' (ch_id c) = Inr (Some c') \<and> reads_back (abs_channels db (ch_id c)) c c' \<and>
             (\<forall>k. k \<noteq> ch_id c \<longrightarrow> sqlite_get_channel Q db' k = sqlite_get_channel Q db k)
    | (db', Inl e) \<Rightarrow> db' = db"
proof (cases "is_some_and (\<lambda>q. 2 ^ 63 \<le> uint q) (ch_monthly_quota c)")
  case True
  with assms(2) show ?thesis by (simp add: sqlite_upsert_channel_def with_conn_upd_def)
next
  case False
  let ?db = "db\<lparr>t_channels := sql_upsert r_id merge_channel_row (new_channel_row Q c) (t_channels db)\<rparr>"
  let ?old = "abs_channels db (ch_id c)"
  let ?r = "case ?old of None \<Rightarrow> new_channel_row Q c | Some old \<Rightarrow> merge_channel_row old (new_channel_row Q c)"
  have up: "sqlite_upsert_channel Q db c = (?db, Inr ())"
    using False assms(2) by (simp add: sqlite_upsert_channel_def with_conn_upd_def)
  have row: "row_at r_id k (t_channels ?db) = (if k = ch_id c then Some ?r else row_at r_id k (t_channels db))" for k
    using fun_cong [OF abs_upsert_channels [where db = db and Q = Q and c = c], of k]
    by (simp add: abs_channels_def abs_upsert_def)
  have ok: "db_ok ?db" using upsert_channel_ok [OF assms(1), of Q c] by (simp add: up)
  have "?r \<in> set (t_channels ?db)" and id: "r_id ?r = ch_id c" using row_at_Some [of r_id "ch_id c" "t_channels ?db" ?r] row [of "ch_id c"] by auto
  then have rok: "channel_row_ok ?r" using db_okD(1) [OF ok] by (simp add: channels_ok_def list_all_iff)
  have "r_consecutive_failures ?r < 2 ^ 32"
    using assms(3) by (cases ?old) (simp_all add: new_channel_row_def merge_channel_row_def)
  with stored_reads_back [OF rok _ refl id] obtain c' where "row_to_channel Q ?r = Inr c'" "reads_back ?old c c'" by blast
  then show ?thesis
    using assms(2) by (simp add: up sqlite_get_channel_def with_conn_def row [simplified])
qed

theorem upserted_channel_reads_back_witness:
  "\<exists>c'. sqlite_get_channel sample_sqlite_env sample_store ''c'' = Inr (Some c') \<and> ch_api_key c' = ''key'' \<and>
     ch_priority c' = 1"
  using upserted_channel_reads_back [OF db_ok_empty sample_store_ok(2), of sample_stored_channel]
  by (auto simp: sample_store_def abs_channels_def sqlite_upsert_channel_def with_conn_upd_def sample_sqlite_env_def
      empty_db_def sample_stored_channel_def reads_back_def)

section \<open>Failures\<close>

definition failed_row :: "sqlite_env \<Rightarrow> channel_row \<Rightarrow> channel_row" where
  "failed_row Q r =
     (let n = r_consecutive_failures r + 1; s = failure_status n
      in r\<lparr>r_consecutive_failures := n, r_updated_at := q_now_unix Q, r_health_status := health_status_str s,
           r_cooldown_until := (if s = HsCooldown then Some (q_cooldown_end Q) else None)\<rparr>)"

lemma abs_modify_modify: "abs_modify k g (abs_modify k f A) = abs_modify k (g \<circ> f) A"
  by (auto simp: abs_modify_def option.map_comp)

lemma record_failure_step:
  assumes "q_pool Q = None" "abs_channels db k = Some r" "0 \<le> r_consecutive_failures r" "r_consecutive_failures r < 2 ^ 31 - 1"
  shows "abs_channels (fst (sqlite_record_channel_failure Q db k)) = (abs_channels db)(k \<mapsto> failed_row Q r)"
    and "snd (sqlite_record_channel_failure Q db k) = Inr ()"
proof -
  let ?bump = "\<lambda>r. r\<lparr>r_consecutive_failures := r_consecutive_failures r + 1, r_updated_at := q_now_unix Q\<rparr>"
  let ?s = "failure_status (r_consecutive_failures r + 1)"
  let ?u = "if ?s = HsCooldown then Some (q_cooldown_end Q) else None"
  let ?put = "\<lambda>r. r\<lparr>r_health_status := health_status_str ?s, r_cooldown_until := ?u\<rparr>"
  let ?db = "db\<lparr>t_channels := fst (sql_update r_id k ?bump (t_channels db))\<rparr>"
  have bump: "abs_channels ?db = abs_modify k ?bump (abs_channels db)" by (rule abs_update_channels) simp
  then have row: "row_at r_id k (t_channels ?db) = Some (?bump r)"
    using assms(2) by (simp add: abs_channels_def abs_modify_def fun_eq_iff)
  have eq: "sqlite_record_channel_failure Q db k =
      (?db\<lparr>t_channels := fst (sql_update r_id k ?put (t_channels ?db))\<rparr>, Inr ())"
    using assms(1,3,4) row by (simp add: sqlite_record_channel_failure_def with_conn_upd_def Let_def)
  show "snd (sqlite_record_channel_failure Q db k) = Inr ()" by (simp add: eq)
  have "abs_channels (?db\<lparr>t_channels := fst (sql_update r_id k ?put (t_channels ?db))\<rparr>) = abs_modify k ?put (abs_channels ?db)"
    by (rule abs_update_channels) simp
  also have "\<dots> = abs_modify k (?put \<circ> ?bump) (abs_channels db)" by (simp only: bump abs_modify_modify)
  also have "\<dots> = (abs_channels db)(k \<mapsto> failed_row Q r)"
    using assms(2) by (simp add: abs_modify_def failed_row_def Let_def)
  finally show "abs_channels (fst (sqlite_record_channel_failure Q db k)) = (abs_channels db)(k \<mapsto> failed_row Q r)"
    by (simp only: eq fst_conv)
qed

text \<open>Whatever the count, a failure leaves the key of the channel alone.\<close>

lemma record_failure_key:
  assumes "abs_channels db k = Some r" "q_pool Q = None"
  shows "is_some_and (\<lambda>r'. r_api_key r' = r_api_key r) (abs_channels (fst (sqlite_record_channel_failure Q db k)) k)"
proof -
  let ?bump = "\<lambda>r. r\<lparr>r_consecutive_failures := r_consecutive_failures r + 1, r_updated_at := q_now_unix Q\<rparr>"
  let ?db = "db\<lparr>t_channels := fst (sql_update r_id k ?bump (t_channels db))\<rparr>"
  have bump: "abs_channels ?db k = Some (?bump r)"
    using abs_update_channels [where f = ?bump and db = db and k = k] assms(1) by (simp add: abs_modify_def)
  have put: "abs_channels (?db\<lparr>t_channels := fst (sql_update r_id k (\<lambda>r. r\<lparr>r_health_status := s, r_cooldown_until := u\<rparr>)
      (t_channels ?db))\<rparr>) k = Some (?bump r\<lparr>r_health_status := s, r_cooldown_until := u\<rparr>)" for s u
    using abs_update_channels [where f = "\<lambda>r. r\<lparr>r_health_status := s, r_cooldown_until := u\<rparr>" and db = ?db and k = k] bump
    by (simp add: abs_modify_def)
  show ?thesis
    using bump put assms(2) by (simp add: sqlite_record_channel_failure_def with_conn_upd_def Let_def split: option.split)
qed

text \<open>
  C26. Failures escalate: after some failures in a row (fewer than \<open>2 ^ 31\<close>) recorded for a channel that had
  none, the stored health is \<open>Degraded\<close> for one and two of them and \<open>Cooldown\<close>, with the end of the
  cooldown as of the last failure, from the third on; the count is the number of failures, and no other
  channel changes. Marking the channel healthy afterwards resets all of it.
\<close>

theorem failures_escalate:
  assumes "abs_channels db k = Some r" "r_consecutive_failures r = 0" "db_ok db"
    and "Qs \<noteq> []" "list_all (\<lambda>Q. q_pool Q = None) Qs" "length Qs < 2 ^ 31" "q_pool Q = None"
  defines "db' \<equiv> fold (\<lambda>Q d. fst (sqlite_record_channel_failure Q d k)) Qs db"
  shows "\<exists>r'. abs_channels db' = (abs_channels db)(k \<mapsto> r') \<and> r_consecutive_failures r' = int (length Qs) \<and>
    r_health_status r' = (if 3 \<le> length Qs then ''Cooldown'' else ''Degraded'') \<and>
    r_cooldown_until r' = (if 3 \<le> length Qs then Some (q_cooldown_end (last Qs)) else None) \<and>
    (\<exists>r''. abs_channels (fst (sqlite_mark_channel_healthy Q db' k)) = (abs_channels db)(k \<mapsto> r'') \<and>
       r_health_status r'' = ''Healthy'' \<and> r_cooldown_until r'' = None \<and> r_consecutive_failures r'' = 0)"
proof -
  have *: "\<exists>r'. abs_channels (fold (\<lambda>Q d. fst (sqlite_record_channel_failure Q d k)) Qs db) = (abs_channels db)(k \<mapsto> r') \<and>
      r_consecutive_failures r' = int (length Qs) \<and> db_ok (fold (\<lambda>Q d. fst (sqlite_record_channel_failure Q d k)) Qs db) \<and>
      (Qs \<noteq> [] \<longrightarrow> r_health_status r' = (if 3 \<le> length Qs then ''Cooldown'' else ''Degraded'') \<and>
        r_cooldown_until r' = (if 3 \<le> length Qs then Some (q_cooldown_end (last Qs)) else None))"
    using assms(5,6)
  proof (induction Qs rule: rev_induct)
    case Nil
    with assms(1-3) show ?case by (intro exI [of _ r]) (auto simp: fun_eq_iff)
  next
    case (snoc Q Qs)
    let ?d = "fold (\<lambda>Q d. fst (sqlite_record_channel_failure Q d k)) Qs db"
    have "list_all (\<lambda>Q. q_pool Q = None) Qs" "length Qs < 2 ^ 31" using snoc.prems by auto
    with snoc.IH obtain r' where r': "abs_channels ?d = (abs_channels db)(k \<mapsto> r')"
      "r_consecutive_failures r' = int (length Qs)" "db_ok ?d" by blast
    have "abs_channels (fst (sqlite_record_channel_failure Q ?d k)) = (abs_channels ?d)(k \<mapsto> failed_row Q r')"
      by (rule record_failure_step) (use snoc.prems r' in simp_all)
    with r' show ?case
      by (intro exI [of _ "failed_row Q r'"])
        (auto simp: failed_row_def Let_def failure_status_def record_channel_failure_ok)
  qed
  then obtain r' where r': "abs_channels db' = (abs_channels db)(k \<mapsto> r')" "r_consecutive_failures r' = int (length Qs)"
    "r_health_status r' = (if 3 \<le> length Qs then ''Cooldown'' else ''Degraded'')"
    "r_cooldown_until r' = (if 3 \<le> length Qs then Some (q_cooldown_end (last Qs)) else None)" "db_ok db'"
    using assms(4) unfolding db'_def by blast
  have "distinct (map r_id (t_channels db'))" using db_okD(1) [OF r'(5)] by (simp add: channels_ok_def)
  then have "abs_channels (fst (sqlite_mark_channel_healthy Q db' k)) =
      abs_modify k (\<lambda>r. r\<lparr>r_health_status := health_status_str HsHealthy, r_cooldown_until := None,
        r_consecutive_failures := 0, r_updated_at := q_now_unix Q\<rparr>) (abs_channels db')"
    unfolding sqlite_mark_channel_healthy_def by (intro abs_update_channel_row(1) assms(7)) simp_all
  with r' show ?thesis by (intro exI [of _ r']) (auto simp: abs_modify_def)
qed

theorem failures_escalate_witness:
  "\<exists>r. abs_channels (fold (\<lambda>Q d. fst (sqlite_record_channel_failure Q d ''c''))
      [sample_sqlite_env, sample_sqlite_env, sample_sqlite_env] sample_store) ''c'' = Some r \<and>
     r_health_status r = ''Cooldown'' \<and> r_cooldown_until r = Some (q_cooldown_end sample_sqlite_env)"
proof -
  have "abs_channels sample_store ''c'' = Some (new_channel_row sample_sqlite_env sample_stored_channel)"
    by (simp add: sample_store_def abs_channels_def sqlite_upsert_channel_def with_conn_upd_def sample_sqlite_env_def
        empty_db_def sql_upsert_def sample_stored_channel_def new_channel_row_def)
  from failures_escalate [OF this _ sample_store_ok(1),
      of "[sample_sqlite_env, sample_sqlite_env, sample_sqlite_env]" sample_sqlite_env]
  show ?thesis by (auto simp: sample_store_ok(2) new_channel_row_def)
qed

section \<open>Aggregates\<close>

lemma sint_of_int_range: "- (2 ^ 63) \<le> i \<Longrightarrow> i < 2 ^ 63 \<Longrightarrow> sint (of_int i :: i64) = i"
  by (simp add: signed_of_int signed_take_bit_int_eq_self)

lemma sum_i64_exact: "sum_i64 acc xs = Some s \<Longrightarrow> - (2 ^ 63) \<le> acc \<Longrightarrow> acc < 2 ^ 63 \<Longrightarrow>
  sint s = acc + sum_list (map sint xs)"
proof (induction xs arbitrary: acc)
  case Nil
  then have "sint (of_int acc :: i64) = acc" by (intro sint_of_int_range)
  with Nil show ?case by simp
next
  case (Cons x xs)
  then show ?case by (auto simp: Let_def split: if_splits)
qed

lemma mset_groups_of:
  "distinct ks \<Longrightarrow> mset (concat (map (\<lambda>k. filter (\<lambda>r. f r = k) rows) ks)) = filter_mset (\<lambda>r. f r \<in> set ks) (mset rows)"
proof (induction ks)
  case (Cons k ks)
  then have "{#r \<in># mset rows. f r = k#} + {#r \<in># mset rows. f r \<in> set ks#} = {#r \<in># mset rows. f r \<in> set (k # ks)#}"
    by (auto simp: multiset_eq_iff)
  with Cons show ?case by simp
qed simp

text \<open>Every row is in exactly one group.\<close>

lemma mset_groups: "mset (concat (groups g rows)) = mset rows"
proof -
  have "{#r \<in># mset rows. group_clause g r \<in> set (remdups (map (group_clause g) rows))#} = mset rows"
    by (simp add: filter_id_conv flip: mset_filter)
  then show ?thesis unfolding groups_def by (subst mset_groups_of) simp_all
qed

lemma sum_list_concat_map: "sum_list (map h (concat xss)) = sum_list (map (\<lambda>xs. sum_list (map h xs)) xss)"
  by (induction xss) auto

lemma sum_groups: "sum_list (map (\<lambda>xs. sum_list (map h xs)) (groups g rows)) = sum_list (map (h :: _ \<Rightarrow> int) rows)"
proof -
  have "sum_list (map h (concat (groups g rows))) = sum_list (map h rows)"
    using mset_groups [of g rows] by (metis mset_map sum_mset_sum_list)
  then show ?thesis by (simp add: sum_list_concat_map)
qed

lemma mset_sort_by_cost: "mset (sort_by_cost as) = mset as"
proof -
  have "mset (insert_by_cost a bs) = add_mset a (mset bs)" for a bs by (induction bs) auto
  then show ?thesis by (induction as) (auto simp: sort_by_cost_def)
qed

definition aggregated_rows :: "sqlite_env \<Rightarrow> sqlite_db \<Rightarrow> time_range \<Rightarrow> cost_record list" where
  "aggregated_rows Q db tr =
     filter (\<lambda>r. in_range Q tr r \<and> is_none_or (\<lambda>p. cr_project r = p) (tr_project tr)) (t_costs db)"

lemma aggregate_costs_groups:
  assumes "sqlite_aggregate_costs Q db g tr = Inr as"
  shows "\<exists>as'. mset as = mset as' \<and>
    list_all2 (\<lambda>rows a. aggregate_group Q g rows = Inr a) (groups g (aggregated_rows Q db tr)) as'"
proof -
  obtain as' where "collect_rows (aggregate_group Q g) (groups g (aggregated_rows Q db tr)) = Inr as'" "as = sort_by_cost as'"
    using assms by (auto simp: sqlite_aggregate_costs_def with_conn_Inr Let_def res_bind_Inr_iff aggregated_rows_def)
  then show ?thesis using collect_rows_Inr mset_sort_by_cost by metis
qed

lemma aggregate_group_sums:
  assumes "aggregate_group Q g rows = Inr a"
  shows "sint (ca_total_input_tokens a) = sum_list (map (\<lambda>r. sint (cr_input_tokens r)) rows)"
    "sint (ca_total_output_tokens a) = sum_list (map (\<lambda>r. sint (cr_output_tokens r)) rows)"
    "sint (ca_total_compression_tokens_saved a) = sum_list (map (\<lambda>r. sint (cr_compression_tokens_saved r)) rows)"
    "ca_request_count a = of_nat (length rows)"
  using assms sum_i64_exact [of 0]
  by (auto simp: aggregate_group_def Let_def comp_def split: option.splits if_splits)

lemma sum_of_groups:
  assumes "list_all2 (\<lambda>rows a. R rows a) gs as'" "mset as = mset as'" "\<And>rows a. rows \<in> set gs \<Longrightarrow> R rows a \<Longrightarrow> f a = sum_list (map h rows)"
  shows "sum_list (map (f :: _ \<Rightarrow> int) as) = sum_list (map (\<lambda>rows. sum_list (map h rows)) gs)"
proof -
  have "sum_list (map f as) = sum_list (map f as')" using assms(2) by (metis mset_map sum_mset_sum_list)
  also have "\<dots> = sum_list (map (\<lambda>rows. sum_list (map h rows)) gs)"
    using assms(1,3) by (induction rule: list_all2_induct) auto
  finally show ?thesis .
qed

lemma sample_aggregated:
  "aggregated_rows sample_range_env sample_costs_db \<lparr>tr_start = 0, tr_end = 1, tr_project = None\<rparr> =
     [sample_cost ''1'' ''2026-01-05'', sample_cost ''2'' ''2026-02-05'']"
  by (simp add: aggregated_rows_def sample_costs_db_def empty_db_def sample_range_env_def sample_cost_def in_range_def)

lemma aggregate_costs_eq:
  "sqlite_aggregate_costs Q db g tr =
     with_conn Q (res_bind (collect_rows (aggregate_group Q g) (groups g (aggregated_rows Q db tr))) (\<lambda>as. Inr (sort_by_cost as)))"
  by (simp add: sqlite_aggregate_costs_def aggregated_rows_def)

lemma sample_aggregate:
  assumes "g = ByProject \<or> g = ByProjectModelMonth"
  shows "\<exists>as. sqlite_aggregate_costs sample_range_env sample_costs_db g
    \<lparr>tr_start = 0, tr_end = 1, tr_project = None\<rparr> = Inr as"
  unfolding aggregate_costs_eq sample_aggregated using assms
  by (auto simp: groups_def aggregate_group_def sample_cost_def with_conn_def
      sample_range_env_def sample_sqlite_env_def Let_def)

text \<open>
  C25. A cost report loses nothing and counts nothing twice: whatever the grouping, the input tokens, the
  output tokens, the saved tokens and the request counts of the reported groups add up, as integers,
  to those of the records in the time range (and of the project, when one is given).
\<close>

theorem aggregates_conserve_totals:
  assumes "sqlite_aggregate_costs Q db g tr = Inr as" "length (t_costs db) < 2 ^ 63"
  shows "sum_list (map (\<lambda>a. sint (ca_total_input_tokens a)) as) =
      sum_list (map (\<lambda>r. sint (cr_input_tokens r)) (aggregated_rows Q db tr)) \<and>
    sum_list (map (\<lambda>a. sint (ca_total_output_tokens a)) as) =
      sum_list (map (\<lambda>r. sint (cr_output_tokens r)) (aggregated_rows Q db tr)) \<and>
    sum_list (map (\<lambda>a. sint (ca_total_compression_tokens_saved a)) as) =
      sum_list (map (\<lambda>r. sint (cr_compression_tokens_saved r)) (aggregated_rows Q db tr)) \<and>
    sum_list (map (\<lambda>a. sint (ca_request_count a)) as) = int (length (aggregated_rows Q db tr))"
proof -
  let ?rows = "aggregated_rows Q db tr"
  obtain as' where as': "mset as = mset as'"
    "list_all2 (\<lambda>rows a. aggregate_group Q g rows = Inr a) (groups g ?rows) as'"
    using aggregate_costs_groups [OF assms(1)] by blast
  have sums: "sum_list (map f as) = sum_list (map h ?rows)"
    if "\<And>rows a. rows \<in> set (groups g ?rows) \<Longrightarrow> aggregate_group Q g rows = Inr a \<Longrightarrow> f a = sum_list (map h rows)"
    for f :: "cost_aggregate \<Rightarrow> int" and h
    using sum_of_groups [OF as'(2,1) that] by (simp add: sum_groups)
  have "sum_list (map (\<lambda>a. sint (ca_request_count a)) as) = sum_list (map (\<lambda>r. 1) ?rows)"
  proof (rule sums)
    fix rows a
    assume rows: "rows \<in> set (groups g ?rows)" and a: "aggregate_group Q g rows = Inr a"
    have "length rows \<le> length (t_costs db)" using rows
      by (auto simp: groups_def aggregated_rows_def intro: order.trans [OF length_filter_le length_filter_le])
    then have "sint (of_nat (length rows) :: i64) = int (length rows)"
      using assms(2) using sint_of_int_range [of "int (length rows)"] by simp
    with aggregate_group_sums(4) [OF a] show "sint (ca_request_count a) = sum_list (map (\<lambda>r. 1) rows)"
      by (simp add: sum_list_triv)
  qed
  then show ?thesis
    using sums [OF aggregate_group_sums(1)] sums [OF aggregate_group_sums(2)] sums [OF aggregate_group_sums(3)]
    by (simp add: sum_list_triv)
qed

theorem aggregates_conserve_totals_witness:
  "\<exists>as. sqlite_aggregate_costs sample_range_env sample_costs_db ByProject \<lparr>tr_start = 0, tr_end = 1, tr_project = None\<rparr>
      = Inr as \<and> sum_list (map (\<lambda>a. sint (ca_total_input_tokens a)) as) = 20"
proof -
  let ?tr = "\<lparr>tr_start = 0, tr_end = 1, tr_project = None\<rparr> :: time_range"
  obtain as where as: "sqlite_aggregate_costs sample_range_env sample_costs_db ByProject ?tr = Inr as"
    using sample_aggregate by blast
  have "length (t_costs sample_costs_db) < 2 ^ 63" by (simp add: sample_costs_db_def)
  from aggregates_conserve_totals [OF as this] as show ?thesis by (simp add: sample_aggregated sample_cost_def)
qed

text \<open>
  A monthly report is not by month: grouped by project, model and month, the report has one line for
  each project and model in the whole time range, so records of different months are added up under the
  label of one of them. The same holds for the hourly variant.
\<close>

theorem month_report_merges_months:
  assumes "sqlite_aggregate_costs Q db g tr = Inr as" "g \<in> {ByProjectModelMonth, ByProjectModelHour}"
  shows "length as = card ((\<lambda>r. (cr_project r, cr_upstream_model r)) ` set (aggregated_rows Q db tr))"
proof -
  let ?rows = "aggregated_rows Q db tr"
  obtain as' where "mset as = mset as'"
    "list_all2 (\<lambda>rows a. aggregate_group Q g rows = Inr a) (groups g ?rows) as'"
    using aggregate_costs_groups [OF assms(1)] by blast
  then have "length as = length (groups g ?rows)" by (metis list_all2_lengthD mset_eq_length)
  also have "\<dots> = card (group_clause g ` set ?rows)" by (simp add: groups_def length_remdups_card_conv)
  also have "group_clause g ` set ?rows = (\<lambda>(p, m). [p, m]) ` (\<lambda>r. (cr_project r, cr_upstream_model r)) ` set ?rows"
    using assms(2) by (auto simp: image_image)
  also have "card \<dots> = card ((\<lambda>r. (cr_project r, cr_upstream_model r)) ` set ?rows)"
    by (rule card_image) (auto simp: inj_on_def)
  finally show ?thesis .
qed

theorem month_report_merges_months_witness:
  "\<exists>a. sqlite_aggregate_costs sample_range_env sample_costs_db ByProjectModelMonth
      \<lparr>tr_start = 0, tr_end = 1, tr_project = None\<rparr> = Inr [a]"
proof -
  let ?tr = "\<lparr>tr_start = 0, tr_end = 1, tr_project = None\<rparr> :: time_range"
  obtain as where as: "sqlite_aggregate_costs sample_range_env sample_costs_db ByProjectModelMonth ?tr = Inr as"
    using sample_aggregate by blast
  have "length as = 1"
    using month_report_merges_months [OF as] by (simp add: sample_aggregated sample_cost_def)
  with as show ?thesis by (cases as) auto
qed

end
