(* ===== verification/Seed_Props.thy ===== *)
theory Seed_Props
  imports Storage_Props
begin

text \<open>
  What the seed data does to a database that is in use: it is applied once, a refresh applies verified
  files only and records a version only when all of its files are in, and the settings a user made stay.
\<close>

text \<open>A manifest with one file of one provider.\<close>

definition sample_manifest :: seed_manifest where
  "sample_manifest =
     \<lparr>sf_version = 1, sf_min_schema_version = 1, sf_updated_at = ''now'',
      sf_entries = [(''providers'', \<lparr>se_file = ''p.json'', se_sha256 = ''p''\<rparr>)]\<rparr>"

definition sample_seed_env :: seed_env where
  "sample_seed_env =
     \<lparr>sd_conn = sample_sqlite_env, sd_second_conn = None,
      sd_files = \<lparr>ef_providers = ''p'', ef_models = [], ef_channels = [], ef_model_mappings = [], ef_manifest = []\<rparr>,
      sd_env_url = None, sd_client_error = None,
      sd_get = (\<lambda>_. Inr \<lparr>sr_status = 200, sr_text = Inr ''p''\<rparr>), sd_status_text = (\<lambda>_. ''status''),
      sd_sha256 = id, sd_now_rfc3339 = ''now'',
      parse_seed_providers = (\<lambda>_. Inr [\<lparr>sp_id = ''x'', sp_name = ''X'', sp_created_at = 0\<rparr>]),
      parse_seed_models = (\<lambda>_. Inr []), parse_seed_channels = (\<lambda>_. Inr []), parse_seed_mappings = (\<lambda>_. Inr []),
      parse_seed_manifest = (\<lambda>_. Inr sample_manifest)\<rparr>"

section \<open>Metadata\<close>

lemma get_set_metadata: "get_metadata (set_metadata Q k v db) k' = (if k' = k then Some v else get_metadata db k')"
  by (auto simp: get_metadata_def set_metadata_def row_at_append row_at_filter_key split: option.split)

lemma local_version_set_version [simp]:
  "get_local_version_inner (set_metadata Q ''version'' (show_nat (unat v)) db) = v"
  by (simp add: get_local_version_inner_def get_set_metadata)

lemma local_version_set_other:
  "k \<noteq> ''version'' \<Longrightarrow> get_local_version_inner (set_metadata Q k v db) = get_local_version_inner db"
  by (simp add: get_local_version_inner_def get_set_metadata)

lemma sha256_key: "name @ '':sha256'' \<noteq> ''version''" "name @ '':sha256'' \<noteq> ''last_error''"
  "name @ '':sha256'' \<noteq> ''source''" "name @ '':sha256'' \<noteq> ''remote_url''" "name @ '':sha256'' \<noteq> ''last_refresh_at''"
proof -
  have l: "last (name @ '':sha256'') = CHR ''6''" by simp
  show "name @ '':sha256'' \<noteq> ''version''" "name @ '':sha256'' \<noteq> ''last_error''"
    "name @ '':sha256'' \<noteq> ''source''" "name @ '':sha256'' \<noteq> ''remote_url''" "name @ '':sha256'' \<noteq> ''last_refresh_at''"
    using l by (auto dest!: arg_cong [where f = last])
qed

text \<open>The statements on the tables leave the metadata alone.\<close>

lemma run_statements_metadata:
  assumes "\<And>x db. t_seed_metadata (fst (f x db)) = t_seed_metadata db"
  shows "t_seed_metadata (fst (run_statements f xs db)) = t_seed_metadata db"
  by (rule run_statements_keeps [where P = "\<lambda>d. t_seed_metadata d = t_seed_metadata db"]) (simp_all add: assms)

lemma upsert_entry_metadata: "t_seed_metadata (fst (upsert_entry V name json db)) = t_seed_metadata db"
proof -
  have "t_seed_metadata (fst (run_statements (insert_seed_provider (sd_conn V)) xs db)) = t_seed_metadata db" for xs
    by (rule run_statements_metadata) (simp add: insert_seed_provider_def)
  moreover have "t_seed_metadata (fst (run_statements (insert_seed_model (sd_conn V)) xs db)) = t_seed_metadata db" for xs
    by (rule run_statements_metadata) (simp add: insert_seed_model_def)
  moreover have "t_seed_metadata (fst (run_statements (upsert_seed_channel (sd_conn V)) xs db)) = t_seed_metadata db" for xs
    by (rule run_statements_metadata) (simp add: upsert_seed_channel_def)
  moreover have "t_seed_metadata (fst (run_statements (upsert_seed_mapping (sd_conn V)) xs db)) = t_seed_metadata db" for xs
    by (rule run_statements_metadata) (simp add: upsert_seed_mapping_def)
  ultimately show ?thesis by (simp add: upsert_entry_def Let_def split: sum.split)
qed

lemma upsert_entry_get_metadata: "get_metadata (fst (upsert_entry V name json db)) k = get_metadata db k"
  by (simp add: get_metadata_def upsert_entry_metadata)

section \<open>The refresh loop\<close>

text \<open>Hashes are recorded under the name of their entry only, and the version is not touched.\<close>

lemma fetch_and_apply_get_metadata:
  "get_metadata (fst (fetch_and_apply_entry V url name e db)) k =
     (case snd (fetch_and_apply_entry V url name e db) of
        Inr _ \<Rightarrow> if k = name @ '':sha256'' then Some (se_sha256 e) else get_metadata db k
      | Inl _ \<Rightarrow> get_metadata db k)"
  using upsert_entry_get_metadata
  by (auto simp: fetch_and_apply_entry_def get_set_metadata case_prod_unfold split: sum.split)

lemma refresh_entries_other:
  "k \<notin> (\<lambda>x. fst x @ '':sha256'') ` set es \<Longrightarrow>
     get_metadata (fst (refresh_entries V url es db errors)) k = get_metadata db k"
proof (induction es arbitrary: db errors)
  case (Cons x es)
  obtain name e where x: "x = (name, e)" by (cases x)
  then have "k \<noteq> name @ '':sha256''" using Cons.prems by auto
  then have "get_metadata (fst (fetch_and_apply_entry V url name e db)) k = get_metadata db k"
    by (simp add: fetch_and_apply_get_metadata split: sum.split)
  with Cons show ?case by (simp add: x case_prod_unfold split: sum.split)
qed simp

lemma refresh_entries_errors: "prefix errors (snd (refresh_entries V url es db errors))"
proof (induction es arbitrary: db errors)
  case (Cons x es)
  obtain name e where x: "x = (name, e)" by (cases x)
  obtain db' r where "fetch_and_apply_entry V url name e db = (db', r)" by fastforce
  with Cons Cons [THEN append_prefixD] show ?case by (simp add: x split: sum.split)
qed simp

text \<open>A loop without errors leaves every entry's hash in the metadata.\<close>

lemma refresh_entries_complete:
  "snd (refresh_entries V url es db errors) = [] \<Longrightarrow> distinct (map fst es) \<Longrightarrow> (n, e) \<in> set es \<Longrightarrow>
     get_metadata (fst (refresh_entries V url es db errors)) (n @ '':sha256'') = Some (se_sha256 e)"
proof (induction es arbitrary: db errors)
  case (Cons x es)
  obtain name e' where x: "x = (name, e')" by (cases x)
  obtain db' r where f: "fetch_and_apply_entry V url name e' db = (db', r)" by fastforce
  define d where "d = (if get_metadata db (name @ '':sha256'') = Some (se_sha256 e') then db else db')"
  have step: "refresh_entries V url (x # es) db errors = refresh_entries V url es d errors"
    and here: "get_metadata d (name @ '':sha256'') = Some (se_sha256 e')"
  proof -
    have "r = Inr ()" if "get_metadata db (name @ '':sha256'') \<noteq> Some (se_sha256 e')"
    proof (cases r)
      case (Inl a)
      then show ?thesis
        using Cons.prems(1) that f refresh_entries_errors [of "errors @ [name @ '': '' @ storage_error_display a]" V url es db']
        by (simp add: x)
    qed simp
    then show "refresh_entries V url (x # es) db errors = refresh_entries V url es d errors"
      "get_metadata d (name @ '':sha256'') = Some (se_sha256 e')"
      using f fetch_and_apply_get_metadata [of V url name e' db "name @ '':sha256''"] by (auto simp: x d_def)
  qed
  show ?case
  proof (cases "(n, e) \<in> set es")
    case True
    with Cons step show ?thesis by simp
  next
    case False
    with Cons.prems x have n: "n = name" "e = e'" by auto
    with Cons.prems(2) x have "n @ '':sha256'' \<notin> (\<lambda>x. fst x @ '':sha256'') ` set es" by (auto simp: rev_image_eqI)
    from refresh_entries_other [OF this] show ?thesis using here n by (simp add: step)
  qed
qed simp

section \<open>Settings of the user\<close>

definition user_settings ::
  "channel_row \<Rightarrow> string \<times> bool \<times> string option \<times> string \<times> string option \<times> int \<times> i64" where
  "user_settings r =
     (r_api_key r, r_enabled r, r_force_protocol r, r_health_status r, r_cooldown_until r,
      r_consecutive_failures r, r_created_at r)"

text \<open>Every channel is still there with its settings, and the user's own tables are the same.\<close>

definition keeps_settings :: "sqlite_db \<Rightarrow> sqlite_db \<Rightarrow> bool" where
  "keeps_settings db db' \<longleftrightarrow>
     (\<forall>k r. abs_channels db k = Some r \<longrightarrow> (\<exists>r'. abs_channels db' k = Some r' \<and> user_settings r' = user_settings r)) \<and>
     t_aliases db' = t_aliases db \<and> t_costs db' = t_costs db \<and> t_switch_logs db' = t_switch_logs db \<and>
     t_fees db' = t_fees db"

lemma keeps_settings_refl: "keeps_settings db db"
  by (simp add: keeps_settings_def)

lemma keeps_settings_trans: "keeps_settings a b \<Longrightarrow> keeps_settings b c \<Longrightarrow> keeps_settings a c"
  by (fastforce simp: keeps_settings_def)

lemma keeps_settings_same_channels:
  "t_channels db' = t_channels db \<Longrightarrow> t_aliases db' = t_aliases db \<Longrightarrow> t_costs db' = t_costs db \<Longrightarrow>
     t_switch_logs db' = t_switch_logs db \<Longrightarrow> t_fees db' = t_fees db \<Longrightarrow> keeps_settings db db'"
  by (simp add: keeps_settings_def abs_channels_def)

lemma set_metadata_keeps: "keeps_settings db (set_metadata Q k v db)"
  by (rule keeps_settings_same_channels) (simp_all add: set_metadata_def)

lemma upsert_seed_channel_keeps: "keeps_settings db (fst (upsert_seed_channel Q c db))"
proof -
  let ?new = "seed_channel_row Q c"
  have "row_at r_id k (sql_upsert r_id merge_seed_channel ?new (t_channels db)) =
      (if k = r_id ?new then Some (case row_at r_id k (t_channels db) of None \<Rightarrow> ?new | Some r \<Rightarrow> merge_seed_channel r ?new)
       else row_at r_id k (t_channels db))" for k
    by (rule row_at_upsert) (simp add: merge_seed_channel_def)
  moreover have "user_settings (merge_seed_channel r ?new) = user_settings r" for r
    by (simp add: user_settings_def merge_seed_channel_def)
  ultimately show ?thesis
    by (simp add: upsert_seed_channel_def keeps_settings_def abs_channels_def)
qed

interpretation seeding_settings: seed_statements V "keeps_settings db0" for V db0
proof
  fix db k v p m c mm
  assume db: "keeps_settings db0 db"
  note keeps = keeps_settings_trans [OF db]
  show "keeps_settings db0 (set_metadata (sd_conn V) k v db)" by (rule keeps [OF set_metadata_keeps])
  show "keeps_settings db0 (fst (upsert_seed_channel (sd_conn V) c db))" by (rule keeps [OF upsert_seed_channel_keeps])
  show "keeps_settings db0 (fst (insert_seed_provider (sd_conn V) p db))"
    "keeps_settings db0 (fst (insert_seed_model (sd_conn V) m db))"
    "keeps_settings db0 (fst (upsert_seed_mapping (sd_conn V) mm db))"
    by (rule keeps, simp add: insert_seed_provider_def insert_seed_model_def upsert_seed_mapping_def
        keeps_settings_same_channels)+
qed

text \<open>
  C4. Seeding keeps a user's key, flag and forced protocol: whatever the seed files contain and whether or not
  the operation succeeds, after the first seeding and after every refresh each channel that was there is
  there, with the same key, the same enabled flag, the same forced protocol and the same health; aliases,
  cost records, switch logs and fees are unchanged. The other columns of a channel the files name (its
  name, protocols, priority, quota) and the mappings, with their flags, are overwritten.
\<close>

theorem seeding_keeps_user_settings:
  "keeps_settings db (fst (seed_refresh V url db)) \<and> keeps_settings db (fst (seed_init V db))"
  using seeding_settings.keeps_refresh [OF keeps_settings_refl] seeding_settings.keeps_init [OF keeps_settings_refl]
  by blast

section \<open>Verified data\<close>

definition seed_tables :: "sqlite_db \<Rightarrow> provider_row list \<times> model_row list \<times> channel_row list \<times> model_mapping list" where
  "seed_tables db = (t_providers db, t_models db, t_channels db, t_mappings db)"

lemma set_metadata_tables [simp]: "seed_tables (set_metadata Q k v db) = seed_tables db"
  by (simp add: seed_tables_def set_metadata_def)

text \<open>The file of an entry, downloaded and with the hash the manifest states.\<close>

definition verified_body :: "seed_env \<Rightarrow> string \<Rightarrow> seed_manifest_entry \<Rightarrow> string \<Rightarrow> bool" where
  "verified_body V base_url e body \<longleftrightarrow>
     sd_client_error V = None \<and>
     (\<exists>s. sd_get V (base_url @ ''/'' @ se_file e) = Inr \<lparr>sr_status = s, sr_text = Inr body\<rparr> \<and> http_success s) \<and>
     sd_sha256 V body = se_sha256 e"

lemma map_parse_error_Inr [simp]: "map_parse_error w r = Inr x \<longleftrightarrow> r = Inr x"
  by (cases r) (simp_all add: map_parse_error_def)

lemma http_client_Inr [simp]: "http_client V = Inr u \<longleftrightarrow> sd_client_error V = None"
  by (simp add: http_client_def split: option.split)

lemma fetch_entry_verified: "fetch_entry V base_url name e = Inr body \<longleftrightarrow> verified_body V base_url e body"
proof
  assume "fetch_entry V base_url name e = Inr body"
  then obtain resp where "sd_client_error V = None" "sd_get V (base_url @ ''/'' @ se_file e) = Inr resp"
    "http_success (sr_status resp)" "sr_text resp = Inr body" "sd_sha256 V body = se_sha256 e"
    by (auto simp: fetch_entry_def res_bind_Inr_iff Let_def split: if_splits)
  then show "verified_body V base_url e body"
    unfolding verified_body_def by (cases resp) auto
next
  assume "verified_body V base_url e body"
  then show "fetch_entry V base_url name e = Inr body"
    by (auto simp: verified_body_def fetch_entry_def http_client_def map_parse_error_def Let_def)
qed

lemma fetch_and_apply_tables:
  "seed_tables (fst (fetch_and_apply_entry V url name e db)) \<noteq> seed_tables db \<Longrightarrow> \<exists>body. verified_body V url e body"
proof (rule ccontr)
  assume "seed_tables (fst (fetch_and_apply_entry V url name e db)) \<noteq> seed_tables db" "\<nexists>body. verified_body V url e body"
  then show False
    using fetch_entry_verified [of V url name e]
    by (cases "fetch_entry V url name e") (auto simp: fetch_and_apply_entry_def)
qed

lemma refresh_entries_tables:
  "seed_tables (fst (refresh_entries V url es db errors)) \<noteq> seed_tables db \<Longrightarrow>
     \<exists>n e body. (n, e) \<in> set es \<and> verified_body V url e body"
proof (induction es arbitrary: db errors)
  case (Cons x es)
  obtain name e where x: "x = (name, e)" by (cases x)
  obtain db' r where f: "fetch_and_apply_entry V url name e db = (db', r)" by fastforce
  show ?case
  proof (rule ccontr)
    assume no: "\<not> ?case"
    then have "seed_tables db' = seed_tables db" using fetch_and_apply_tables [of V url name e db] f x by auto
    moreover have "seed_tables (fst (refresh_entries V url es d er)) = seed_tables d" for d er
      using Cons.IH no x by fastforce
    ultimately have "seed_tables (fst (refresh_entries V url (x # es) db errors)) = seed_tables db"
      by (cases r) (simp_all add: x f)
    with Cons.prems show False by simp
  qed
qed simp

text \<open>Without a manifest a refresh changes nothing.\<close>

lemma seed_refresh_unreachable:
  "(\<nexists>base m. resolve_seed_url V url = Inr base \<and> fetch_manifest V base = Inr m) \<Longrightarrow> fst (seed_refresh V url db) = db"
proof (cases "resolve_seed_url V url")
  case (Inr base)
  assume "\<nexists>base m. resolve_seed_url V url = Inr base \<and> fetch_manifest V base = Inr m"
  with Inr obtain e where "fetch_manifest V base = Inl e" by (cases "fetch_manifest V base") auto
  with Inr show ?thesis by (simp add: seed_refresh_def)
qed (simp add: seed_refresh_def)

lemma seed_refresh_eq:
  assumes "resolve_seed_url V url = Inr base" "fetch_manifest V base = Inr m" "q_pool (sd_conn V) = None"
    and "get_local_version_inner db < sf_version m"
  shows "seed_refresh V url db =
    (let x = refresh_entries V base (sf_entries m) db []; db' = finish_refresh V base m (fst x) (snd x)
     in (db', Inr (build_status db' (Some m))))"
  using assms by (simp add: seed_refresh_def with_conn_upd_def case_prod_unfold Let_def not_le)

lemma finish_refresh_tables: "seed_tables (finish_refresh V url m db errors) = seed_tables db"
  by (simp add: finish_refresh_def Let_def)

lemma sample_refresh:
  "resolve_seed_url sample_seed_env (Some ''u'') = Inr ''u''" "fetch_manifest sample_seed_env ''u'' = Inr sample_manifest"
  "q_pool (sd_conn sample_seed_env) = None" "get_local_version_inner empty_db = 0"
  by (simp_all add: resolve_seed_url_def fetch_manifest_def http_client_def sample_seed_env_def trim_end_char_def
      map_parse_error_def sample_sqlite_env_def get_local_version_inner_def get_metadata_def empty_db_def Let_def)

lemma sample_loop:
  "snd (refresh_entries sample_seed_env ''u'' (sf_entries sample_manifest) empty_db []) = []"
  "t_providers (fst (refresh_entries sample_seed_env ''u'' (sf_entries sample_manifest) empty_db [])) \<noteq> []"
  by (simp_all add: sample_manifest_def sample_seed_env_def get_metadata_def empty_db_def fetch_and_apply_entry_def
      fetch_entry_def http_client_def map_parse_error_def upsert_entry_def insert_seed_provider_def set_metadata_def Let_def)

lemma sample_refreshed:
  "sf_version sample_manifest = 1"
  "fst (seed_refresh sample_seed_env (Some ''u'') empty_db) =
     finish_refresh sample_seed_env ''u'' sample_manifest
       (fst (refresh_entries sample_seed_env ''u'' (sf_entries sample_manifest) empty_db [])) []"
proof -
  show v: "sf_version sample_manifest = 1" by (simp add: sample_manifest_def)
  show "fst (seed_refresh sample_seed_env (Some ''u'') empty_db) =
     finish_refresh sample_seed_env ''u'' sample_manifest
       (fst (refresh_entries sample_seed_env ''u'' (sf_entries sample_manifest) empty_db [])) []"
    using seed_refresh_eq [OF sample_refresh(1-3), of empty_db] sample_loop(1) v by (simp add: sample_refresh(4) Let_def)
qed

text \<open>
  C9. A refresh changes the tables only after a verified download: when providers, models, channels or mappings
  differ after a refresh, the manifest that was fetched has a newer version than the database, and one
  of its entries names a file whose download has the SHA-256 the manifest states for it.
\<close>

theorem refresh_applies_verified_files:
  assumes "seed_tables (fst (seed_refresh V url db)) \<noteq> seed_tables db"
  shows "\<exists>base m n e body. resolve_seed_url V url = Inr base \<and> fetch_manifest V base = Inr m \<and>
    get_local_version_inner db < sf_version m \<and> (n, e) \<in> set (sf_entries m) \<and> verified_body V base e body"
proof -
  obtain base m where r: "resolve_seed_url V url = Inr base" and m: "fetch_manifest V base = Inr m"
    using assms seed_refresh_unreachable [of V url db] by fastforce
  have eq: "fst (seed_refresh V url db) =
      (if q_pool (sd_conn V) \<noteq> None \<or> sf_version m \<le> get_local_version_inner db then db
       else let x = refresh_entries V base (sf_entries m) db [] in finish_refresh V base m (fst x) (snd x))"
    by (simp add: seed_refresh_def r m fst_with_conn_upd case_prod_unfold Let_def)
  with assms have "get_local_version_inner db < sf_version m"
    "seed_tables (fst (refresh_entries V base (sf_entries m) db [])) \<noteq> seed_tables db"
    by (auto simp: Let_def finish_refresh_tables not_le split: if_splits)
  with refresh_entries_tables r m show ?thesis by blast
qed

theorem refresh_applies_verified_files_witness:
  "\<exists>base (m :: seed_manifest) n e. seed_tables (fst (seed_refresh sample_seed_env (Some ''u'') empty_db)) \<noteq> seed_tables empty_db \<and>
     (n, e) \<in> set (sf_entries m) \<and> verified_body sample_seed_env base e ''p''"
proof -
  have "seed_tables (fst (seed_refresh sample_seed_env (Some ''u'') empty_db)) \<noteq> seed_tables empty_db"
    unfolding sample_refreshed(2) finish_refresh_tables using sample_loop(2)
    by (simp add: seed_tables_def empty_db_def)
  moreover from refresh_applies_verified_files [OF this] obtain base and m :: seed_manifest and n e body where
    "(n, e) \<in> set (sf_entries m)" "verified_body sample_seed_env base e body" by blast
  moreover from this(2) have "body = ''p''" by (auto simp: verified_body_def sample_seed_env_def)
  ultimately show ?thesis by blast
qed

lemma finish_refresh_metadata:
  "get_metadata (finish_refresh V url m db errors) (n @ '':sha256'') = get_metadata db (n @ '':sha256'')"
  by (simp add: finish_refresh_def Let_def get_set_metadata sha256_key)

lemma finish_refresh_version:
  "get_local_version_inner (finish_refresh V url m db errors) =
     (if errors = [] then sf_version m else get_local_version_inner db)"
  by (simp add: finish_refresh_def Let_def local_version_set_other)

lemma refresh_entries_version: "get_local_version_inner (fst (refresh_entries V url es db errors)) = get_local_version_inner db"
proof -
  have "''version'' \<notin> (\<lambda>x. fst x @ '':sha256'') ` set es"
  proof
    assume "''version'' \<in> (\<lambda>x. fst x @ '':sha256'') ` set es"
    then obtain x where "fst x @ '':sha256'' = ''version''" by fastforce
    with sha256_key(1) [of "fst x"] show False by contradiction
  qed
  from refresh_entries_other [OF this] show ?thesis by (simp add: get_local_version_inner_def)
qed

lemma join_empty: "list_all (\<lambda>x. x \<noteq> []) xs \<Longrightarrow> join sep xs = [] \<longleftrightarrow> xs = []"
  by (cases "(sep, xs)" rule: join.cases) auto

lemma refresh_errors_nonempty:
  "list_all (\<lambda>x. x \<noteq> []) errors \<Longrightarrow> list_all (\<lambda>x. x \<noteq> []) (snd (refresh_entries V url es db errors))"
proof (induction es arbitrary: db errors)
  case (Cons x es)
  obtain name e where x: "x = (name, e)" by (cases x)
  obtain db' r where "fetch_and_apply_entry V url name e db = (db', r)" by fastforce
  with Cons show ?case by (simp add: x split: sum.split)
qed simp

text \<open>
  C24. A version is recorded only with all of its files: a refresh towards a newer manifest either ends with
  the manifest's version, and then the hash recorded for every entry is the manifest's, or it keeps the
  old version and reports an error, so that the next refresh tries again. A refresh towards the version
  the database has, or an older one, changes nothing.
\<close>

theorem refresh_version_means_complete:
  assumes "resolve_seed_url V url = Inr base" "fetch_manifest V base = Inr m" "q_pool (sd_conn V) = None"
    and "distinct (map fst (sf_entries m))"
  shows "case seed_refresh V url db of (db', r) \<Rightarrow>
    if sf_version m \<le> get_local_version_inner db then db' = db
    else if get_local_version_inner db' = sf_version m
    then (\<forall>(n, e) \<in> set (sf_entries m). get_metadata db' (n @ '':sha256'') = Some (se_sha256 e))
    else get_local_version_inner db' = get_local_version_inner db \<and>
      (\<exists>st. r = Inr st \<and> st_last_error st \<noteq> None)"
proof (cases "sf_version m \<le> get_local_version_inner db")
  case True
  with assms show ?thesis by (simp add: seed_refresh_def with_conn_upd_def)
next
  case False
  define x where "x = refresh_entries V base (sf_entries m) db []"
  define db' where "db' = finish_refresh V base m (fst x) (snd x)"
  have eq: "seed_refresh V url db = (db', Inr (build_status db' (Some m)))"
    using seed_refresh_eq [OF assms(1-3)] False by (simp add: not_le x_def db'_def Let_def)
  have v: "get_local_version_inner db' = (if snd x = [] then sf_version m else get_local_version_inner db)"
    by (simp add: db'_def finish_refresh_version x_def refresh_entries_version)
  show ?thesis
  proof (cases "snd x = []")
    case True
    then have "get_metadata db' (n @ '':sha256'') = Some (se_sha256 e)" if "(n, e) \<in> set (sf_entries m)" for n e
      using refresh_entries_complete [OF _ assms(4) that, of V base db "[]"]
      by (simp add: db'_def finish_refresh_metadata x_def)
    with True v False show ?thesis by (auto simp: eq)
  next
    case errs: False
    have "join ''; '' (snd x) \<noteq> []"
      using errs refresh_errors_nonempty [of "[]" V base "sf_entries m" db] join_empty [of "snd x" "''; ''"]
      by (simp add: x_def)
    with errs have "st_last_error (build_status db' (Some m)) \<noteq> None"
      by (simp add: build_status_def db'_def finish_refresh_def get_set_metadata Let_def)
    with v errs False show ?thesis by (auto simp: eq)
  qed
qed

theorem refresh_version_means_complete_witness:
  "get_metadata (fst (seed_refresh sample_seed_env (Some ''u'') empty_db)) ''providers:sha256'' = Some ''p''"
proof -
  have "get_local_version_inner (fst (seed_refresh sample_seed_env (Some ''u'') empty_db)) = 1"
    by (simp add: sample_refreshed finish_refresh_version)
  then show ?thesis
    using refresh_version_means_complete [OF sample_refresh(1-3), of empty_db]
    by (simp add: sample_refresh(4) sample_refreshed(1) case_prod_unfold) (simp add: sample_manifest_def)
qed

text \<open>
  The embedded data is applied once: after a first start that succeeded (the embedded manifest has a
  positive version), the database has the version of the manifest, the reported status says so, and
  seeding again, in whatever environment, leaves the database as it is.
\<close>

theorem seeded_once:
  assumes "seed_init V db = (db', Inr st)" "get_local_version_inner db = 0"
    and "parse_seed_manifest V (ef_manifest (sd_files V)) = Inr m" "0 < sf_version m"
  shows "get_local_version_inner db' = sf_version m \<and> st_local_version st = sf_version m \<and>
    fst (seed_init V' db') = db'"
proof -
  obtain d where "db' = set_metadata (sd_conn V) ''version'' (show_nat (unat (sf_version m))) d"
    "st = build_status db' None"
    using assms(1-3)
    by (auto simp: seed_init_def with_conn_upd_Inr Let_def map_parse_error_def seed_status_op_def
        split: prod.splits sum.splits option.splits)
  then have v: "get_local_version_inner db' = sf_version m" and st: "st = build_status db' None" by simp_all
  from v assms(4) have "fst (seed_init V' db') = db'"
    by (simp add: seed_init_def fst_with_conn_upd)
  with v st show ?thesis by (simp add: build_status_def Let_def)
qed

theorem seeded_once_witness:
  "\<exists>db' st. seed_init sample_seed_env empty_db = (db', Inr st) \<and> get_local_version_inner db' = 1 \<and>
     fst (seed_init sample_seed_env db') = db'"
proof -
  have "\<exists>st. snd (seed_init sample_seed_env empty_db) = Inr st"
    by (simp add: seed_init_def with_conn_upd_def sample_refresh(3,4) Let_def)
      (simp add: apply_all_entries_def upsert_file_def upsert_entry_def sample_seed_env_def map_parse_error_def
        insert_seed_provider_def empty_db_def seed_status_op_def Let_def)
  then obtain db' st where "seed_init sample_seed_env empty_db = (db', Inr st)" by (metis prod.collapse)
  moreover from seeded_once [OF this sample_refresh(4), of sample_manifest sample_seed_env]
  have "get_local_version_inner db' = 1 \<and> fst (seed_init sample_seed_env db') = db'"
    by (simp add: sample_seed_env_def sample_manifest_def)
  ultimately show ?thesis by blast
qed

end
