(* ===== verification/Startup.thy ===== *)
theory Startup
  imports Deployment Channel_Store Seed_Props
begin

text \<open>
  The start of the process, \<open>main\<close> of \<open>apps/server/src/main.rs\<close>: where the database is, opening, migrating
  and seeding it, loading the router, the admin key, building the proxy and taking the port. The
  properties say when a start succeeds, which files it touches, and that a later start changes nothing.
\<close>

section \<open>What a start reads\<close>

text \<open>
  An optional text is the error of a step, \<open>None\<close> its success. Each step that uses the database takes a
  connection of its own. \<open>su_create_parent p\<close> is the outcome of creating the directory that the path \<open>p\<close> lies in.
\<close>

record startup_env =
  su_args :: "string list"
  su_env :: "string \<Rightarrow> string option"
  su_home :: "string option"
  su_default_buffer :: "string option"
  su_memory_buffer :: "string option"
  su_create_parent :: "string \<Rightarrow> string option"
  su_pool :: "string option"
  su_pragma_conn :: "string option"
  su_pragmas :: "string option"
  su_migrate :: sqlite_env
  su_seed :: seed_env
  su_load :: sqlite_env
  su_aliases :: sqlite_env
  su_random :: "u8 list"
  su_client :: "string option"
  su_bind :: "string option"

datatype start_error =
    BufferFailed string
  | DirectoryFailed string
  | StorageFailed storage_error
  | ProxyFailed proxy_error
  | BindFailed string
  | StartPanic

section \<open>Steps\<close>

text \<open>The argument after the first \<open>--db-path\<close>.\<close>

fun db_path_arg :: "string list \<Rightarrow> string option" where
  "db_path_arg [] = None"
| "db_path_arg (a # as) =
     (if a = ''--db-path'' then (case as of [] \<Rightarrow> None | p # _ \<Rightarrow> Some p) else db_path_arg as)"

definition parse_db_path :: "startup_env \<Rightarrow> string" where
  "parse_db_path S =
     (case db_path_arg (su_args S) of
        Some p \<Rightarrow> p
      | None \<Rightarrow>
          (case su_env S ''AGENT_PROXY_DB_PATH'' of
             Some p \<Rightarrow> p
           | None \<Rightarrow>
               path_join (path_join (path_join (unwrap_or ''.'' (su_home S)) ''.tokenfleet-ai'') ''token-fleet-switch'')
                 ''agent-proxy.db''))"

definition init_exception_buffer :: "startup_env \<Rightarrow> string + unit" where
  "init_exception_buffer S =
     (case su_default_buffer S of
        None \<Rightarrow> Inr ()
      | Some _ \<Rightarrow> (case su_memory_buffer S of None \<Rightarrow> Inr () | Some e \<Rightarrow> Inl e))"

definition sqlite_open :: "startup_env \<Rightarrow> storage_error + unit" where
  "sqlite_open S =
     (case su_pool S of
        Some e \<Rightarrow> Inl (Connection (''failed to create pool: '' @ e))
      | None \<Rightarrow>
          (case su_pragma_conn S of
             Some e \<Rightarrow> Inl (Connection e)
           | None \<Rightarrow>
               (case su_pragmas S of
                  Some e \<Rightarrow> Inl (Connection (''failed to set pragmas: '' @ e)) | None \<Rightarrow> Inr ())))"

text \<open>\<open>client\<close> is the outcome of building the HTTP client; a new router counts its requests from 1.\<close>

definition build_reqwest_client :: "string option \<Rightarrow> proxy_error + unit" where
  "build_reqwest_client client = (case client of Some e \<Rightarrow> Inl (Internal e) | None \<Rightarrow> Inr ())"

definition into_router ::
  "string option \<Rightarrow> ('t, 'w) proxy_state \<Rightarrow> 'w \<Rightarrow> proxy_error + ('t, 'w) proxy_state \<times> 'w world" where
  "into_router client st s = res_bind (build_reqwest_client client) (\<lambda>_. Inr (st, world_new s))"

text \<open>
  The other way to start a proxy, which \<open>main\<close> does not use: it binds the listener itself. Before that it runs
  \<open>on_init\<close> of every middleware; none of the repository overrides its default, which succeeds.
\<close>

definition serve ::
  "string option \<Rightarrow> string option \<Rightarrow> ('t, 'w) proxy_state \<Rightarrow> 'w \<Rightarrow> proxy_error + ('t, 'w) proxy_state \<times> 'w world" where
  "serve client bind st s =
     res_bind (build_reqwest_client client) (\<lambda>_.
       case bind of Some e \<Rightarrow> Inl (Internal e) | None \<Rightarrow> Inr (st, world_new s))"

record running =
  rn_proxy :: "(reading, sqlite_db proxy_world) proxy_state"
  rn_world :: "sqlite_db proxy_world world"
  rn_admin_key :: string
  rn_exceptions :: "string list"

text \<open>The first eight characters of a generated key are logged; a shorter key is a panic.\<close>

definition start_server ::
  "('st, sqlite_db) deployment \<Rightarrow> router_parsers \<Rightarrow> startup_env \<Rightarrow> string list \<Rightarrow> sqlite_db \<Rightarrow> start_error + running" where
  "start_server D P S collected db =
     res_bind (map_sum ProxyFailed id (deployed_world (sqlite_storage (su_load S)) (sqlite_storage (su_aliases S)) P db)) (\<lambda>s.
       let k = resolve_admin_key_with (su_env S) (su_random S) in
       if generated k \<and> slice_to 8 (admin_key_value k) = None then Inl StartPanic
       else
         res_bind (map_sum ProxyFailed id
             (res_bind (deployed_proxy D (su_env S)) (\<lambda>st. into_router (su_client S) st s))) (\<lambda>(st, w).
           case su_bind S of
             Some e \<Rightarrow> Inl (BindFailed e)
           | None \<Rightarrow>
               Inr \<lparr>rn_proxy = st, rn_world = w, rn_admin_key = admin_key_value k, rn_exceptions = collected\<rparr>))"

text \<open>
  \<open>disk\<close> are the databases by path, an empty one where there is no file. A failure to seed the database is
  only collected.
\<close>

definition collect_seed_error :: "storage_error + seed_status \<Rightarrow> string list" where
  "collect_seed_error r =
     (case r of Inl e \<Rightarrow> [''seed_init failed: '' @ storage_error_display e] | Inr _ \<Rightarrow> [])"

definition start_up ::
  "('st, sqlite_db) deployment \<Rightarrow> router_parsers \<Rightarrow> startup_env \<Rightarrow> (string \<Rightarrow> sqlite_db) \<Rightarrow>
     (string \<Rightarrow> sqlite_db) \<times> (start_error + running)" where
  "start_up D P S disk =
     (case init_exception_buffer S of
        Inl e \<Rightarrow> (disk, Inl (BufferFailed e))
      | Inr _ \<Rightarrow>
          let db_path = parse_db_path S in
          case su_create_parent S db_path of
            Some e \<Rightarrow> (disk, Inl (DirectoryFailed e))
          | None \<Rightarrow>
              (case sqlite_open S of
                 Inl e \<Rightarrow> (disk, Inl (StorageFailed e))
               | Inr _ \<Rightarrow>
                   (case sqlite_migrate (su_migrate S) (disk db_path) of
                      (db1, Inl e) \<Rightarrow> (disk(db_path := db1), Inl (StorageFailed e))
                    | (db1, Inr _) \<Rightarrow>
                        let (db2, seeded) = seed_init (su_seed S) db1
                        in (disk(db_path := db2), start_server D P S (collect_seed_error seeded) db2))))"

section \<open>Loading\<close>

lemma resolve_channels_total:
  assumes "\<And>k. \<exists>ms. list_mappings S db k = Inr ms"
  shows "\<exists>cs. resolve_channels S P db chs = Inr cs"
proof (induction chs)
  case (Cons ch chs)
  have "\<exists>r. resolve_channel S P db ch = Inr r"
    using assms [of "ch_id ch"] by (auto simp: resolve_channel_def Let_def)
  with Cons show ?case by auto
qed simp

text \<open>A database with readable counters loads on a working connection.\<close>

lemma sqlite_loads:
  assumes "q_pool Q = None" "db_ok db" "counters_ok db"
  shows "\<exists>r. router_from_storage (sqlite_storage Q) P db = Inr r"
proof -
  have rows: "list_all channel_row_ok (t_channels db)" "list_all (\<lambda>r. r_consecutive_failures r < 2 ^ 32) (t_channels db)"
    using db_okD(1) [OF assms(2)] assms(3) by (simp_all add: channels_ok_def counters_ok_def)
  have "\<exists>x. row_to_channel Q r = Inr x" if "r \<in> set (order_by2 r_priority r_id (t_channels db))" for r
    using rows that
    by (cases "r_monthly_quota r") (auto simp: list_all_iff channel_row_ok_def row_to_channel_def Let_def)
  then have "row_to_channel Q r = Inr (projr (row_to_channel Q r))"
    if "r \<in> set (order_by2 r_priority r_id (t_channels db))" for r using that by fastforce
  then have rows: "collect_rows (row_to_channel Q) (order_by2 r_priority r_id (t_channels db)) =
      Inr (map (\<lambda>r. projr (row_to_channel Q r)) (order_by2 r_priority r_id (t_channels db)))"
    by (rule collect_rows_total)
  obtain chs where "list_channels (sqlite_storage Q) db None = Inr chs"
    using assms(1) rows by (simp add: sqlite_storage_def sqlite_list_channels_def with_conn_def)
  moreover have "\<exists>cs. resolve_channels (sqlite_storage Q) P db chs = Inr cs"
    by (rule resolve_channels_total) (simp add: sqlite_storage_def sqlite_list_mappings_def with_conn_def assms(1))
  ultimately show ?thesis by (auto simp: router_from_storage_def load_channels_def)
qed

section \<open>The pieces of a start\<close>

lemma hex_digit_ascii: "n < 16 \<Longrightarrow> (of_char (hex_digit n) :: nat) < 128"
  by (simp add: hex_digit_def)

lemma hex2_ascii: "c \<in> set (hex2 b) \<Longrightarrow> (of_char c :: nat) < 128"
proof -
  have "unat b < 2 ^ LENGTH(8)" by (rule unsigned_less)
  then show "c \<in> set (hex2 b) \<Longrightarrow> (of_char c :: nat) < 128" by (auto simp: hex2_def hex_digit_ascii)
qed

lemma generated_key_slices:
  assumes "length random = 32"
  shows "slice_to 8 (concat (map hex2 random)) \<noteq> None"
proof -
  have "length (concat (map hex2 random)) = 64" using assms by (simp add: length_generated)
  then have "concat (map hex2 random) ! 8 \<in> set (concat (map hex2 random))" by (intro nth_mem) simp
  then have "(of_char (concat (map hex2 random) ! 8) :: nat) < 128" using hex2_ascii by auto
  with \<open>length (concat (map hex2 random)) = 64\<close> show ?thesis
    by (simp add: slice_to_def is_char_boundary_def cont_byte_def del: set_concat)
qed

lemma resolved_key_slices:
  "length random = 32 \<Longrightarrow> generated (resolve_admin_key_with env random) \<Longrightarrow>
     slice_to 8 (admin_key_value (resolve_admin_key_with env random)) \<noteq> None"
  using generated_key_slices by (auto simp: resolve_admin_key_with_def Let_def split: option.splits if_splits)

text \<open>The state and the proxy of a server that started.\<close>

lemma start_server_Inr:
  assumes "start_server D P S cs db = Inr R"
  obtains s where "deployed_world (sqlite_storage (su_load S)) (sqlite_storage (su_aliases S)) P db = Inr s"
    "rn_world R = world_new s" "rn_proxy R = deployed_state D (su_env S)" "rn_exceptions R = cs"
    "rn_admin_key R = admin_key_value (resolve_admin_key_with (su_env S) (su_random S))"
proof -
  obtain s where "deployed_world (sqlite_storage (su_load S)) (sqlite_storage (su_aliases S)) P db = Inr s"
    using assms by (cases "deployed_world (sqlite_storage (su_load S)) (sqlite_storage (su_aliases S)) P db")
      (auto simp: start_server_def)
  with assms that show thesis
    by (auto simp: start_server_def deployed_proxy_eq into_router_def build_reqwest_client_def Let_def
        split: if_splits option.splits)
qed

lemma start_up_Inr:
  assumes "start_up D P S disk = (disk', Inr R)"
  obtains db1 db2 seeded where "sqlite_migrate (su_migrate S) (disk (parse_db_path S)) = (db1, Inr ())"
    "seed_init (su_seed S) db1 = (db2, seeded)" "disk' = disk(parse_db_path S := db2)"
    "start_server D P S (collect_seed_error seeded) db2 = Inr R"
  using assms that
  by (auto simp: start_up_def Let_def split: sum.splits option.splits prod.splits)

text \<open>A database that is migrated and seeded stays as it is.\<close>

lemma migrate_again: "user_version db = 2 \<Longrightarrow> fst (sqlite_migrate Q db) = db"
  by (cases "q_pool Q") (simp_all add: sqlite_migrate_def with_conn_upd_def Let_def)

lemma migrate_counters: "counters_ok db \<Longrightarrow> counters_ok (fst (sqlite_migrate Q db))"
proof -
  assume db: "counters_ok db"
  have v1: "counters_ok (migration_v1 Q db)"
    using db by (simp add: migration_v1_def seed_row_if_absent_def counters_ok_def)
  have v2: "counters_ok (migration_v2 Q d)" if "counters_ok d" for d
    unfolding migration_v2_def
    by (rule fold_keeps [where P = counters_ok, OF that])
      (simp add: insert_alias_if_absent_def put_alias_def counters_ok_def split: option.split)
  have "counters_ok (d\<lparr>user_version := v\<rparr>)" if "counters_ok d" for d v using that by (simp add: counters_ok_def)
  with v1 v2 db show ?thesis
    unfolding sqlite_migrate_def by (intro with_conn_upd_keeps [where P = counters_ok]) (simp_all add: Let_def)
qed

lemma migrate_version: "sqlite_migrate Q db = (db', Inr ()) \<Longrightarrow> user_version db' = 2"
  by (auto simp: sqlite_migrate_def with_conn_upd_Inr Let_def)

lemma seed_again: "0 < get_local_version_inner db \<Longrightarrow> fst (seed_init V db) = db"
  by (simp add: seed_init_def fst_with_conn_upd)

interpretation seeding_version: seed_statements V "\<lambda>db. user_version db = v" for V v
  by unfold_locales
    (simp_all add: set_metadata_def insert_seed_provider_def insert_seed_model_def upsert_seed_channel_def
      upsert_seed_mapping_def)

lemma seeded_version:
  assumes "seed_init V db = (db', Inr st)"
    and "\<And>m. parse_seed_manifest V (ef_manifest (sd_files V)) = Inr m \<Longrightarrow> 0 < sf_version m"
  shows "0 < get_local_version_inner db'"
  using assms
  by (cases "0 < get_local_version_inner db")
    (auto simp: seed_init_def with_conn_upd_Inr Let_def map_parse_error_def split: prod.splits sum.splits)

lemma start_up_settled:
  assumes "user_version (disk (parse_db_path S)) = 2" "0 < get_local_version_inner (disk (parse_db_path S))"
  shows "fst (start_up D P S disk) = disk"
proof -
  have "fst (sqlite_migrate (su_migrate S) (disk (parse_db_path S))) = disk (parse_db_path S)"
    by (rule migrate_again [OF assms(1)])
  then obtain r where "sqlite_migrate (su_migrate S) (disk (parse_db_path S)) = (disk (parse_db_path S), r)"
    by (metis prod.collapse)
  then show ?thesis
    using seed_again [OF assms(2), of "su_seed S"]
    by (auto simp: start_up_def Let_def case_prod_unfold split: sum.split option.split)
qed

section \<open>A sample start\<close>

text \<open>Nothing outside the database fails.\<close>

definition startable :: "startup_env \<Rightarrow> bool" where
  "startable S \<longleftrightarrow>
     (su_default_buffer S = None \<or> su_memory_buffer S = None) \<and> su_create_parent S (parse_db_path S) = None \<and>
     su_pool S = None \<and> su_pragma_conn S = None \<and> su_pragmas S = None \<and> q_pool (su_migrate S) = None \<and>
     q_pool (su_load S) = None \<and> su_client S = None \<and> su_bind S = None"

definition sample_startup :: startup_env where
  "sample_startup =
     \<lparr>su_args = [''agent-proxy'', ''--db-path''], su_env = Map.empty, su_home = Some ''/home/u'',
      su_default_buffer = Some ''read-only'', su_memory_buffer = None, su_create_parent = Map.empty, su_pool = None,
      su_pragma_conn = None, su_pragmas = None, su_migrate = sample_sqlite_env, su_seed = sample_seed_env,
      su_load = sample_sqlite_env, su_aliases = sample_sqlite_env, su_random = replicate 32 7, su_client = None,
      su_bind = None\<rparr>"

lemma sample_db_path: "parse_db_path sample_startup = ''/home/u/.tokenfleet-ai/token-fleet-switch/agent-proxy.db''"
  by (simp add: parse_db_path_def sample_startup_def path_join_def starts_with_def)

lemma sample_fresh_seed: "\<exists>st. snd (seed_init sample_seed_env db) = Inr st"
proof (cases "0 < get_local_version_inner db")
  case True
  then show ?thesis by (simp add: seed_init_def with_conn_upd_def sample_seed_env_def sample_sqlite_env_def seed_status_op_def)
next
  case False
  then show ?thesis
    by (simp add: seed_init_def with_conn_upd_def sample_refresh(3) Let_def)
      (simp add: apply_all_entries_def upsert_file_def upsert_entry_def sample_seed_env_def map_parse_error_def
        insert_seed_provider_def seed_status_op_def Let_def)
qed

lemma sample_startable: "startable sample_startup" "length (su_random sample_startup) = 32"
  "q_foreign_keys (sd_conn (su_seed sample_startup))" "counters_ok empty_db"
  by (simp_all add: startable_def sample_startup_def sample_seed_env_def sample_sqlite_env_def counters_ok_def empty_db_def)

section \<open>Properties\<close>

lemma start_up_total:
  assumes "startable S" "length (su_random S) = 32" "q_foreign_keys (sd_conn (su_seed S))"
    and "db_ok (disk (parse_db_path S))" "counters_ok (disk (parse_db_path S))"
  shows "\<exists>db R. start_up D P S disk = (disk(parse_db_path S := db), Inr R) \<and> db_ok db \<and>
    rn_proxy R = deployed_state D (su_env S) \<and> w_next_request_id (rn_world R) = 1 \<and> w_sent (rn_world R) = [] \<and>
    ds_db (w_state (rn_world R)) = db \<and>
    router_from_storage (sqlite_storage (su_load S)) P db = Inr (ds_router (w_state (rn_world R))) \<and>
    length (rn_exceptions R) \<le> 1"
proof -
  obtain db1 where db1: "sqlite_migrate (su_migrate S) (disk (parse_db_path S)) = (db1, Inr ())"
    using assms(1) by (simp add: startable_def sqlite_migrate_def with_conn_upd_def Let_def)
  then have ok1: "db_ok db1" "counters_ok db1"
    using migrate_ok [OF assms(4), of "su_migrate S"] migrate_counters [OF assms(5), of "su_migrate S"] by simp_all
  obtain db2 seeded where db2: "seed_init (su_seed S) db1 = (db2, seeded)" by fastforce
  then have ok2: "db_ok db2" "counters_ok db2"
    using seed_init_ok [OF assms(3) ok1(1)] seeding_counters.keeps_init [OF ok1(2), of "su_seed S"] by simp_all
  obtain r where r: "router_from_storage (sqlite_storage (su_load S)) P db2 = Inr r"
    using sqlite_loads [OF _ ok2] assms(1) by (auto simp: startable_def)
  have "\<exists>R. start_server D P S (collect_seed_error seeded) db2 = Inr R"
    using assms(1) r resolved_key_slices [OF assms(2), of "su_env S"]
    by (auto simp: start_server_def deployed_world_def deployed_proxy_eq into_router_def build_reqwest_client_def
        startable_def Let_def)
  then obtain R where R: "start_server D P S (collect_seed_error seeded) db2 = Inr R" by blast
  have "start_up D P S disk = (disk(parse_db_path S := db2), Inr R)"
    using assms(1) db1 db2 R
    by (auto simp: start_up_def startable_def init_exception_buffer_def sqlite_open_def split: option.split)
  moreover have "length (collect_seed_error seeded) \<le> 1" by (simp add: collect_seed_error_def split: sum.split)
  ultimately show ?thesis
    using R r ok2(1)
    by (elim start_server_Inr) (auto simp: deployed_world_def world_new_def)
qed

text \<open>
  C18. The process starts. If the files, the connections, the HTTP client and the port are available, then a
  start on any database that satisfies the integrity conditions and has readable failure counters ends
  with a running server, whatever the seed data does: its failure is collected as at most one message.
  The server has the deployed chain and a request counter at 1; its router holds what the database of the
  start loads to; the database keeps its integrity; and no other file is touched.
\<close>

theorem start_succeeds:
  assumes "startable S" "length (su_random S) = 32" "q_foreign_keys (sd_conn (su_seed S))"
    and "db_ok (disk (parse_db_path S))" "counters_ok (disk (parse_db_path S))"
  shows "\<exists>db R. start_up D P S disk = (disk(parse_db_path S := db), Inr R) \<and> db_ok db \<and>
    rn_proxy R = deployed_state D (su_env S) \<and> w_next_request_id (rn_world R) = 1 \<and> w_sent (rn_world R) = [] \<and>
    ds_db (w_state (rn_world R)) = db \<and>
    router_from_storage (sqlite_storage (su_load S)) P db = Inr (ds_router (w_state (rn_world R))) \<and>
    length (rn_exceptions R) \<le> 1"
  using assms by (rule start_up_total)

theorem start_succeeds_witness:
  "\<exists>db R. start_up sample_deployment sample_parsers sample_startup (\<lambda>_. empty_db) =
      ((\<lambda>_. empty_db)(parse_db_path sample_startup := db), Inr R) \<and> db_ok db"
proof -
  show ?thesis
    using start_succeeds [of sample_startup "\<lambda>_. empty_db" sample_deployment sample_parsers] sample_startable db_ok_empty
    by blast
qed

text \<open>
  C22. A start settles the database. After a start that seeded it (no message was collected, and the embedded
  manifest has a positive version), every later start on the same path, with whatever surroundings and
  whether it succeeds or not, leaves every database as it is.
\<close>

theorem restart_changes_nothing:
  assumes "start_up D P S disk = (disk', Inr R)" "rn_exceptions R = []" "parse_db_path S' = parse_db_path S"
    and "\<And>m. parse_seed_manifest (su_seed S) (ef_manifest (sd_files (su_seed S))) = Inr m \<Longrightarrow> 0 < sf_version m"
  shows "fst (start_up D' P' S' disk') = disk'"
  using assms(1)
proof (cases rule: start_up_Inr)
  case (1 db1 db2 seeded)
  have "rn_exceptions R = collect_seed_error seeded" using 1(4) by (elim start_server_Inr) simp
  then obtain st where st: "seed_init (su_seed S) db1 = (db2, Inr st)"
    using assms(2) 1(2) by (auto simp: collect_seed_error_def split: sum.splits)
  have "user_version db2 = 2"
    using seeding_version.keeps_init [OF migrate_version [OF 1(1)], of "su_seed S"] st by simp
  moreover have "0 < get_local_version_inner db2" by (rule seeded_version [OF st assms(4)])
  ultimately show ?thesis using assms(3) by (intro start_up_settled) (simp_all add: 1(3))
qed

theorem restart_changes_nothing_witness:
  "\<exists>disk' R. start_up sample_deployment sample_parsers sample_startup (\<lambda>_. empty_db) = (disk', Inr R) \<and>
     fst (start_up sample_deployment sample_parsers (sample_startup\<lparr>su_bind := Some ''in use''\<rparr>) disk') = disk'"
proof -
  obtain disk' R where s: "start_up sample_deployment sample_parsers sample_startup (\<lambda>_. empty_db) = (disk', Inr R)"
    using start_up_total [of sample_startup "\<lambda>_. empty_db" sample_deployment sample_parsers] sample_startable db_ok_empty
    by blast
  have "rn_exceptions R = []"
    using s
  proof (cases rule: start_up_Inr)
    case (1 db1 db2 seeded)
    then have "\<exists>st. seeded = Inr st" using sample_fresh_seed [of db1] by (simp add: sample_startup_def)
    with 1(4) show ?thesis by (elim start_server_Inr) (auto simp: collect_seed_error_def)
  qed
  moreover have "0 < sf_version m"
    if "parse_seed_manifest (su_seed sample_startup) (ef_manifest (sd_files (su_seed sample_startup))) = Inr m" for m
    using that by (auto simp: sample_startup_def sample_seed_env_def sample_manifest_def)
  moreover have "parse_db_path (sample_startup\<lparr>su_bind := Some ''in use''\<rparr>) = parse_db_path sample_startup"
    by (simp add: parse_db_path_def split: option.split)
  ultimately show ?thesis using s restart_changes_nothing [OF s] by blast
qed

end
