(* ===== verification/Proxy_System.thy ===== *)
theory Proxy_System
  imports Admin Calls Startup
begin

text \<open>
  The invariant of the running system, \<open>system_ok\<close>: the database is sound and the router's tables are well
  formed. Every hook of the deployed chain, the cost recorder, every admin handler and the start of the
  process keep it.
\<close>

section \<open>The invariant\<close>

definition system_ok :: "sqlite_db proxy_world \<Rightarrow> bool" where
  "system_ok s \<longleftrightarrow>
     db_ok (ds_db s) \<and> router_wf (ds_router s) \<and> distinct (map rc_channel_id (channels (ds_router s)))"

lemma system_okD:
  "system_ok s \<Longrightarrow> db_ok (ds_db s)" "system_ok s \<Longrightarrow> router_wf (ds_router s)"
  "system_ok s \<Longrightarrow> distinct (map rc_channel_id (channels (ds_router s)))"
  by (simp_all add: system_ok_def)

lemma router_on_request_channels: "channels (fst (router_on_request E st req ctx)) = channels st"
  using router_on_request_view [of E st req ctx] by (simp add: same_view_def)

interpretation system_served: served_keeps "deployed_state (D\<lparr>dp_storage := sqlite_storage Q\<rparr>) env" system_ok
  for D :: "('st, sqlite_db) deployment" and Q env
proof
  fix t mw req res ctx s
  assume "mw \<in> set (ps_middlewares (deployed_state (D\<lparr>dp_storage := sqlite_storage Q\<rparr>) env) t)" "system_ok s"
  then show "system_ok (fst (on_request mw s req ctx))" "system_ok (fst (on_response mw s res ctx))"
    by (auto simp: deployed_state_fields deployed_chain_def system_ok_def router_wf_on_request router_wf_on_response
        router_on_request_channels)
next
  fix s t ctx v
  assume "system_ok s"
  then show "system_ok (record_cost (deployed_state (D\<lparr>dp_storage := sqlite_storage Q\<rparr>) env) t ctx v s)"
    by (simp add: system_ok_def deployed_record_cost sqlite_storage_def insert_cost_record_ok)
qed

section \<open>Admin handlers keep it\<close>

definition sqlite_admin :: "sqlite_db admin_env \<Rightarrow> bool" where
  "sqlite_admin A \<longleftrightarrow>
     (\<exists>Q V. q_foreign_keys Q \<and> q_foreign_keys (sd_conn V) \<and> ad_storage A = sqlite_storage Q \<and>
        ad_seed_refresh A = seed_refresh V)"

definition handler_keeps :: "('w \<Rightarrow> bool) \<Rightarrow> ('w \<Rightarrow> 'w \<times> 'r) \<Rightarrow> bool" where
  "handler_keeps I h \<longleftrightarrow> (\<forall>w. I w \<longrightarrow> I (fst (h w)))"

named_theorems keeps_intros "rules for a condition kept by a handler"

lemma handler_keepsI: "(\<And>w. I w \<Longrightarrow> I (fst (h w))) \<Longrightarrow> handler_keeps I h"
  by (simp add: handler_keeps_def)

lemma handler_keepsD: "handler_keeps I h \<Longrightarrow> I w \<Longrightarrow> I (fst (h w))"
  by (simp add: handler_keeps_def)

lemma keeps_pure [keeps_intros]: "handler_keeps I (\<lambda>w. (w, r w))"
  by (simp add: handler_keeps_def)

lemma keeps_query [keeps_intros]: "handler_keeps I (storage_query q)"
  by (simp add: handler_keeps_def storage_query_def)

lemma keeps_and_then [keeps_intros]:
  assumes "handler_keeps I h" "\<And>x. handler_keeps I (k x)"
  shows "handler_keeps I (and_then h k)"
proof (rule handler_keepsI)
  fix w
  assume "I w"
  then have "I (fst (h w))" by (rule handler_keepsD [OF assms(1)])
  with handler_keepsD [OF assms(2)] show "I (fst (and_then h k w))"
    by (auto simp: and_then_def split: prod.split sum.split)
qed

lemma keeps_or_not_found [keeps_intros]: "handler_keeps I h \<Longrightarrow> handler_keeps I (or_not_found r h)"
  unfolding or_not_found_def by (intro keeps_intros)

lemma keeps_update:
  assumes "\<And>db. db_ok db \<Longrightarrow> db_ok (fst (u db))"
  shows "handler_keeps system_ok (storage_update conv u)"
  by (rule handler_keepsI) (simp add: storage_update_def case_prod_unfold Let_def system_ok_def assms)

lemma keeps_reload [keeps_intros]:
  assumes "sqlite_admin A"
  shows "handler_keeps system_ok (then_reload A x)"
proof (rule handler_keepsI)
  fix w
  assume w: "system_ok w"
  obtain Q where Q: "q_foreign_keys Q" "ad_storage A = sqlite_storage Q" using assms by (auto simp: sqlite_admin_def)
  show "system_ok (fst (then_reload A x w))"
    using w Q sqlite.reload_distinct [of "ds_db w" Q "ds_router w" "ad_parsers A"]
    by (simp add: then_reload_def reload_channels_def system_ok_def router_wf_reload)
qed

lemma system_ok_upd_keys: "system_ok w \<Longrightarrow> system_ok (upd_keys f w)"
  by (simp add: system_ok_def upd_keys_def router_wf_def)

lemma system_ok_note_unhealthy:
  assumes "system_ok w"
  shows "system_ok (note_unhealthy A k w)"
proof -
  let ?h = "health_map (ds_router w)"
  have h: "pred_option health_inv (?h j)" for j using system_okD(2) [OF assms] by (simp add: router_wf_def)
  have "health_inv (unwrap_or channel_state_new (?h k))" using h [of k] by (cases "?h k") (simp_all add: health_inv_new)
  with h have "pred_option health_inv (mark_unhealthy_immediate (ad_now A) k ?h j)" for j
    by (simp add: mark_unhealthy_immediate_def health_inv_ops)
  with assms show ?thesis by (simp add: system_ok_def note_unhealthy_def upd_health_def router_wf_def)
qed

lemma system_ok_ignoring: "system_ok w \<Longrightarrow> (\<And>db. db_ok db \<Longrightarrow> db_ok (fst (u db))) \<Longrightarrow> system_ok (ignoring u w)"
  by (simp add: system_ok_def ignoring_def)

lemma system_ok_note_healthy:
  assumes "sqlite_admin A" "system_ok w"
  shows "system_ok (note_healthy A k w)"
proof -
  have "system_ok (upd_health (\<lambda>h. h(k := None)) w)"
    using assms(2) by (simp add: system_ok_def upd_health_def router_wf_def)
  with assms(1) show ?thesis
    unfolding note_healthy_def
    by (intro system_ok_ignoring) (auto simp: sqlite_admin_def sqlite_storage_def mark_channel_healthy_ok)
qed

lemma keeps_then_note [keeps_intros]:
  "sqlite_admin A \<Longrightarrow> handler_keeps system_ok (\<lambda>w. let p = f w in (if c p then note_healthy A k w else note_unhealthy A k w, g p))"
  "sqlite_admin A \<Longrightarrow> handler_keeps system_ok
     (\<lambda>w. let p = f w in (if c p then note_healthy A k w else if d p then note_unhealthy A k w else w, g p))"
  by (auto simp: handler_keeps_def Let_def system_ok_note_healthy system_ok_note_unhealthy)

lemma keeps_after: "handler_keeps I h \<Longrightarrow> (\<And>w. I w \<Longrightarrow> I (f w)) \<Longrightarrow> handler_keeps I (\<lambda>w. h (f w))"
  by (simp add: handler_keeps_def)

text \<open>The updates of the SQLite backend, as the handlers call them.\<close>

lemma sqlite_admin_updates [keeps_intros]:
  assumes "sqlite_admin A"
  shows "handler_keeps system_ok (storage_update conv (\<lambda>db. update_channel (ad_storage A) db k u))"
    "handler_keeps system_ok (storage_update conv (\<lambda>db. delete_channel (ad_storage A) db k))"
    "handler_keeps system_ok (storage_update conv (\<lambda>db. mark_channel_healthy (ad_storage A) db k))"
    "handler_keeps system_ok (storage_update conv (\<lambda>db. record_channel_failure (ad_storage A) db k))"
    "handler_keeps system_ok (storage_update conv (\<lambda>db. set_channel_api_key (ad_storage A) db k key))"
    "handler_keeps system_ok (storage_update conv (\<lambda>db. upsert_mapping (ad_storage A) db m))"
    "handler_keeps system_ok (storage_update conv (\<lambda>db. delete_mapping (ad_storage A) db k))"
    "handler_keeps system_ok (storage_update conv (\<lambda>db. upsert_model_alias (ad_storage A) db req))"
    "handler_keeps system_ok (storage_update conv (\<lambda>db. delete_model_alias (ad_storage A) db n))"
    "handler_keeps system_ok (storage_update conv (\<lambda>db. prune_cost_records (ad_storage A) db d))"
    "handler_keeps system_ok (storage_update conv (ad_seed_refresh A url))"
  using assms by (auto simp: sqlite_admin_def sqlite_storage_def op_ok intro!: keeps_update)

lemma keeps_validate: "handler_keeps I (validate_force_protocol A k body)"
  by (auto simp: validate_force_protocol_def admin_get_channel_def split: option.split intro!: keeps_intros)

lemma keeps_set_api_key:
  assumes A: "sqlite_admin A"
  shows "handler_keeps system_ok (admin_set_channel_api_key A k key)"
proof -
  have "handler_keeps system_ok (\<lambda>w. (ignoring (\<lambda>db. record_channel_failure (ad_storage A) db k)
      (note_unhealthy A k (upd_keys (\<lambda>m. m(k := None)) w)), r))" for r :: "app_error + probe_response option"
    using A by (auto simp: handler_keeps_def sqlite_admin_def sqlite_storage_def record_channel_failure_ok
        intro!: system_ok_ignoring system_ok_note_unhealthy system_ok_upd_keys)
  moreover have "handler_keeps system_ok (\<lambda>w. and_then (admin_get_channel A k) (\<lambda>c w'.
      let p = run_probe A c w' in (if probe_is_healthy (pb_result p) then note_healthy A k w' else note_unhealthy A k w',
        Inr (Some p))) (upd_keys (\<lambda>m. m(k \<mapsto> key)) w))"
    unfolding admin_get_channel_def
    by (rule keeps_after) (intro keeps_intros A, rule system_ok_upd_keys)
  ultimately show ?thesis
    unfolding admin_set_channel_api_key_def by (intro keeps_intros A) simp
qed

lemma keeps_probe: "sqlite_admin A \<Longrightarrow> handler_keeps system_ok (admin_probe_channel A k)"
  unfolding admin_probe_channel_def admin_get_channel_def by (intro keeps_intros)

lemma keeps_update_mapping: "sqlite_admin A \<Longrightarrow> handler_keeps system_ok (admin_update_model_mapping A k body)"
  unfolding admin_update_model_mapping_def
  by (intro keeps_intros) (auto split: option.split intro!: keeps_intros)

lemma keeps_toggle: "handler_keeps system_ok (admin_compress_toggle b)"
  by (simp add: handler_keeps_def admin_compress_toggle_def system_ok_def)

lemma admin_keeps:
  assumes A: "sqlite_admin A"
  shows "handler_keeps system_ok (admin_update_channel A k body)" "handler_keeps system_ok (admin_delete_channel A k)"
    "handler_keeps system_ok (admin_mark_channel_healthy A k)" "handler_keeps system_ok (admin_record_channel_failure A k)"
    "handler_keeps system_ok (admin_prune_cost_records A d)" "handler_keeps system_ok (admin_create_model_mapping A m)"
    "handler_keeps system_ok (admin_delete_model_mapping A k)" "handler_keeps system_ok (admin_create_model_alias A req)"
    "handler_keeps system_ok (admin_delete_model_alias A n)" "handler_keeps system_ok (admin_seed_refresh A url)"
  unfolding admin_update_channel_def admin_delete_channel_def admin_mark_channel_healthy_def
    admin_record_channel_failure_def admin_prune_cost_records_def admin_create_model_mapping_def
    admin_delete_model_mapping_def admin_create_model_alias_def admin_delete_model_alias_def admin_seed_refresh_def
  by (intro keeps_intros keeps_validate A)+

lemma reading_keeps:
  "handler_keeps I (admin_list_providers A)" "handler_keeps I (admin_get_provider A k)"
  "handler_keeps I (admin_list_models A p)" "handler_keeps I (admin_get_model A k)"
  "handler_keeps I (admin_list_channels A m)" "handler_keeps I (admin_get_channel A k)"
  "handler_keeps I (admin_get_channel_protocols A k)" "handler_keeps I (admin_list_model_mappings A)"
  "handler_keeps I (admin_list_model_aliases A)" "handler_keeps I (admin_list_available_channels A)"
  "handler_keeps I (admin_list_projects A)" "handler_keeps I (admin_query_switch_logs A l)"
  "handler_keeps I (admin_health A)" "handler_keeps I (admin_seed_status A b)" "handler_keeps I admin_compress_status"
  unfolding admin_list_providers_def admin_get_provider_def admin_list_models_def admin_get_model_def
    admin_list_channels_def admin_get_channel_def admin_get_channel_protocols_def admin_list_model_mappings_def
    admin_list_model_aliases_def admin_list_available_channels_def admin_list_projects_def admin_query_switch_logs_def
    admin_health_def admin_seed_status_def admin_compress_status_def Let_def
  by (intro keeps_intros | simp add: keeps_query)+

lemma reply_query_keeps: "I w \<Longrightarrow> I (fst (reply_query w r))"
  by (simp add: reply_query_def)

lemma reply_keeps: "handler_keeps I h \<Longrightarrow> I w \<Longrightarrow> I (fst (reply_status (h w)))"
  by (simp add: handler_keeps_def reply_status_def)

lemma admin_route_keeps: "sqlite_admin A \<Longrightarrow> system_ok w \<Longrightarrow> system_ok (fst (admin_route A rq w))"
  by (cases rq) (simp_all add: reply_keeps reply_query_keeps reading_keeps admin_keeps keeps_set_api_key keeps_probe keeps_update_mapping keeps_toggle)

lemma admin_call_keeps: "sqlite_admin A \<Longrightarrow> system_ok w \<Longrightarrow> system_ok (fst (admin_call A key h rq w))"
  by (cases key) (simp_all add: admin_call_def admin_auth_middleware_def admin_route_keeps Let_def)

section \<open>A started process satisfies it\<close>

lemma system_ok_deployed:
  assumes "db_ok db" "q_foreign_keys Q" "deployed_world (sqlite_storage Q) SA P db = Inr s"
  shows "system_ok s"
proof -
  obtain r where r: "router_from_storage (sqlite_storage Q) P db = Inr r" "ds_db s = db" "ds_router s = r"
    using assms(3) by (auto simp: deployed_world_def res_bind_Inr_iff)
  with assms(1,2) show ?thesis by (simp add: system_ok_def router_wf_from_storage sqlite.from_storage_distinct)
qed

lemma system_ok_started:
  assumes "start_up D P S disk = (disk', Inr R)" "db_ok (disk (parse_db_path S))"
    and "q_foreign_keys (sd_conn (su_seed S))" "q_foreign_keys (su_load S)"
  shows "system_ok (w_state (rn_world R))"
  using assms(1)
proof (cases rule: start_up_Inr)
  case (1 db1 db2 seeded)
  have "db_ok db2"
    using seed_init_ok [OF assms(3), of db1] migrate_ok [OF assms(2), of "su_migrate S"] 1(1,2) by simp
  with 1(4) assms(4) show ?thesis by (elim start_server_Inr) (auto simp: world_new_fields intro: system_ok_deployed)
qed

end
