(* ===== verification/Concurrent.thy ===== *)
theory Concurrent
  imports Proxy_System
begin

text \<open>
  The running process as tasks that interleave. A configuration is the shared state, the proxy calls that
  have arrived, each with the step it has reached, and the reloads of the channel table that admin calls
  have asked for. A run starts with \<open>main\<close> and takes steps in any order; each step finds the connection, the
  clocks and the upstream's answers in any state. A call arrives with the request as the body limit hands it on;
  requests that the limit or the authentication check refuses change nothing and are not steps. The history of a run is the list of its earlier
  configurations with the time of the step taken there, newest first.
\<close>

section \<open>Configurations and steps\<close>

text \<open>
  \<open>reload_channels_from_storage\<close> reads the database across several \<open>await\<close>s and stores its result at the end:
  a reload is first \<open>Asked\<close> for, then \<open>Read\<close>, then \<open>Stored\<close>.
\<close>

datatype reload = Asked | Read "resolved_channel list" | Stored

record config =
  cf_world :: "sqlite_db proxy_world world"
  cf_calls :: "(http_request \<times> call) list"
  cf_reloads :: "reload list"

abbreviation cf_state :: "config \<Rightarrow> sqlite_db proxy_world" where
  "cf_state c \<equiv> w_state (cf_world c)"

abbreviation cf_router :: "config \<Rightarrow> router_state" where
  "cf_router c \<equiv> ds_router (cf_state c)"

text \<open>The proxy over one connection of the pool.\<close>

abbreviation proxy_on :: "('st, sqlite_db) deployment \<Rightarrow> (string \<Rightarrow> string option) \<Rightarrow> sqlite_env \<Rightarrow>
    (reading, sqlite_db proxy_world) proxy_state" where
  "proxy_on D env Q \<equiv> deployed_state (D\<lparr>dp_storage := sqlite_storage Q\<rparr>) env"

definition set_table :: "resolved_channel list \<Rightarrow> 'db proxy_world \<Rightarrow> 'db proxy_world" where
  "set_table chs s = s\<lparr>ds_router := (ds_router s)\<lparr>channels := chs\<rparr>\<rparr>"

text \<open>The admin requests that reload the channel table when they succeed.\<close>

fun reloads :: "admin_request \<Rightarrow> bool" where
  "reloads (PutChannel k body) = True"
| "reloads (DeleteChannel k) = True"
| "reloads (PostModelMapping m) = True"
| "reloads (PutModelMapping k body) = True"
| "reloads (DeleteModelMapping k) = True"
| "reloads rq = False"

text \<open>
  A request that is not admitted by the authentication, and the health route, change nothing and are no
  step. An admin call is one step, except that its reload may come later (\<open>overtaken\<close>): then the call has
  done all its other work, and the table stays until the reload is stored.
\<close>

inductive system_step ::
  "('st, sqlite_db) deployment \<Rightarrow> (string \<Rightarrow> string option) \<Rightarrow> instant \<Rightarrow> config \<Rightarrow> config \<Rightarrow> bool"
  for D :: "('st, sqlite_db) deployment" and env where
  arrived: "auth_middleware (auth_state_from_config (deployed_config env)) id (hr_headers hr) = Inr arole \<Longrightarrow>
    arrive (proxy_on D env Q) E arole hr (cf_world c) = (w, k) \<Longrightarrow>
    system_step D env now c (c\<lparr>cf_world := w, cf_calls := cf_calls c @ [(hr, k)]\<rparr>)"
| advanced: "i < length (cf_calls c) \<Longrightarrow> cf_calls c ! i = (hr, k) \<Longrightarrow>
    advance (proxy_on D env Q) E k (cf_world c) = (w, k') \<Longrightarrow> now = rd_instant (se_request_time E) \<Longrightarrow>
    system_step D env now c (c\<lparr>cf_world := w, cf_calls := (cf_calls c)[i := (hr, k')]\<rparr>)"
| dropped: "i < length (cf_calls c) \<Longrightarrow> cf_calls c ! i = (hr, k) \<Longrightarrow> \<not> finished k \<Longrightarrow>
    system_step D env now c (c\<lparr>cf_calls := (cf_calls c)[i := (hr, Dropped)]\<rparr>)"
| administered: "sqlite_admin A \<Longrightarrow> admin_call A key h rq (cf_state c) = (s, r) \<Longrightarrow>
    system_step D env now c (c\<lparr>cf_world := (cf_world c)\<lparr>w_state := s\<rparr>\<rparr>)"
| overtaken: "sqlite_admin A \<Longrightarrow> reloads rq \<Longrightarrow> admin_call A key h rq (cf_state c) = (s, Some 200) \<Longrightarrow>
    system_step D env now c
      (c\<lparr>cf_world := (cf_world c)\<lparr>w_state := set_table (channels (cf_router c)) s\<rparr>,
         cf_reloads := cf_reloads c @ [Asked]\<rparr>)"
| reload_read: "i < length (cf_reloads c) \<Longrightarrow> cf_reloads c ! i = Asked \<Longrightarrow> q_foreign_keys Q \<Longrightarrow>
    load_channels (sqlite_storage Q) P (ds_db (cf_state c)) = Inr chs \<Longrightarrow>
    system_step D env now c (c\<lparr>cf_reloads := (cf_reloads c)[i := Read chs]\<rparr>)"
| reload_stored: "i < length (cf_reloads c) \<Longrightarrow> cf_reloads c ! i = Read chs \<Longrightarrow>
    system_step D env now c
      (c\<lparr>cf_world := (cf_world c)\<lparr>w_state := set_table chs (cf_state c)\<rparr>, cf_reloads := (cf_reloads c)[i := Stored]\<rparr>)"

inductive system_run ::
  "('st, sqlite_db) deployment \<Rightarrow> (string \<Rightarrow> string option) \<Rightarrow> (config \<times> instant) list \<Rightarrow> config \<Rightarrow> bool"
  for D :: "('st, sqlite_db) deployment" and env where
  started: "start_up D P S disk = (disk', Inr R) \<Longrightarrow> su_env S = env \<Longrightarrow> db_ok (disk (parse_db_path S)) \<Longrightarrow>
    q_foreign_keys (sd_conn (su_seed S)) \<Longrightarrow> q_foreign_keys (su_load S) \<Longrightarrow>
    system_run D env [] \<lparr>cf_world = rn_world R, cf_calls = [], cf_reloads = []\<rparr>"
| stepped: "system_run D env h c \<Longrightarrow> system_step D env now c c' \<Longrightarrow> system_run D env ((c, now) # h) c'"

definition system_reachable :: "('st, sqlite_db) deployment \<Rightarrow> sqlite_db proxy_world world \<Rightarrow> bool" where
  "system_reachable D w \<longleftrightarrow> (\<exists>env h c. system_run D env h c \<and> w = cf_world c)"

section \<open>The invariant of a run\<close>

definition reload_ok :: "reload \<Rightarrow> bool" where
  "reload_ok r \<longleftrightarrow>
     (case r of Read chs \<Rightarrow> distinct (map rc_channel_id chs) \<and> (\<forall>ch\<in>set chs. channel_wf ch) | _ \<Rightarrow> True)"

definition config_ok :: "config \<Rightarrow> bool" where
  "config_ok c \<longleftrightarrow> system_ok (cf_state c) \<and> list_all (call_wf 4 \<circ> snd) (cf_calls c) \<and> list_all reload_ok (cf_reloads c)"

lemma deployed_length: "length (ps_middlewares (deployed_state D env) t) = 4"
  by (simp add: deployed_state_def deployed_chain_def)

lemma set_table_ok:
  "system_ok s \<Longrightarrow> distinct (map rc_channel_id chs) \<Longrightarrow> \<forall>ch\<in>set chs. channel_wf ch \<Longrightarrow> system_ok (set_table chs s)"
  by (simp add: system_ok_def set_table_def router_wf_def)

lemma set_table_same_ok: "system_ok s0 \<Longrightarrow> system_ok s \<Longrightarrow> system_ok (set_table (channels (ds_router s0)) s)"
  by (rule set_table_ok) (simp_all add: system_ok_def router_wf_def)

lemma loaded_ok:
  "db_ok db \<Longrightarrow> q_foreign_keys Q \<Longrightarrow> load_channels (sqlite_storage Q) P db = Inr chs \<Longrightarrow> reload_ok (Read chs)"
  using sqlite.loaded_distinct load_channels_wf by (fastforce simp: reload_ok_def)

lemma list_all_update: "list_all P xs \<Longrightarrow> P x \<Longrightarrow> list_all P (xs[i := x])"
  by (auto simp: list_all_iff dest: set_update_subset_insert [THEN subsetD])

lemma config_ok_step: "system_step D env now c c' \<Longrightarrow> config_ok c \<Longrightarrow> config_ok c'"
proof (induction rule: system_step.induct)
  case (arrived hr arole Q E c w k now)
  have "w = fst (arrive (proxy_on D env Q) E arole hr (cf_world c))" "k = snd (arrive (proxy_on D env Q) E arole hr (cf_world c))"
    using arrived(2) by simp_all
  with arrived(3) show ?case by (simp add: config_ok_def arrive_wf)
next
  case (advanced i c hr k Q E w k' now)
  have k: "call_wf 4 k" using advanced(1,2,5) nth_mem [OF advanced(1)] by (auto simp: config_ok_def list_all_iff)
  have ok: "system_ok (w_state (cf_world c))" using advanced(5) by (simp add: config_ok_def)
  have "system_ok (w_state w)"
    using system_served.advance_keeps [OF deployed_length k ok, of Q D env E] advanced(3) by simp
  moreover have "call_wf 4 k'" using advance_wf [OF deployed_length k, of "D\<lparr>dp_storage := sqlite_storage Q\<rparr>" env E "cf_world c"] advanced(3) by simp
  ultimately show ?case using advanced(5) by (simp add: config_ok_def list_all_update)
next
  case (dropped i c hr k now)
  then show ?case by (simp add: config_ok_def list_all_update)
next
  case (administered A key h rq c s r now)
  then show ?case using admin_call_keeps [of A "cf_state c" key h rq] by (simp add: config_ok_def)
next
  case (overtaken A rq key h c s now)
  then show ?case
    using admin_call_keeps [of A "cf_state c" key h rq] set_table_same_ok [of "cf_state c" s]
    by (simp add: config_ok_def reload_ok_def)
next
  case (reload_read i c Q P chs now)
  then show ?case
    using loaded_ok [OF _ reload_read(3,4)] by (simp add: config_ok_def system_ok_def list_all_update)
next
  case (reload_stored i c chs now)
  have "reload_ok (Read chs)"
    using reload_stored(1,2,3) nth_mem [OF reload_stored(1)] by (auto simp: config_ok_def list_all_iff)
  then show ?case
    using reload_stored(3) by (simp add: config_ok_def reload_ok_def set_table_ok list_all_update)
qed

lemma config_ok_run: "system_run D env h c \<Longrightarrow> config_ok c \<and> (\<forall>(c', now)\<in>set h. config_ok c')"
proof (induction rule: system_run.induct)
  case (started P S disk disk' R)
  then show ?case using system_ok_started [OF started(1,3,4,5)] by (simp add: config_ok_def)
next
  case (stepped h c now c')
  then show ?case using config_ok_step [OF stepped(2)] by simp
qed

lemma system_invariant: "system_reachable D w \<Longrightarrow> system_ok (w_state w)"
  using config_ok_run by (fastforce simp: system_reachable_def config_ok_def)

section \<open>Routing across the steps of a call\<close>

text \<open>
  \<open>chosen J h hr ctx\<close>: the channel in the context was selected at a moment of the history at which the call of
  \<open>hr\<close> was about to run the hook of the router, from the router's tables of that moment and for the model its
  body asked for then. \<open>call_routed\<close> is what
  a call carries from hook to hook.
\<close>

definition chosen :: "json_lib \<Rightarrow> (config \<times> instant) list \<Rightarrow> http_request \<Rightarrow> connection_context \<Rightarrow> bool" where
  "chosen J h hr ctx \<longleftrightarrow>
     (\<exists>c now req ctx0 body. (c, now) \<in> set h \<and> (hr, Requesting 2 req ctx0) \<in> set (cf_calls c) \<and>
        from_slice J (req_body req) = Inr body \<and> selected_at (cf_router c) now (request_model body) ctx)"

definition sent_by :: "json_lib \<Rightarrow> (config \<times> instant) list \<Rightarrow> http_request \<Rightarrow> upstream_request \<Rightarrow> bool" where
  "sent_by J h hr u \<longleftrightarrow>
     (\<exists>c now req ctx body. (c, now) \<in> set h \<and> (hr, Requesting 2 req ctx) \<in> set (cf_calls c) \<and>
        from_slice J (req_body req) = Inr body \<and> sent_to (cf_router c) now (request_model body) (hr_path hr) u)"

fun call_routed :: "json_lib \<Rightarrow> (config \<times> instant) list \<Rightarrow> http_request \<Rightarrow> call \<Rightarrow> bool" where
  "call_routed J h hr (Requesting i req ctx) \<longleftrightarrow>
     detected_format ctx = detect_api_format (hr_path hr) \<and>
     (i \<le> 3 \<longrightarrow> req_path req = hr_path hr) \<and>
     (target_protocol ctx = detect_api_format (hr_path hr) \<longrightarrow> req_path req = hr_path hr) \<and>
     (3 \<le> i \<longrightarrow> chosen J h hr ctx)"
| "call_routed J h hr k \<longleftrightarrow> True"

lemma chosen_mono: "chosen J h hr ctx \<Longrightarrow> set h \<subseteq> set h' \<Longrightarrow> chosen J h' hr ctx"
  unfolding chosen_def by blast

lemma sent_by_mono: "sent_by J h hr u \<Longrightarrow> set h \<subseteq> set h' \<Longrightarrow> sent_by J h' hr u"
  unfolding sent_by_def by blast

lemma call_routed_mono: "call_routed J h hr k \<Longrightarrow> set h \<subseteq> set h' \<Longrightarrow> call_routed J h' hr k"
  by (cases k) (auto intro: chosen_mono)

lemma router_selects:
  assumes "router_on_request (router_env_at D t) R req ctx = (R', Inr (req', ctx'))"
  shows "\<exists>body. from_slice (dp_json D) (req_body req) = Inr body \<and> selected_at R (rd_instant t) (request_model body) ctx'"
    "req_path req' = req_path req" "detected_format ctx' = detected_format ctx"
  using router_on_request_routes [OF assms]
  by (auto simp: selected_at_def find_candidates_iff usable_def router_env_at_def same_request_def)

lemma bridge_keeps_selection:
  assumes "bridge_on_request J H B req ctx = Inr (req', ctx')"
  shows "selected_at R now model ctx \<Longrightarrow> selected_at R now model ctx'"
    and "target_protocol ctx' = detected_format ctx \<Longrightarrow> req_path req' = req_path req"
  using bridge_on_request_frame [OF assms] bridge_on_request_Inr [OF assms]
  by (auto simp: selected_at_def routed_def)

lemma hook_routed:
  assumes "i < 4" "on_request (deployed_chain D t ! i) s req ctx = (s', Inr (req', ctx'))"
    and "call_routed J h hr (Requesting i req ctx)"
    and "\<And>body. i = 2 \<Longrightarrow> from_slice (dp_json D) (req_body req) = Inr body \<Longrightarrow>
      selected_at (ds_router s) (rd_instant t) (request_model body) ctx' \<Longrightarrow> chosen J h hr ctx'"
  shows "call_routed J h hr (Requesting (Suc i) req' ctx')"
proof -
  consider "i = 0" | "i = 1" | "i = 2" | "i = 3" using assms(1) by linarith
  then show ?thesis
  proof cases
    case 1
    with assms(2) have "compress_on_request (dp_json D) (dp_compressors D) (ds_compress s) req ctx = Inr (req', ctx')"
      by (auto simp: deployed_chain_def)
    from compress_on_request_frame [OF this] assms(3) 1 show ?thesis by (simp add: same_request_def)
  next
    case 2
    with assms(2) have "alias_on_request (dp_json D) (ds_alias s) req ctx = Inr (req', ctx')"
      by (auto simp: deployed_chain_def)
    from alias_on_request_frame [OF this] assms(3) 2 show ?thesis by simp
  next
    case 3
    with assms(2) have "router_on_request (router_env_at D t) (ds_router s) req ctx =
        (fst (router_on_request (router_env_at D t) (ds_router s) req ctx), Inr (req', ctx'))"
      by (simp add: deployed_chain_def prod_eq_iff)
    from router_selects [OF this] assms(3,4) 3 show ?thesis by auto
  next
    case 4
    with assms(2) have b: "bridge_on_request (dp_json D) (dp_http D) (dp_bridge D) req ctx = Inr (req', ctx')"
      by (auto simp: deployed_chain_def)
    have "chosen J h hr ctx" using assms(3) 4 by simp
    then have "chosen J h hr ctx'" using bridge_keeps_selection(1) [OF b] unfolding chosen_def by blast
    with bridge_on_request_frame [OF b] bridge_keeps_selection(2) [OF b] assms(3) 4 show ?thesis
      by (simp add: same_request_def)
  qed
qed

text \<open>One step of a call, at the configuration \<open>c\<close>: first a step of the request chain.\<close>

lemma request_step_routed:
  assumes J: "J = dp_json D" and k: "call_routed J h hr (Requesting i req ctx)" "i \<le> 4"
      "(hr, Requesting i req ctx) \<in> set (cf_calls c)"
    and step: "request_step (deployed_state D env) E i req ctx (cf_world c) = (w, k')"
    and h: "\<forall>(c0, now)\<in>set h. system_ok (cf_state c0)"
    and h': "h' = (c, rd_instant (se_request_time E)) # h"
  shows "call_routed J h' hr k' \<and> (w_sent w = w_sent (cf_world c) \<or> (\<exists>u. w_sent w = w_sent (cf_world c) @ [u] \<and> sent_by J h' hr u))"
proof -
  let ?mws = "deployed_chain D (se_request_time E)"
  have len: "length ?mws = 4" by (simp add: deployed_chain_def)
  have r: "call_routed J h' hr (Requesting i req ctx)"
    using k(1) by (auto intro!: call_routed_mono [where h = h] simp: h' simp del: call_routed.simps)
  show ?thesis
  proof (cases "i < 4")
    case True
    obtain s x where sx: "on_request (?mws ! i) (cf_state c) req ctx = (s, x)" by fastforce
    show ?thesis
    proof (cases x)
      case (Inl f)
      with step sx True show ?thesis by (auto simp: request_step_def deployed_state_fields len)
    next
      case (Inr y)
      obtain req' ctx' where y: "y = (req', ctx')" by (cases y)
      from step sx True Inr y have out: "k' = Requesting (Suc i) req' ctx'" "w_sent w = w_sent (cf_world c)"
        by (auto simp: request_step_def deployed_state_fields len)
      have "chosen J h' hr ctx'" if "i = 2" "from_slice (dp_json D) (req_body req) = Inr body"
        "selected_at (cf_router c) (rd_instant (se_request_time E)) (request_model body) ctx'" for body
        using that k(3) by (auto simp: chosen_def h' J)
      from hook_routed [OF True sx [unfolded Inr y] r this] out show ?thesis by simp
    qed
  next
    case False
    then have i: "i = 4" using k(2) by simp
    obtain c0 now req0 ctx0 body where c0: "(c0, now) \<in> set h" "(hr, Requesting 2 req0 ctx0) \<in> set (cf_calls c0)"
      "from_slice J (req_body req0) = Inr body" "selected_at (cf_router c0) now (request_model body) ctx" using k(1) i by (auto simp: chosen_def)
    have ok: "system_ok (cf_state c0)" using h c0(1) by auto
    have "sent_by J h' hr (build_upstream_request req cc)" if "selected_channel ctx = Some cc" for cc
      using routed_sends [OF system_okD(2,3) [OF ok] c0(4) that, of "hr_path hr" req] k(1) c0(1,2,3)
      by (auto simp: sent_by_def h')
    with step i show ?thesis
      by (auto simp: request_step_def deployed_state_fields len Let_def split: option.splits)
  qed
qed

lemma advance_routed:
  assumes J: "J = dp_json D" and k: "call_routed J h hr k" "call_wf 4 k" "(hr, k) \<in> set (cf_calls c)"
    and step: "advance (deployed_state D env) E k (cf_world c) = (w, k')"
    and h: "\<forall>(c0, now)\<in>set h. system_ok (cf_state c0)"
    and h': "h' = (c, rd_instant (se_request_time E)) # h"
  shows "call_routed J h' hr k'"
    and "w_sent w = w_sent (cf_world c) \<or> (\<exists>u. w_sent w = w_sent (cf_world c) @ [u] \<and> sent_by J h' hr u)"
proof -
  have "call_routed J h' hr k' \<and> (w_sent w = w_sent (cf_world c) \<or> (\<exists>u. w_sent w = w_sent (cf_world c) @ [u] \<and> sent_by J h' hr u))"
  proof (cases k)
    case (Requesting i req ctx)
    with k step request_step_routed [OF J _ _ _ _ h h', of hr i req ctx env w k'] show ?thesis by simp
  next
    case (Waiting u b ctx)
    with step show ?thesis by (auto simp: answer_step_def split: sum.splits)
  next
    case (Responding i b res ctx)
    with step show ?thesis by (auto simp: response_step_def split: nat.splits prod.splits sum.splits)
  qed (use step in auto)
  then show "call_routed J h' hr k'"
    "w_sent w = w_sent (cf_world c) \<or> (\<exists>u. w_sent w = w_sent (cf_world c) @ [u] \<and> sent_by J h' hr u)" by blast+
qed

section \<open>Identity of a call\<close>

fun call_ctx :: "call \<Rightarrow> connection_context option" where
  "call_ctx (Requesting i req ctx) = Some ctx"
| "call_ctx (Waiting u b ctx) = Some ctx"
| "call_ctx (Responding i b res ctx) = Some ctx"
| "call_ctx k = None"

fun sends_left :: "call \<Rightarrow> nat" where
  "sends_left (Requesting i req ctx) = 1"
| "sends_left k = 0"

abbreviation call_id :: "call \<Rightarrow> u64 option" where
  "call_id k \<equiv> map_option request_id (call_ctx k)"

lemma admit_request_id: "admit st E arole hr w = Inr (cur, req, ctx) \<Longrightarrow> request_id ctx = w_next_request_id w"
  by (auto simp: admit_def correlate_session_def apply_accumulator_def inject_stats_def connection_context_new_def ctx_simps
      Let_def split: if_splits option.splits sum.splits prod.splits)

lemma admit_target: "admit st E arole hr w = Inr (cur, req, ctx) \<Longrightarrow> target_protocol ctx = None"
  by (auto simp: admit_def correlate_session_def apply_accumulator_def inject_stats_def connection_context_new_def ctx_simps
      Let_def split: if_splits option.splits sum.splits prod.splits)

lemma arrive_call:
  assumes "arrive st E arole hr w = (w', k)"
  shows "call_routed J h hr k" "call_id k \<in> {None, Some (w_next_request_id w)}" "sends_left k \<le> 1"
    "w_sent w' = w_sent w" "w_next_request_id w' = w_next_request_id w + 1"
  using assms
  by (auto simp: arrive_def admit_request_id admit_Inr(1,2) split: sum.splits prod.splits)

lemma advance_id:
  assumes "advance (deployed_state D env) E k w = (w', k')"
  shows "call_id k' \<in> {None, call_id k}"
proof (cases k)
  case (Requesting i req ctx)
  have "request_id ctx' = request_id ctx"
    if "i < length (deployed_chain D t)" "on_request (deployed_chain D t ! i) s req ctx = (s', Inr (req', ctx'))" for t s s' req' ctx'
    using deployed_frame.frame_step [OF nth_mem [OF that(1)] that(2)] by (simp add: same_request_def)
  with assms Requesting show ?thesis
    by (auto simp: request_step_def deployed_state_fields Let_def split: if_splits prod.splits sum.splits option.splits)
next
  case (Waiting u b ctx)
  with assms show ?thesis by (auto simp: answer_step_def split: sum.splits)
next
  case (Responding i b res ctx)
  with assms show ?thesis by (auto simp: response_step_def split: nat.splits prod.splits sum.splits)
qed (use assms in auto)

lemma advance_sends:
  assumes "advance st E k w = (w', k')"
  shows "length (w_sent w') + sends_left k' \<le> length (w_sent w) + sends_left k" "w_next_request_id w' = w_next_request_id w"
proof -
  have "length (w_sent w') + sends_left k' \<le> length (w_sent w) + sends_left k \<and> w_next_request_id w' = w_next_request_id w"
  proof (cases k)
    case (Requesting i req ctx)
    with assms show ?thesis
      by (auto simp: request_step_def Let_def split: if_splits prod.splits sum.splits option.splits)
  next
    case (Waiting u b ctx)
    with assms show ?thesis by (auto simp: answer_step_def split: sum.splits)
  next
    case (Responding i b res ctx)
    with assms show ?thesis by (auto simp: response_step_def split: nat.splits prod.splits sum.splits)
  qed (use assms in auto)
  then show "length (w_sent w') + sends_left k' \<le> length (w_sent w) + sends_left k"
    "w_next_request_id w' = w_next_request_id w" by blast+
qed

text \<open>
  The calls of a run: call number \<open>j\<close> was authenticated and has the request id \<open>j + 1\<close>, every request that was
  sent belongs to one of them, and a call that may still send one has not sent any.
\<close>

definition authenticated :: "(string \<Rightarrow> string option) \<Rightarrow> http_request \<Rightarrow> bool" where
  "authenticated env hr \<longleftrightarrow> (\<exists>r. auth_middleware (auth_state_from_config (deployed_config env)) id (hr_headers hr) = Inr r)"

definition slot_ok :: "json_lib \<Rightarrow> (string \<Rightarrow> string option) \<Rightarrow> (config \<times> instant) list \<Rightarrow> nat \<Rightarrow> http_request \<times> call \<Rightarrow> bool" where
  "slot_ok J env h j x \<longleftrightarrow>
     authenticated env (fst x) \<and> call_routed J h (fst x) (snd x) \<and> call_id (snd x) \<in> {None, Some (of_nat (Suc j))}"

definition calls_ok :: "json_lib \<Rightarrow> (string \<Rightarrow> string option) \<Rightarrow> (config \<times> instant) list \<Rightarrow> config \<Rightarrow> bool" where
  "calls_ok J env h c \<longleftrightarrow>
     (\<forall>j<length (cf_calls c). slot_ok J env h j (cf_calls c ! j)) \<and>
     (\<forall>u\<in>set (w_sent (cf_world c)). \<exists>hr\<in>fst ` set (cf_calls c). sent_by J h hr u) \<and>
     w_next_request_id (cf_world c) = of_nat (Suc (length (cf_calls c))) \<and>
     length (w_sent (cf_world c)) + sum_list (map (sends_left \<circ> snd) (cf_calls c)) \<le> length (cf_calls c)"

lemma slot_ok_mono: "slot_ok J env h j x \<Longrightarrow> slot_ok J env (y # h) j x"
  by (auto simp: slot_ok_def intro: call_routed_mono [where h = h])

lemma sent_by_Cons: "sent_by J h hr u \<Longrightarrow> sent_by J (y # h) hr u"
  by (rule sent_by_mono) auto

lemma calls_ok_same:
  assumes "calls_ok J env h c" "cf_calls c' = cf_calls c" "w_sent (cf_world c') = w_sent (cf_world c)"
    "w_next_request_id (cf_world c') = w_next_request_id (cf_world c)"
  shows "calls_ok J env (y # h) c'"
proof -
  have "\<exists>hr\<in>fst ` set (cf_calls c). sent_by J (y # h) hr u" if "u \<in> set (w_sent (cf_world c))" for u
    using assms(1) that sent_by_Cons unfolding calls_ok_def by blast
  with assms show ?thesis by (simp add: calls_ok_def slot_ok_mono)
qed

lemma map_fst_update: "xs ! i = (a, b) \<Longrightarrow> fst ` set (xs[i := (a, b')]) = fst ` set xs"
proof -
  assume "xs ! i = (a, b)"
  then have "map fst (xs[i := (a, b')]) = map fst xs" by (metis fst_conv list_update_id map_update)
  then show ?thesis by (metis list.set_map)
qed

lemma calls_ok_update:
  assumes ok: "calls_ok J env h c" and i: "i < length (cf_calls c)" "cf_calls c ! i = (hr, k)"
    and k': "call_routed J (y # h) hr k'" "call_id k' \<in> {None, call_id k}"
    and sent: "w_sent w = w_sent (cf_world c) \<or> (\<exists>u. w_sent w = w_sent (cf_world c) @ [u] \<and> sent_by J (y # h) hr u)"
    and left: "length (w_sent w) + sends_left k' \<le> length (w_sent (cf_world c)) + sends_left k"
    and n: "w_next_request_id w = w_next_request_id (cf_world c)"
  shows "calls_ok J env (y # h) (c\<lparr>cf_world := w, cf_calls := (cf_calls c)[i := (hr, k')]\<rparr>)"
proof -
  have slot: "slot_ok J env h j (cf_calls c ! j)" if "j < length (cf_calls c)" for j
    using ok that by (simp add: calls_ok_def)
  have "slot_ok J env (y # h) j ((cf_calls c)[i := (hr, k')] ! j)" if "j < length (cf_calls c)" for j
  proof (cases "j = i")
    case True
    then show ?thesis using slot [OF i(1)] i k' by (auto simp: slot_ok_def)
  next
    case False
    then show ?thesis using slot_ok_mono [OF slot [OF that]] by simp
  qed
  moreover have "\<exists>hr\<in>fst ` set (cf_calls c). sent_by J (y # h) hr u" if "u \<in> set (w_sent w)" for u
  proof -
    have "hr \<in> fst ` set (cf_calls c)" using nth_mem [OF i(1)] i(2) by (metis fst_conv image_eqI)
    moreover have "u \<in> set (w_sent (cf_world c)) \<or> sent_by J (y # h) hr u" using sent that by auto
    moreover have "\<exists>hr\<in>fst ` set (cf_calls c). sent_by J h hr u" if "u \<in> set (w_sent (cf_world c))"
      using ok that by (simp add: calls_ok_def)
    ultimately show ?thesis using sent_by_Cons by blast
  qed
  moreover have "length (w_sent w) + sum_list (map (sends_left \<circ> snd) ((cf_calls c)[i := (hr, k')])) \<le> length (cf_calls c)"
  proof -
    let ?xs = "map (sends_left \<circ> snd) (cf_calls c)"
    have "?xs ! i = sends_left k" using i by simp
    moreover have "?xs ! i \<le> sum_list ?xs" using i(1) by (intro elem_le_sum_list) simp
    moreover have "sum_list (?xs[i := sends_left k']) = sum_list ?xs + sends_left k' - ?xs ! i"
      using i(1) by (intro sum_list_update) simp
    moreover have "length (w_sent (cf_world c)) + sum_list ?xs \<le> length (cf_calls c)" using ok by (simp add: calls_ok_def)
    ultimately show ?thesis using left by (simp add: map_update)
  qed
  ultimately show ?thesis
    using ok n by (simp add: calls_ok_def map_fst_update [OF i(2)])
qed

lemma calls_ok_step:
  assumes "system_step D env now c c'" "calls_ok (dp_json D) env h c" "config_ok c" "\<forall>(c0, t)\<in>set h. config_ok c0"
  shows "calls_ok (dp_json D) env ((c, now) # h) c'"
  using assms(1,2,3)
proof (cases rule: system_step.cases)
  case (arrived hr arole Q E w k)
  note a = arrive_call [OF arrived(3)]
  have auth: "authenticated env hr" using arrived(2) by (auto simp: authenticated_def)
  have n: "w_next_request_id (cf_world c) = of_nat (Suc (length (cf_calls c)))" using assms(2) by (simp add: calls_ok_def)
  have slots: "slot_ok (dp_json D) env ((c, now) # h) j ((cf_calls c @ [(hr, k)]) ! j)" if "j < Suc (length (cf_calls c))" for j
  proof (cases "j = length (cf_calls c)")
    case True
    then show ?thesis using a(1,2) auth n by (auto simp: slot_ok_def)
  next
    case False
    with that assms(2) show ?thesis by (auto simp: calls_ok_def nth_append slot_ok_mono)
  qed
  have "\<exists>hr'\<in>fst ` set (cf_calls c). sent_by (dp_json D) ((c, now) # h) hr' u" if "u \<in> set (w_sent w)" for u
    using assms(2) that sent_by_Cons unfolding calls_ok_def a(4) by blast
  with slots assms(2) a(3,4,5) n show ?thesis by (auto simp: calls_ok_def arrived(1))
next
  case (advanced i hr k Q E w k')
  have k: "call_routed (dp_json D) h hr k" "call_wf 4 k" "(hr, k) \<in> set (cf_calls c)"
    using assms(2,3) advanced(2,3) nth_mem [OF advanced(2)]
    by (auto simp: calls_ok_def slot_ok_def config_ok_def list_all_iff)
  have h: "\<forall>(c0, t)\<in>set h. system_ok (cf_state c0)" using assms(4) by (auto simp: config_ok_def)
  note r = advance_routed [where D = "D\<lparr>dp_storage := sqlite_storage Q\<rparr>" and h' = "(c, now) # h", OF _ k advanced(4) h]
  show ?thesis
    unfolding advanced(1)
    by (rule calls_ok_update [OF assms(2) advanced(2,3)])
      (use r advanced(5) advance_id [OF advanced(4)] advance_sends [OF advanced(4)] in auto)
next
  case (dropped i hr k)
  have "calls_ok (dp_json D) env ((c, now) # h) (c\<lparr>cf_world := cf_world c, cf_calls := (cf_calls c)[i := (hr, Dropped)]\<rparr>)"
    by (rule calls_ok_update [OF assms(2) dropped(2,3)]) auto
  with dropped(1) show ?thesis by simp
qed (simp_all add: calls_ok_same)

lemma calls_ok_run: "system_run D env h c \<Longrightarrow> calls_ok (dp_json D) env h c"
proof (induction rule: system_run.induct)
  case (started P S disk disk' R)
  from started(1) show ?case
    by (elim start_up_Inr start_server_Inr) (simp add: calls_ok_def world_new_def)
next
  case (stepped h c now c')
  then show ?case using calls_ok_step [OF stepped(2)] config_ok_run [OF stepped(1)] by blast
qed

section \<open>A sample run\<close>

lemma sample_db_ok: "db_ok sample_db" "counters_ok sample_db"
proof -
  show "counters_ok sample_db"
    by (simp add: counters_ok_def sample_db_tables new_channel_row_def)
  have "db_ok (d\<lparr>user_version := v, t_seed_metadata := [r]\<rparr>)" if "db_ok d" for d v r
    using that by (simp add: db_ok_def)
  then show "db_ok sample_db"
    unfolding sample_db_def Let_def
    by (simp add: upsert_mapping_ok upsert_channel_ok db_ok_empty sample_sqlite_env_def)
qed

lemma sample_db_settled: "user_version sample_db = 2" "0 < get_local_version_inner sample_db"
proof -
  show "user_version sample_db = 2" by (simp add: sample_db_def Let_def)
  have "show_nat (unat (1 :: u32)) = ''1''" by (simp add: show_nat.simps char_of_def bit_Suc_0_iff)
  then have "parse_u32 ''1'' = Some 1" by (metis parse_u32_show_nat)
  then show "0 < get_local_version_inner sample_db"
    by (simp add: sample_db_def get_local_version_inner_def get_metadata_def Let_def)
qed

lemma sample_started:
  "\<exists>R. start_up sample_deployment sample_parsers sample_startup (\<lambda>_. sample_db) = (\<lambda>_. sample_db, Inr R) \<and>
     rn_world R = world_new sample_proxy_world"
proof -
  from start_up_total [of sample_startup "\<lambda>_. sample_db" sample_deployment sample_parsers] sample_startable(1-3)
    sample_db_ok
  obtain db R where s: "start_up sample_deployment sample_parsers sample_startup (\<lambda>_. sample_db) =
      ((\<lambda>_. sample_db)(parse_db_path sample_startup := db), Inr R)" by blast
  moreover have "fst (start_up sample_deployment sample_parsers sample_startup (\<lambda>_. sample_db)) = (\<lambda>_. sample_db)"
    by (rule start_up_settled) (rule sample_db_settled)+
  ultimately have s': "start_up sample_deployment sample_parsers sample_startup (\<lambda>_. sample_db) = (\<lambda>_. sample_db, Inr R)"
    by simp
  moreover have "rn_world R = world_new sample_proxy_world"
    using s'
  proof (cases rule: start_up_Inr)
    case (1 db1 db2 seeded)
    then have "db2 = sample_db" by (metis fun_upd_same)
    with 1(4) show ?thesis by (elim start_server_Inr) (auto simp: sample_startup_def sample_world_loads)
  qed
  ultimately show ?thesis by blast
qed

lemma sample_run: "system_run sample_deployment Map.empty []
    \<lparr>cf_world = world_new sample_proxy_world, cf_calls = [], cf_reloads = []\<rparr>"
proof -
  obtain R where "start_up sample_deployment sample_parsers sample_startup (\<lambda>_. sample_db) = (\<lambda>_. sample_db, Inr R)"
    "rn_world R = world_new sample_proxy_world" using sample_started by blast
  with started [OF this(1), of Map.empty] sample_db_ok show ?thesis
    by (simp add: sample_startup_def sample_seed_env_def sample_sqlite_env_def)
qed

text \<open>A single call of a run, step by step.\<close>

lemma run_lifts:
  "system_run D env h \<lparr>cf_world = w, cf_calls = [(hr, k)], cf_reloads = rs\<rparr> \<Longrightarrow>
   run_call (proxy_on D env Q) E n (w, k) = (w', k') \<Longrightarrow>
   \<exists>h'. system_run D env h' \<lparr>cf_world = w', cf_calls = [(hr, k')], cf_reloads = rs\<rparr>"
proof (induction n arbitrary: h w k)
  case (Suc n)
  obtain w1 k1 where s: "advance (proxy_on D env Q) E k w = (w1, k1)" by fastforce
  have "system_run D env ((\<lparr>cf_world = w, cf_calls = [(hr, k)], cf_reloads = rs\<rparr>, rd_instant (se_request_time E)) # h)
      \<lparr>cf_world = w1, cf_calls = [(hr, k1)], cf_reloads = rs\<rparr>"
    using stepped [OF Suc.prems(1) advanced [where i = 0 and hr = hr and k = k and Q = Q and E = E, OF _ _ _ refl]] s
    by simp
  from Suc.IH [OF this] Suc.prems(2) s show ?case by simp
qed auto

lemma sample_system_reachable: "system_reachable sample_deployment (world_new sample_proxy_world)"
  unfolding system_reachable_def using sample_run by fastforce

lemma sample_deployment_storage: "sample_deployment\<lparr>dp_storage := sqlite_storage sample_sqlite_env\<rparr> = sample_deployment"
  by (simp add: sample_deployment_def)

lemma call_is_handler:
  "run_call (deployed_state D env) E 11 (arrive (deployed_state D env) E arole hr w) =
     map_prod id Answered (handle_proxy_request (deployed_state D env) E arole hr w)"
proof (cases "handle_proxy_request (deployed_state D env) E arole hr w")
  case (Pair w' r)
  from run_call_handler [OF deployed_length deployed_length this] Pair show ?thesis by (simp del: run_call.simps)
qed

lemma sample_authenticated: "auth_middleware (auth_state_from_config (deployed_config Map.empty)) id h = Inr None"
  by (simp add: auth_middleware_def auth_state_from_config_def deployed_config_def proxy_config_default_def has_auth_def)

text \<open>A run in which the sample call is answered.\<close>

lemma sample_call_run:
  "\<exists>h c u k. system_run sample_deployment Map.empty h c \<and> w_sent (cf_world c) = [u] \<and> cf_calls c = [(sample_call, k)]"
proof -
  let ?c = "\<lparr>cf_world = world_new sample_proxy_world, cf_calls = [], cf_reloads = []\<rparr>"
  let ?st = "proxy_on sample_deployment Map.empty sample_sqlite_env" and ?E = "sample_call_env sample_answer"
  obtain w k where a: "arrive ?st ?E None sample_call (world_new sample_proxy_world) = (w, k)" by fastforce
  have "system_step sample_deployment Map.empty 0 ?c
      (?c\<lparr>cf_world := w, cf_calls := cf_calls ?c @ [(sample_call, k)]\<rparr>)"
    by (rule arrived [where Q = sample_sqlite_env and E = ?E, OF sample_authenticated]) (simp add: a)
  from stepped [OF sample_run this]
  have run: "system_run sample_deployment Map.empty [(?c, 0)] \<lparr>cf_world = w, cf_calls = [(sample_call, k)], cf_reloads = []\<rparr>"
    by simp
  obtain w' r u where "handle_proxy_request (deployed_state sample_deployment Map.empty) ?E None sample_call
      (world_new sample_proxy_world) = (w', r)" "w_sent w' = w_sent (world_new sample_proxy_world) @ [u]"
    using sample_handled by blast
  then have "run_call ?st ?E 11 (w, k) = (w', Answered r)" "w_sent w' = [u]"
    using call_is_handler [of sample_deployment Map.empty ?E None sample_call "world_new sample_proxy_world"] a
    by (simp_all add: sample_deployment_storage world_new_fields del: run_call.simps)
  with run_lifts [OF run] obtain h where "system_run sample_deployment Map.empty h
      \<lparr>cf_world = w', cf_calls = [(sample_call, Answered r)], cf_reloads = []\<rparr>" "w_sent w' = [u]" by blast
  then show ?thesis
    by (intro exI [of _ h] exI [of _ "\<lparr>cf_world = w', cf_calls = [(sample_call, Answered r)], cf_reloads = []\<rparr>"]) simp
qed

text \<open>Two sample calls, both in flight.\<close>

lemma sample_arrives:
  "\<exists>w' req ctx. arrive (proxy_on sample_deployment Map.empty Q) (sample_call_env a) None sample_call w = (w', Requesting 0 req ctx)"
proof -
  have "\<exists>cur req ctx. admit (proxy_on sample_deployment Map.empty Q) (sample_call_env a) None sample_call w = Inr (cur, req, ctx)"
    by (simp add: admit_def sample_call_def sample_call_env_def deployed_state_def deployed_config_def
        proxy_config_default_def detect_api_format_def ends_with_def body_too_large_def header_str_def header_get_def
        to_bytes_def validate_proxy_request_def correlate_session_def session_header_def project_header_def
        header_find_def to_lowercase_def ascii_lower_def Let_def)
  then show ?thesis by (auto simp: arrive_def)
qed

lemma sample_two_calls:
  "\<exists>h c ctx ctx'. system_run sample_deployment Map.empty h c \<and> length (cf_calls c) = 2 \<and>
     call_ctx (snd (cf_calls c ! 0)) = Some ctx \<and> call_ctx (snd (cf_calls c ! 1)) = Some ctx'"
proof -
  let ?st = "proxy_on sample_deployment Map.empty sample_sqlite_env" and ?E = "sample_call_env sample_answer"
  have step: "\<exists>h' c' ctx. system_run sample_deployment Map.empty h' c' \<and>
      (\<exists>k. cf_calls c' = cf_calls c @ [(sample_call, k)] \<and> call_ctx k = Some ctx)"
    if run: "system_run sample_deployment Map.empty h c" for h c
  proof -
    obtain w req ctx where "arrive ?st ?E None sample_call (cf_world c) = (w, Requesting 0 req ctx)"
      using sample_arrives by blast
    from stepped [OF run arrived [OF sample_authenticated this, where now = 0]] show ?thesis by fastforce
  qed
  from step [OF sample_run] obtain h1 c1 ctx1 k1 where 1: "system_run sample_deployment Map.empty h1 c1"
    "cf_calls c1 = [(sample_call, k1)]" "call_ctx k1 = Some ctx1" by auto
  from step [OF 1(1)] obtain h2 c2 ctx2 k2 where "system_run sample_deployment Map.empty h2 c2"
    "cf_calls c2 = [(sample_call, k1), (sample_call, k2)]" "call_ctx k2 = Some ctx2" using 1(2) by auto
  with 1(3) show ?thesis by (intro exI [of _ h2] exI [of _ c2]) simp
qed

section \<open>Properties\<close>

text \<open>
  C1. A request that leaves the proxy goes to a channel that may serve it, with that channel's key and
  no other. However calls, admin calls, reloads and disconnecting clients interleave, every request that
  was sent upstream belongs to an authenticated client request of the run, and there is a moment of the
  run at which this client's call ran the hook of the router and an enabled channel of the router's table,
  with a key and out of cooldown, had a mapping for the model its body asked for, such that the URL is the base URL of one of
  the channel's own protocol entries followed by that entry's rewrite path or, without one, by a path that
  is the client's own when the entry speaks the client's protocol; the base URL has no trailing slash; and
  the only authorization header carries the key this channel had at that moment, which is not empty.
\<close>

theorem requests_go_to_selected_channel:
  assumes "system_run D env h c" "u \<in> set (w_sent (cf_world c))"
  shows "\<exists>hr k c0 now req ctx body. (hr, k) \<in> set (cf_calls c) \<and> authenticated env hr \<and>
    (c0, now) \<in> set h \<and> (hr, Requesting 2 req ctx) \<in> set (cf_calls c0) \<and>
    from_slice (dp_json D) (req_body req) = Inr body \<and> sent_to (cf_router c0) now (request_model body) (hr_path hr) u"
proof -
  note ok = calls_ok_run [OF assms(1)]
  obtain hr k where hr: "(hr, k) \<in> set (cf_calls c)" "sent_by (dp_json D) h hr u"
    using ok assms(2) unfolding calls_ok_def by fastforce
  then obtain j where "j < length (cf_calls c)" "cf_calls c ! j = (hr, k)" by (auto simp: in_set_conv_nth)
  with ok have "authenticated env hr" by (auto simp: calls_ok_def slot_ok_def)
  with hr show ?thesis unfolding sent_by_def by blast
qed

theorem requests_go_to_selected_channel_witness:
  "\<exists>h c u c0 now body. \<exists>hr :: http_request. system_run sample_deployment Map.empty h c \<and> w_sent (cf_world c) = [u] \<and>
     (c0, now) \<in> set h \<and> sent_to (cf_router c0) now (request_model body) (hr_path hr) u"
proof -
  obtain h c u where r: "system_run sample_deployment Map.empty h c" and u: "w_sent (cf_world c) = [u]"
    using sample_call_run by blast
  from u have "u \<in> set (w_sent (cf_world c))" by simp
  from requests_go_to_selected_channel [OF r this] r u show ?thesis by blast
qed

text \<open>
  C3. The state stays sound under any interleaving: in every configuration the system can reach, whatever
  mixture of steps of proxy calls, admin calls and late reloads led to it and however they ended, the
  database satisfies its integrity conditions, the router's tables are well formed, and no two channels of
  the router share an identifier.
\<close>

theorem system_stays_sound:
  assumes "system_run D env h c"
  shows "db_ok (ds_db (cf_state c)) \<and> router_wf (cf_router c) \<and> distinct (map rc_channel_id (channels (cf_router c)))"
  using config_ok_run [OF assms] by (simp add: config_ok_def system_ok_def)

theorem system_stays_sound_witness: "db_ok sample_db \<and> distinct (map rc_channel_id (channels sample_state))"
  using system_stays_sound [OF sample_run]
  by (simp add: world_new_fields sample_proxy_world_def)

text \<open>
  C17. A client request reaches the upstream at most once: in every configuration, the number of requests sent
  so far and of the calls that may still send one is at most the number of calls that have arrived.
\<close>

theorem calls_send_at_most_once:
  assumes "system_run D env h c"
  shows "length (w_sent (cf_world c)) + length (filter (\<lambda>x. sends_left (snd x) \<noteq> 0) (cf_calls c)) \<le> length (cf_calls c)"
proof -
  have "length (filter (\<lambda>x. sends_left (snd x) \<noteq> 0) xs) = sum_list (map (sends_left \<circ> snd) xs)"
    for xs :: "(http_request \<times> call) list"
  proof (induction xs)
    case (Cons x xs)
    then show ?case by (cases "snd x") simp_all
  qed simp
  with calls_ok_run [OF assms] show ?thesis by (simp add: calls_ok_def)
qed

theorem calls_send_at_most_once_witness:
  "\<exists>h c u. system_run sample_deployment Map.empty h c \<and> w_sent (cf_world c) = [u] \<and> length (w_sent (cf_world c)) \<le> length (cf_calls c)"
proof -
  obtain h c u where r: "system_run sample_deployment Map.empty h c" and u: "w_sent (cf_world c) = [u]"
    using sample_call_run by blast
  from calls_send_at_most_once [OF r] have "length (w_sent (cf_world c)) \<le> length (cf_calls c)" by simp
  with u r show ?thesis by blast
qed

text \<open>
  C23. Request identifiers are unique: as long as at most 2^64 calls have arrived, two calls in flight never
  have the same identifier, although the counter wraps.
\<close>

theorem request_ids_unique:
  assumes "system_run D env h c" "length (cf_calls c) \<le> 2 ^ 64"
    and "i < length (cf_calls c)" "j < length (cf_calls c)" "i \<noteq> j"
    and "call_ctx (snd (cf_calls c ! i)) = Some ctx" "call_ctx (snd (cf_calls c ! j)) = Some ctx'"
  shows "request_id ctx \<noteq> request_id ctx'"
proof -
  have id: "request_id x = of_nat (Suc n)" if "n < length (cf_calls c)" "call_ctx (snd (cf_calls c ! n)) = Some x" for n x
    using calls_ok_run [OF assms(1)] that by (auto simp: calls_ok_def slot_ok_def)
  have "(of_nat (Suc i) :: u64) \<noteq> of_nat (Suc j)"
  proof
    assume "(of_nat (Suc i) :: u64) = of_nat (Suc j)"
    then have "(of_nat i :: u64) = of_nat j" by simp
    moreover have "i < 2 ^ LENGTH(64)" "j < 2 ^ LENGTH(64)" using assms(2-4) by simp_all
    ultimately have "i = j" by (simp add: word_of_nat_eq_iff take_bit_nat_eq_self)
    with assms(5) show False by simp
  qed
  with id [OF assms(3,6)] id [OF assms(4,7)] show ?thesis by simp
qed

theorem request_ids_unique_witness:
  "\<exists>h c ctx ctx'. system_run sample_deployment Map.empty h c \<and> call_ctx (snd (cf_calls c ! 0)) = Some ctx \<and>
     call_ctx (snd (cf_calls c ! 1)) = Some ctx' \<and> request_id ctx \<noteq> request_id ctx'"
proof -
  obtain h c ctx ctx' where c: "system_run sample_deployment Map.empty h c" "length (cf_calls c) = 2"
    "call_ctx (snd (cf_calls c ! 0)) = Some ctx" "call_ctx (snd (cf_calls c ! 1)) = Some ctx'"
    using sample_two_calls by blast
  have "request_id ctx \<noteq> request_id ctx'"
    by (rule request_ids_unique [OF c(1) _ _ _ _ c(3,4)]) (simp_all add: c(2))
  with c(1,3,4) show ?thesis by blast
qed

end
