(* ===== verification/Admin_Props.thy ===== *)
theory Admin_Props
  imports Concurrent
begin

text \<open>
  What an admin call does to the running system: who may call, when a change of a channel reaches the
  router, what a cleared key leaves behind, and what the cost reports cover.
\<close>

section \<open>Handlers\<close>

lemma and_then_Inr: "and_then h k w = (w', Inr y) \<longleftrightarrow> (\<exists>w1 x. h w = (w1, Inr x) \<and> k x w1 = (w', Inr y))"
  by (auto simp: and_then_def split: prod.splits sum.splits)

lemma storage_query_Inr: "storage_query q w = (w', Inr x) \<longleftrightarrow> w' = w \<and> q (ds_db w) = Inr x"
  by (cases "q (ds_db w)") (auto simp: storage_query_def)

lemma storage_update_Inr:
  "storage_update conv u w = (w', Inr x) \<longleftrightarrow> (\<exists>db. u (ds_db w) = (db, Inr x) \<and> w' = w\<lparr>ds_db := db\<rparr>)"
proof -
  obtain db r where "u (ds_db w) = (db, r)" by fastforce
  then show ?thesis by (cases r) (auto simp: storage_update_def)
qed

lemma then_reload_Inr: "then_reload A x w = (w', Inr y) \<longleftrightarrow> y = x \<and> w' = reload_channels A w"
  by (auto simp: then_reload_def)

lemma admin_get_channel_Inr:
  "admin_get_channel A k w = (w', Inr c) \<longleftrightarrow> w' = w \<and> get_channel (ad_storage A) (ds_db w) k = Inr (Some c)"
  by (auto simp: admin_get_channel_def or_not_found_def and_then_Inr storage_query_Inr split: option.splits)

lemmas handler_Inr = and_then_Inr storage_query_Inr storage_update_Inr then_reload_Inr admin_get_channel_Inr

text \<open>The router's table after a reload, whether or not the storage could be read.\<close>

lemma reload_channels_fields:
  "ds_db (reload_channels A w) = ds_db w" "ds_compress (reload_channels A w) = ds_compress w"
  "ds_alias (reload_channels A w) = ds_alias w"
  "health_map (ds_router (reload_channels A w)) = health_map (ds_router w)"
  "channel_api_keys (ds_router (reload_channels A w)) = channel_api_keys (ds_router w)"
  "channels (ds_router (reload_channels A w)) =
     (case load_channels (ad_storage A) (ad_parsers A) (ds_db w) of Inl _ \<Rightarrow> channels (ds_router w) | Inr chs \<Rightarrow> chs)"
  by (simp_all add: reload_channels_def reload_channels_from_storage_def split: sum.split)

text \<open>An admin environment for the examples, on the sample database.\<close>

definition sample_admin :: "sqlite_db admin_env" where
  "sample_admin =
     \<lparr>ad_storage = sqlite_storage sample_sqlite_env, ad_parsers = sample_parsers,
      ad_probe = \<lparr>pb_client = True, pb_send = (\<lambda>_. (1, Inr 200))\<rparr>, ad_now = 0, ad_unix = 1000000,
      ad_min_time = - 1000000000000, ad_protocols_error = (\<lambda>_. ''syntax''), ad_debug_list = concat,
      ad_seed_status = seed_status_op None,
      ad_seed_check_remote = seed_check_remote sample_seed_env, ad_seed_refresh = seed_refresh sample_seed_env\<rparr>"

lemma sample_admin_ok: "sqlite_admin sample_admin"
  unfolding sqlite_admin_def
  by (rule exI [of _ sample_sqlite_env], rule exI [of _ sample_seed_env])
    (simp add: sample_admin_def sample_sqlite_env_def sample_seed_env_def)

lemma sample_world_state: "w_state (world_new sample_proxy_world) = sample_proxy_world"
  by (simp add: world_new_fields)

lemmas sample_admin_call = and_then_def storage_update_def then_reload_def sample_admin_def sqlite_storage_def
  with_conn_upd_def with_conn_def sql_delete_def sql_update_def sample_proxy_world_def sample_db_tables new_channel_row_def
  sample_channel_of_def sample_mapping_of_def sample_flat_def sample_metered_def

section \<open>Access\<close>

text \<open>
  C19. Admin calls need the key: whatever key the environment or the random bytes gave the server at its
  start, on every route, reads and writes alike, a call with exactly this key in \<open>x-admin-key\<close> runs the
  handler of its route, and every other call, one without the header among them, is answered 401 and
  changes nothing. An empty key in the environment does not open the routes: a random one replaces it.
\<close>

theorem admin_requires_key:
  assumes "start_up D P S disk = (disk', Inr R)" and "length (su_random S) = 32"
  shows "admin_call A (Some (rn_admin_key R)) h rq w =
    (if header_str h ''x-admin-key'' = Some (rn_admin_key R) then admin_route A rq w else (w, Some 401))"
proof -
  have "su_random S \<noteq> []" using assms(2) by auto
  then have "admin_key_value (resolve_admin_key_with (su_env S) (su_random S)) \<noteq> []"
    by (rule resolve_admin_key_nonempty)
  with assms(1) have "rn_admin_key R \<noteq> []"
    by (elim start_up_Inr start_server_Inr) simp
  then show ?thesis
    by (cases "header_str h ''x-admin-key''")
      (simp_all add: admin_call_def admin_auth_middleware_def constant_time_eq_iff Let_def)
qed

theorem admin_requires_key_witness:
  "\<exists>R. start_up sample_deployment sample_parsers sample_startup (\<lambda>_. sample_db) = (\<lambda>_. sample_db, Inr R) \<and>
     admin_call sample_admin (Some (rn_admin_key R)) [] (DeleteChannel ''t'') sample_proxy_world =
       (sample_proxy_world, Some 401)"
proof -
  obtain R where R: "start_up sample_deployment sample_parsers sample_startup (\<lambda>_. sample_db) = (\<lambda>_. sample_db, Inr R)"
    using sample_started by blast
  from admin_requires_key [OF R sample_startable(2), of sample_admin "[]" "DeleteChannel ''t''" sample_proxy_world] R
  show ?thesis by (auto simp: header_str_def header_get_def)
qed

section \<open>Channels\<close>

lemma deleted_absent:
  assumes "sqlite_admin A" "admin_delete_channel A k s0 = (s, Inr x)" "system_ok s0"
  shows "get_channel (ad_storage A) (ds_db s) k = Inr None"
proof -
  obtain Q where Q: "q_foreign_keys Q" "ad_storage A = sqlite_storage Q" using assms(1) by (auto simp: sqlite_admin_def)
  obtain db where del: "delete_channel (sqlite_storage Q) (ds_db s0) k = (db, Inr ())"
    and s: "s = reload_channels A (s0\<lparr>ds_db := db\<rparr>)"
    using assms(2) by (auto simp: admin_delete_channel_def handler_Inr Q(2))
  have "db_ok (ds_db s0) \<and> q_foreign_keys Q" using assms(3) Q(1) by (simp add: system_ok_def)
  from sqlite.get_after_delete [OF this del] show ?thesis by (simp add: s reload_channels_fields Q(2))
qed

lemma not_found_or_status: "ae_status (not_found_or r e) \<noteq> 200"
  by (cases e) (simp_all add: app_error_of_storage_def app_not_found_def app_error_new_def)

lemma deleted_200:
  assumes "result_status (snd (admin_delete_channel A k s0)) = 200"
  shows "\<exists>x. snd (admin_delete_channel A k s0) = Inr x"
proof (cases "delete_channel (ad_storage A) (ds_db s0) k")
  case (Pair db r)
  with assms not_found_or_status show ?thesis
    by (cases r) (auto simp: result_status_def admin_delete_channel_def and_then_def storage_update_def then_reload_def)
qed

text \<open>
  C20. A deleted channel is gone: when the deletion of a channel succeeds, the backend has neither the
  channel nor any mapping of it, and the router's table, reloaded in the same call, does not contain it
  (if the reload fails the table is the old one, and the failure is logged only).
\<close>

theorem deleted_channel_is_gone:
  assumes "system_reachable D w" "sqlite_admin A" "admin_delete_channel A k (w_state w) = (s, Inr x)"
  shows "get_channel (ad_storage A) (ds_db s) k = Inr None \<and>
    k \<notin> mm_channel_id ` set (t_mappings (ds_db s)) \<and>
    (case load_channels (ad_storage A) (ad_parsers A) (ds_db s) of
       Inr chs \<Rightarrow> channels (ds_router s) = chs \<and> k \<notin> rc_channel_id ` set chs
     | Inl _ \<Rightarrow> channels (ds_router s) = channels (ds_router (w_state w)))"
proof -
  obtain Q where Q: "q_foreign_keys Q" "ad_storage A = sqlite_storage Q" using assms(2) by (auto simp: sqlite_admin_def)
  obtain db where del: "delete_channel (sqlite_storage Q) (ds_db (w_state w)) k = (db, Inr ())"
    and s: "s = reload_channels A (w_state w\<lparr>ds_db := db\<rparr>)"
    using assms(3) by (auto simp: admin_delete_channel_def handler_Inr Q(2))
  have inv: "db_ok (ds_db (w_state w)) \<and> q_foreign_keys Q"
    using system_invariant [OF assms(1)] Q(1) by (simp add: system_ok_def)
  have "sqlite_delete_channel Q (ds_db (w_state w)) k = (db, Inr ())" using del by (simp add: sqlite_storage_def)
  then have "k \<notin> mm_channel_id ` set (t_mappings db)"
    using Q(1) by (auto simp: sqlite_delete_channel_def with_conn_upd_Inr sql_delete_def split: if_splits)
  moreover have "get_channel (sqlite_storage Q) db k = Inr None"
    using sqlite.get_after_delete [OF inv del] by simp
  moreover have "k \<notin> rc_channel_id ` set chs" if "load_channels (sqlite_storage Q) (ad_parsers A) db = Inr chs" for chs
    by (rule sqlite.deleted_not_loaded [OF inv del that])
  ultimately show ?thesis by (auto simp: s reload_channels_fields Q(2) split: sum.split)
qed

theorem deleted_channel_is_gone_witness:
  "\<exists>s. admin_delete_channel sample_admin ''t'' sample_proxy_world = (s, Inr deleted_json) \<and>
     get_channel (ad_storage sample_admin) (ds_db s) ''t'' = Inr None"
proof -
  have "snd (admin_delete_channel sample_admin ''t'' sample_proxy_world) = Inr deleted_json"
    by (simp add: admin_delete_channel_def sqlite_delete_channel_def sample_admin_call sample_sqlite_env_def Let_def)
  then obtain s where s: "admin_delete_channel sample_admin ''t'' sample_proxy_world = (s, Inr deleted_json)"
    by (metis prod.collapse)
  with deleted_channel_is_gone [OF sample_system_reachable sample_admin_ok, of "''t''", unfolded sample_world_state, OF s]
  show ?thesis by blast
qed

lemma resolve_channel_fields:
  assumes "resolve_channel S P db ch = Inr (Some rc)"
  shows "(rc_channel_name rc, rc_enabled rc, rc_priority rc, rc_force_protocol rc) =
    (ch_name ch, ch_enabled ch, ch_priority ch, ch_force_protocol ch)"
  using assms by (auto simp: resolve_channel_def Let_def split: if_splits sum.splits)

text \<open>
  The channel that an update makes of a row: each field is the request's if the request has it, and the
  row's otherwise. A quota that does not fit an \<open>i64\<close> becomes the greatest one.
\<close>

definition updated_from :: "channel_update \<Rightarrow> channel_row \<Rightarrow> channel \<Rightarrow> bool" where
  "updated_from u r c \<longleftrightarrow>
     ch_name c = unwrap_or (r_name r) (cu_name u) \<and> ch_enabled c = unwrap_or (r_enabled r) (cu_enabled u) \<and>
     ch_priority c = unwrap_or (of_int (r_priority r)) (cu_priority u) \<and>
     ch_quota_policy c = unwrap_or (r_quota_policy r) (cu_quota_policy u) \<and>
     ch_protocols c = unwrap_or (r_protocols r) (cu_protocols u) \<and>
     ch_force_protocol c = (if cu_force_protocol u = None then r_force_protocol r else cu_force_protocol u) \<and>
     ch_monthly_quota c = (case cu_monthly_quota u of None \<Rightarrow> map_option of_int (r_monthly_quota r)
       | Some q \<Rightarrow> Some (if unat q < 2 ^ 63 then q else 2 ^ 63 - 1)) \<and>
     ch_id c = r_id r \<and> ch_api_key c = r_api_key r \<and> ch_billing_type c = r_billing_type r"

lemma sqlite_update_channel_Inr:
  assumes "sqlite_update_channel Q db k u = (db', Inr c)"
  shows "\<exists>r. row_at r_id k (t_channels db) = Some r \<and> row_to_channel Q (apply_channel_update Q u r) = Inr c"
proof -
  have up: "update_channel_row Q db k (apply_channel_update Q u) = (db', Inr ())"
    and c: "(case row_at r_id k (t_channels db') of None \<Rightarrow> Inl (Backend (q_no_rows Q)) | Some r \<Rightarrow> row_to_channel Q r) = Inr c"
    using assms by (auto simp: sqlite_update_channel_def split: prod.splits sum.splits)
  have id: "r_id (apply_channel_update Q u r) = r_id r" for r by (simp add: apply_channel_update_def)
  show ?thesis using update_channel_row_Inr(2) [OF up id, of k] c by (auto split: option.splits)
qed

lemma row_to_channel_fields:
  assumes "row_to_channel Q r = Inr c"
  shows "ch_name c = r_name r" "ch_enabled c = r_enabled r" "ch_priority c = of_int (r_priority r)"
    "ch_quota_policy c = r_quota_policy r" "ch_protocols c = r_protocols r" "ch_force_protocol c = r_force_protocol r"
    "ch_monthly_quota c = map_option of_int (r_monthly_quota r)"
    "ch_id c = r_id r" "ch_api_key c = r_api_key r" "ch_billing_type c = r_billing_type r"
  using assms by (auto simp: row_to_channel_def Let_def split: if_splits)

lemma clamp_i64_word: "(of_int (clamp_i64 q) :: u64) = (if unat q < 2 ^ 63 then q else 2 ^ 63 - 1)"
proof -
  have "uint q < 2 ^ 63 \<longleftrightarrow> unat q < 2 ^ 63" by (simp add: uint_nat)
  then show ?thesis by (auto simp: clamp_i64_def word_of_int_uint)
qed

lemma updated_row_fields:
  assumes "row_to_channel Q (apply_channel_update Q u r) = Inr c"
  shows "updated_from u r c"
  using row_to_channel_fields [OF assms]
  by (auto simp: updated_from_def apply_channel_update_def clamp_i64_word unwrap_or_def split: option.split)

definition sample_update :: channel_update where
  "sample_update =
     \<lparr>cu_name = None, cu_enabled = Some False, cu_priority = None, cu_monthly_quota = None, cu_quota_policy = None,
      cu_protocols = None, cu_force_protocol = None\<rparr>"

lemma sample_updated:
  "\<exists>s c chs. admin_update_channel sample_admin ''t'' sample_update sample_proxy_world = (s, Inr c) \<and>
     load_channels (ad_storage sample_admin) (ad_parsers sample_admin) (ds_db s) = Inr chs"
  by (simp add: admin_update_channel_def validate_force_protocol_def sample_update_def sqlite_update_channel_def
      update_channel_row_def apply_channel_update_def sample_admin_call sample_sqlite_env_def row_to_channel_def
      reload_channels_fields load_channels_def sqlite_list_channels_def order_by2_def resolve_channel_def
      sqlite_list_mappings_def sample_parsers_def Let_def)

lemma forced_protocol_ok:
  assumes Q: "ad_storage A = sqlite_storage Q" and v: "validate_force_protocol A k u s0 = (w1, Inr ())"
    and r: "row_at r_id k (t_channels (ds_db s0)) = Some r" "row_to_channel Q (apply_channel_update Q u r) = Inr c"
  shows "is_none_or (\<lambda>fp. \<exists>es. parse_protocols (ad_parsers A) (ch_protocols c) = Some es \<and> fp \<in> pe_protocol ` set es)
    (cu_force_protocol u)"
proof (cases "cu_force_protocol u")
  case (Some fp)
  obtain js es where es: "parse_protocols (ad_parsers A) js = Some es" "list_ex (\<lambda>e. pe_protocol e = fp) es"
    and js: "case cu_protocols u of Some p \<Rightarrow> js = p
      | None \<Rightarrow> \<exists>c0. get_channel (sqlite_storage Q) (ds_db s0) k = Inr (Some c0) \<and> js = ch_protocols c0"
    using v Some by (auto simp: validate_force_protocol_def handler_Inr Q split: option.splits if_splits)
  have "js = ch_protocols c"
  proof (cases "cu_protocols u")
    case None
    with js r(1) row_to_channel_fields(5) have "js = r_protocols r"
      by (auto simp: sqlite_storage_def sqlite_get_channel_def with_conn_Inr res_bind_Inr_iff)
    with updated_row_fields [OF r(2)] None show ?thesis by (simp add: updated_from_def)
  next
    case (Some p)
    with js updated_row_fields [OF r(2)] show ?thesis by (simp add: updated_from_def)
  qed
  with es Some show ?thesis by (auto simp: list_ex_iff)
qed simp

text \<open>
  C12. An update of a channel is live at once: when it succeeds, the reply is the channel as the backend now
  has it, each field the request's if the request has it (a quota cut off at \<open>2 ^ 63 - 1\<close>) and the old one
  otherwise; a protocol that this request forces is one of the channel's protocols after the update;
  and the router's table is what the backend now loads to, so that the channel of that identifier in it,
  if it has one, has the name, flag, priority and forced protocol of the reply. If the backend cannot be
  loaded, the table stays as it was. A protocol that was forced before is kept and not checked again,
  also when the request replaces the list of protocols.
\<close>

theorem updated_channel_is_live:
  assumes "system_reachable D w" "sqlite_admin A" "admin_update_channel A k u (w_state w) = (s, Inr c)"
  shows "(\<exists>r. row_at r_id k (t_channels (ds_db (w_state w))) = Some r \<and> updated_from u r c) \<and>
    get_channel (ad_storage A) (ds_db s) k = Inr (Some c) \<and>
    is_none_or (\<lambda>fp. \<exists>es. parse_protocols (ad_parsers A) (ch_protocols c) = Some es \<and> fp \<in> pe_protocol ` set es)
      (cu_force_protocol u) \<and>
    (case load_channels (ad_storage A) (ad_parsers A) (ds_db s) of
       Inl _ \<Rightarrow> channels (ds_router s) = channels (ds_router (w_state w))
     | Inr chs \<Rightarrow> channels (ds_router s) = chs \<and>
         (\<forall>rc. rc \<in> set chs \<and> rc_channel_id rc = k \<longrightarrow>
            (rc_channel_name rc, rc_enabled rc, rc_priority rc, rc_force_protocol rc) =
            (ch_name c, ch_enabled c, ch_priority c, ch_force_protocol c)))"
proof -
  obtain Q where Q: "q_foreign_keys Q" "ad_storage A = sqlite_storage Q" using assms(2) by (auto simp: sqlite_admin_def)
  let ?db = "ds_db (w_state w)"
  obtain w1 db where v: "validate_force_protocol A k u (w_state w) = (w1, Inr ())"
    and up: "update_channel (sqlite_storage Q) (ds_db w1) k u = (db, Inr c)"
    and s: "s = reload_channels A (w1\<lparr>ds_db := db\<rparr>)"
    using assms(3) by (auto simp: admin_update_channel_def handler_Inr Q(2))
  have w1: "w1 = w_state w"
    using v by (auto simp: validate_force_protocol_def handler_Inr split: option.splits)
  have inv: "db_ok ?db \<and> q_foreign_keys Q" using system_invariant [OF assms(1)] Q(1) by (simp add: system_ok_def)
  have "sqlite_update_channel Q ?db k u = (db, Inr c)" using up w1 by (simp add: sqlite_storage_def)
  then obtain r where r: "row_at r_id k (t_channels ?db) = Some r" "row_to_channel Q (apply_channel_update Q u r) = Inr c"
    using sqlite_update_channel_Inr by blast
  have f: "is_none_or (\<lambda>fp. \<exists>es. parse_protocols (ad_parsers A) (ch_protocols c) = Some es \<and> fp \<in> pe_protocol ` set es)
      (cu_force_protocol u)"
    by (rule forced_protocol_ok [OF Q(2) v r])
  have g: "get_channel (ad_storage A) (ds_db s) k = Inr (Some c)"
    using sqlite.get_after_update [OF inv up [unfolded w1]] by (simp add: s reload_channels_fields Q(2))
  have "(rc_channel_name rc, rc_enabled rc, rc_priority rc, rc_force_protocol rc) =
      (ch_name c, ch_enabled c, ch_priority c, ch_force_protocol c)"
    if "load_channels (sqlite_storage Q) (ad_parsers A) db = Inr chs" "rc \<in> set chs" "rc_channel_id rc = k" for rc chs
    by (rule resolve_channel_fields) (rule sqlite.updated_loaded [OF inv up [unfolded w1] that])
  then show ?thesis
    using r updated_row_fields [OF r(2)] f g by (simp add: s w1 reload_channels_fields Q(2) split: sum.split)
qed

theorem updated_channel_is_live_witness:
  "\<exists>s c. admin_update_channel sample_admin ''t'' sample_update sample_proxy_world = (s, Inr c) \<and> \<not> ch_enabled c \<and>
     get_channel (ad_storage sample_admin) (ds_db s) ''t'' = Inr (Some c)"
proof -
  obtain s c where s: "admin_update_channel sample_admin ''t'' sample_update sample_proxy_world = (s, Inr c)"
    using sample_updated by blast
  obtain r where "updated_from sample_update r c" "get_channel (ad_storage sample_admin) (ds_db s) ''t'' = Inr (Some c)"
    using updated_channel_is_live [OF sample_system_reachable sample_admin_ok, of "''t''", unfolded sample_world_state, OF s]
    by blast
  with s show ?thesis by (auto simp: updated_from_def sample_update_def)
qed

lemma sample_overtaken:
  "\<exists>s c chs. admin_update_channel sample_admin ''t'' sample_update sample_proxy_world = (s, Inr c) \<and>
     load_channels (ad_storage sample_admin) (ad_parsers sample_admin) (ds_db s) = Inr chs \<and>
     ''t'' \<in> rc_channel_id ` set chs \<and> (\<forall>x. snd (admin_delete_channel sample_admin ''t'' (set_table x s)) = Inr deleted_json)"
  by (simp add: admin_update_channel_def validate_force_protocol_def sample_update_def sqlite_update_channel_def
      update_channel_row_def apply_channel_update_def sample_admin_call sample_sqlite_env_def row_to_channel_def
      reload_channels_fields load_channels_def sqlite_list_channels_def order_by2_def resolve_channel_def
      sqlite_list_mappings_def sample_parsers_def admin_delete_channel_def sqlite_delete_channel_def set_table_def Let_def)

text \<open>A run with a reload that has read its table and not stored it.\<close>

lemma sample_late_reload:
  "\<exists>h c chs. system_run sample_deployment Map.empty h c \<and> cf_reloads c = [Read chs] \<and> ''t'' \<in> rc_channel_id ` set chs \<and>
     snd (admin_call sample_admin None [] (DeleteChannel ''t'') (cf_state c)) = Some 200"
proof -
  let ?c = "\<lparr>cf_world = world_new sample_proxy_world, cf_calls = [], cf_reloads = []\<rparr>"
  obtain s ch chs where s: "admin_update_channel sample_admin ''t'' sample_update sample_proxy_world = (s, Inr ch)"
    and l: "load_channels (ad_storage sample_admin) (ad_parsers sample_admin) (ds_db s) = Inr chs"
    and t: "''t'' \<in> rc_channel_id ` set chs"
    and d: "\<And>x. snd (admin_delete_channel sample_admin ''t'' (set_table x s)) = Inr deleted_json"
    using sample_overtaken by blast
  have "admin_call sample_admin None [] (PutChannel ''t'' sample_update) (cf_state ?c) = (s, Some 200)"
    using s by (simp add: admin_call_def sample_world_state reply_status_def result_status_def)
  from overtaken [OF sample_admin_ok _ this, of sample_deployment Map.empty 0]
  obtain w where "system_step sample_deployment Map.empty 0 ?c \<lparr>cf_world = w, cf_calls = [], cf_reloads = [Asked]\<rparr>"
    and w: "w_state w = set_table (channels (cf_router ?c)) s" by simp
  from stepped [OF sample_run this(1)]
  have run: "system_run sample_deployment Map.empty [(?c, 0)] \<lparr>cf_world = w, cf_calls = [], cf_reloads = [Asked]\<rparr>" .
  have "system_step sample_deployment Map.empty 0 \<lparr>cf_world = w, cf_calls = [], cf_reloads = [Asked]\<rparr>
      \<lparr>cf_world = w, cf_calls = [], cf_reloads = [Read chs]\<rparr>"
    using reload_read [where i = 0 and c = "\<lparr>cf_world = w, cf_calls = [], cf_reloads = [Asked]\<rparr>" and
        Q = sample_sqlite_env and P = sample_parsers and chs = chs and D = sample_deployment and env = Map.empty and now = 0] l
    by (simp add: w set_table_def sample_admin_def sample_sqlite_env_def)
  from stepped [OF run this] d t show ?thesis
    by (intro exI [of _ "[(\<lparr>cf_world = w, cf_calls = [], cf_reloads = [Asked]\<rparr>, 0), (?c, 0)]"]
        exI [of _ "\<lparr>cf_world = w, cf_calls = [], cf_reloads = [Read chs]\<rparr>"] exI [of _ chs])
      (simp add: admin_call_def reply_status_def result_status_def w)
qed

text \<open>
  C21. An overtaken reload brings a deleted channel back. A reload reads the database and stores its result
  some time later, and nothing orders the reloads of two admin calls. If one of them has read a channel
  that another call then deletes, completely and with a reload of its own, the first one may still store
  what it read: the database has no such channel, its deletion was confirmed, no reload is left to correct
  it, and the router has the channel in its table again.
\<close>

theorem overtaken_reload_revives_channel:
  assumes "system_run D env h c" "cf_reloads c = [Read chs]" "k \<in> rc_channel_id ` set chs"
    and "sqlite_admin A" "admin_call A key hs (DeleteChannel k) (cf_state c) = (s, Some 200)"
  shows "\<exists>h' c'. system_run D env h' c' \<and> get_channel (ad_storage A) (ds_db (cf_state c')) k = Inr None \<and>
    k \<in> rc_channel_id ` set (channels (cf_router c')) \<and> cf_reloads c' = [Stored]"
proof -
  let ?c1 = "c\<lparr>cf_world := (cf_world c)\<lparr>w_state := s\<rparr>\<rparr>"
  have "system_run D env ((c, 0) # h) ?c1" by (rule stepped [OF assms(1) administered [OF assms(4,5)]])
  moreover have "system_step D env 0 ?c1 (?c1\<lparr>cf_world := (cf_world ?c1)\<lparr>w_state := set_table chs (cf_state ?c1)\<rparr>,
      cf_reloads := (cf_reloads ?c1)[0 := Stored]\<rparr>)"
    by (rule reload_stored) (simp_all add: assms(2))
  ultimately have run: "system_run D env ((?c1, 0) # (c, 0) # h)
      (?c1\<lparr>cf_world := (cf_world ?c1)\<lparr>w_state := set_table chs (cf_state ?c1)\<rparr>, cf_reloads := (cf_reloads ?c1)[0 := Stored]\<rparr>)"
    by (rule stepped)
  have "admin_route A (DeleteChannel k) (cf_state c) = (s, Some 200)"
    using assms(5) by (auto simp: admin_call_def admin_auth_middleware_def Let_def split: option.splits if_splits)
  then obtain x where "admin_delete_channel A k (cf_state c) = (s, Inr x)"
    using deleted_200 [of A k "cf_state c"] by (auto simp: reply_status_def prod_eq_iff)
  moreover have "system_ok (cf_state c)" using config_ok_run [OF assms(1)] by (simp add: config_ok_def)
  ultimately have "get_channel (ad_storage A) (ds_db s) k = Inr None" by (rule deleted_absent [OF assms(4)])
  with run assms(2,3) show ?thesis
    by (intro exI [of _ "(?c1, 0) # (c, 0) # h"]
        exI [of _ "?c1\<lparr>cf_world := (cf_world ?c1)\<lparr>w_state := set_table chs (cf_state ?c1)\<rparr>, cf_reloads := (cf_reloads ?c1)[0 := Stored]\<rparr>"])
      (simp add: set_table_def)
qed

theorem overtaken_reload_revives_channel_witness:
  "\<exists>h c. system_run sample_deployment Map.empty h c \<and> get_channel (ad_storage sample_admin) (ds_db (cf_state c)) ''t'' = Inr None \<and>
     ''t'' \<in> rc_channel_id ` set (channels (cf_router c))"
proof -
  obtain h c chs where c: "system_run sample_deployment Map.empty h c" "cf_reloads c = [Read chs]"
    "''t'' \<in> rc_channel_id ` set chs" "snd (admin_call sample_admin None [] (DeleteChannel ''t'') (cf_state c)) = Some 200"
    using sample_late_reload by blast
  then obtain s where "admin_call sample_admin None [] (DeleteChannel ''t'') (cf_state c) = (s, Some 200)"
    by (metis prod.collapse)
  from overtaken_reload_revives_channel [OF c(1,2,3) sample_admin_ok this] show ?thesis by blast
qed

text \<open>
  A cleared key stays in use: after the key of a channel has been cleared over the admin API, the
  database has no key for it and the router's map of live keys has none, but the channel table was not
  reloaded, so the router still finds the channel's old key there, considers the channel to have a key,
  and attaches the old key once the channel's cooldown is over.
\<close>

theorem cleared_key_stays_in_use:
  assumes "system_reachable D w" "sqlite_admin A" "admin_set_channel_api_key A k [] (w_state w) = (s, Inr x)"
    and "ch \<in> set (channels (ds_router (w_state w)))" "rc_channel_id ch = k" "rc_api_key ch \<noteq> []"
  shows "is_some_and (\<lambda>r. r_api_key r = []) (abs_channels (ds_db s) k) \<and> ch \<in> set (channels (ds_router s)) \<and>
    has_api_key (ds_router s) k \<and> unwrap_or (rc_api_key ch) (channel_api_keys (ds_router s) k) = rc_api_key ch"
proof -
  obtain Q where Q: "ad_storage A = sqlite_storage Q" using assms(2) by (auto simp: sqlite_admin_def)
  let ?db = "ds_db (w_state w)"
  obtain db where set: "sqlite_set_channel_api_key Q ?db k [] = (db, Inr ())"
    and s: "s = ignoring (\<lambda>db. sqlite_record_channel_failure Q db k)
      (note_unhealthy A k (upd_keys (\<lambda>m. m(k := None)) (w_state w\<lparr>ds_db := db\<rparr>)))"
    using assms(3) by (auto simp: admin_set_channel_api_key_def handler_Inr Q sqlite_storage_def)
  have pool: "q_pool Q = None"
    using set by (auto simp: sqlite_set_channel_api_key_def update_channel_row_def with_conn_upd_Inr)
  have rows: "row_at r_id k (t_channels db) =
      map_option (\<lambda>r. r\<lparr>r_api_key := [], r_updated_at := q_now_unix Q\<rparr>) (row_at r_id k (t_channels ?db))"
    "row_at r_id k (t_channels ?db) \<noteq> None"
    using update_channel_row_Inr(2) [OF set [unfolded sqlite_set_channel_api_key_def], where k' = k]
      update_channel_row_Inr(4) [OF set [unfolded sqlite_set_channel_api_key_def]] by simp_all
  then obtain r where r: "abs_channels db k = Some r" "r_api_key r = []" by (auto simp: abs_channels_def)
  have "is_some_and (\<lambda>r. r_api_key r = []) (abs_channels (fst (sqlite_record_channel_failure Q db k)) k)"
    using record_failure_key [OF r(1) pool] r(2) by simp
  moreover have "ds_db s = fst (sqlite_record_channel_failure Q db k)"
    by (simp add: s ignoring_def note_unhealthy_def upd_health_def upd_keys_def)
  moreover have "channels (ds_router s) = channels (ds_router (w_state w))" "channel_api_keys (ds_router s) k = None"
    by (simp_all add: s ignoring_def note_unhealthy_def upd_health_def upd_keys_def)
  ultimately show ?thesis using assms(4-6) by (auto simp: has_api_key_def list_ex_iff)
qed

theorem cleared_key_stays_in_use_witness:
  "\<exists>s. admin_set_channel_api_key sample_admin ''t'' [] sample_proxy_world = (s, Inr None) \<and> has_api_key (ds_router s) ''t''"
proof -
  have "snd (admin_set_channel_api_key sample_admin ''t'' [] sample_proxy_world) = Inr None"
    by (simp add: admin_set_channel_api_key_def sqlite_set_channel_api_key_def update_channel_row_def sample_admin_call
        sample_sqlite_env_def Let_def)
  then obtain s where s: "admin_set_channel_api_key sample_admin ''t'' [] sample_proxy_world = (s, Inr None)"
    by (metis prod.collapse)
  have "fst sample_metered \<in> set (channels (ds_router sample_proxy_world))" "rc_channel_id (fst sample_metered) = ''t''"
    "rc_api_key (fst sample_metered) \<noteq> []"
    by (simp_all add: sample_proxy_world_def sample_defs)
  with cleared_key_stays_in_use [OF sample_system_reachable sample_admin_ok, of "''t''", unfolded sample_world_state, OF s] s
  show ?thesis by blast
qed

section \<open>Reports\<close>

lemma sum_list_all_zero: "(\<And>x. x \<in> set xs \<Longrightarrow> f x = 0) \<Longrightarrow> sum_list (map f xs) = (0 :: 'a :: monoid_add)"
  by (induction xs) auto

text \<open>
  The savings report covers the newest hundred records: it adds up the saved tokens of the records that
  match the project and the time range, newest first, but of the first hundred of them only.
\<close>

theorem savings_cover_newest_hundred:
  assumes "ad_storage A = sqlite_storage Q" "admin_cost_savings A q w = Some (Inr rep)"
  shows "\<exists>tr. compute_time_range (ad_min_time A) (ad_unix A) (rq_days q) (rq_tz_offset q) (rq_project q) = Some tr \<and>
    rep = savings_report (take 100 (order_desc cr_timestamp
      (filter (\<lambda>r. is_none_or (\<lambda>p. cr_project r = p) (rq_project q) \<and> in_range Q tr r) (t_costs (ds_db w)))))"
proof -
  let ?f = "\<lambda>tr. \<lparr>cf_project_path = rq_project q, cf_model_name = None, cf_channel_name = None,
    cf_time_range = Some tr, cf_limit = None, cf_offset = None\<rparr> :: cost_filter"
  obtain tr where tr: "compute_time_range (ad_min_time A) (ad_unix A) (rq_days q) (rq_tz_offset q) (rq_project q) = Some tr"
    and "map_sum id savings_report (snd (storage_query (\<lambda>db. query_cost_records (ad_storage A) db (?f tr)) w)) = Inr rep"
    using assms(2) by (auto simp: admin_cost_savings_def)
  then obtain rs where "query_cost_records (sqlite_storage Q) (ds_db w) (?f tr) = Inr rs" "rep = savings_report rs"
    by (cases "query_cost_records (sqlite_storage Q) (ds_db w) (?f tr)") (simp_all add: storage_query_def assms(1))
  moreover have "cost_matches Q (?f tr) = (\<lambda>r. is_none_or (\<lambda>p. cr_project r = p) (rq_project q) \<and> in_range Q tr r)"
    by (simp add: cost_matches_def fun_eq_iff)
  ultimately show ?thesis
    using tr by (auto simp: sqlite_storage_def sqlite_query_cost_records_def with_conn_Inr query_limit_def)
qed

theorem savings_cover_newest_hundred_witness:
  "\<exists>rep. admin_cost_savings sample_admin \<lparr>rq_project = None, rq_days = 1, rq_group_by = None, rq_tz_offset = None\<rparr>
     (sample_proxy_world\<lparr>ds_db := sample_costs_db\<rparr>) = Some (Inr rep) \<and> sv_total_saved_tokens rep = 0"
proof -
  let ?q = "\<lparr>rq_project = None, rq_days = 1, rq_group_by = None, rq_tz_offset = None\<rparr> :: cost_report_query"
  let ?w = "sample_proxy_world\<lparr>ds_db := sample_costs_db\<rparr>"
  obtain rep where rep: "admin_cost_savings sample_admin ?q ?w = Some (Inr rep)"
    by (simp add: admin_cost_savings_def compute_time_range_def sample_admin_def storage_query_def sqlite_storage_def
        sqlite_query_cost_records_def with_conn_def sample_sqlite_env_def)
  have "cr_tokens_saved r = 0" if "r \<in> set (t_costs sample_costs_db)" for r
    using that by (auto simp: sample_costs_db_def sample_cost_def)
  moreover have "set (take 100 (order_desc cr_timestamp (filter P (t_costs sample_costs_db)))) \<subseteq> set (t_costs sample_costs_db)" for P
    using set_take_subset by fastforce
  ultimately have z: "sum_list (map cr_tokens_saved (take 100 (order_desc cr_timestamp (filter P (t_costs sample_costs_db))))) = 0" for P
    by (intro sum_list_all_zero) blast
  have "ad_storage sample_admin = sqlite_storage sample_sqlite_env" by (simp add: sample_admin_def)
  from savings_cover_newest_hundred [OF this rep] obtain P where
    "rep = savings_report (take 100 (order_desc cr_timestamp (filter P (t_costs sample_costs_db))))" by auto
  with rep z show ?thesis by (simp add: savings_report_def)
qed

text \<open>
  A range of calendar days: with an offset, a report over some days starts at a midnight of the caller's
  time zone and reaches back exactly that many calendar days, today included; its end is the present.
\<close>

theorem calendar_days_range:
  assumes "compute_time_range min_time now days (Some off) project = Some tr" "0 \<le> now" "now < 2 ^ 62" "0 < days"
  shows "(sint (tr_start tr) + clamp_offset off * 60) mod 86400 = 0 \<and> sint (tr_end tr) = now \<and>
    sint (tr_start tr) + (uint days - 1) * 86400 \<le> now \<and> now < sint (tr_start tr) + uint days * 86400 \<and>
    min_time \<le> sint (tr_start tr) \<and> tr_project tr = project"
proof -
  define o60 where "o60 = clamp_offset off * 60"
  define start where "start = (now + o60) div 86400 * 86400 - (uint days - 1) * 86400 - o60"
  have d: "0 < uint days" "uint days < 2 ^ 32"
    using assms(4) uint_lt2p [of days] by (simp_all add: word_less_def)
  have o: "- 43200 \<le> o60" "o60 \<le> 50400" by (simp_all add: o60_def clamp_offset_def)
  have tr: "tr = \<lparr>tr_start = of_int start, tr_end = of_int now, tr_project = project\<rparr>" "min_time \<le> start"
    using assms(1,4) by (auto simp: compute_time_range_def Let_def o60_def start_def split: if_splits)
  have q: "(now + o60) div 86400 * 86400 \<le> now + o60" "now + o60 < (now + o60) div 86400 * 86400 + 86400"
    using minus_mod_eq_div_mult [of "now + o60" 86400] pos_mod_bound [of 86400 "now + o60"]
      pos_mod_sign [of 86400 "now + o60"] by linarith+
  have b: "start + (uint days - 1) * 86400 \<le> now" "now < start + uint days * 86400"
    using q by (simp_all add: start_def algebra_simps)
  have "sint (of_int start :: i64) = start" "sint (of_int now :: i64) = now"
    using b d assms(2,3) by (intro sint_of_int_range; simp)+
  moreover have "(start + o60) mod 86400 = 0" by (simp add: start_def flip: left_diff_distrib)
  ultimately show ?thesis using b tr by (simp add: o60_def)
qed

theorem calendar_days_range_witness:
  "\<exists>tr. compute_time_range (- 1000000000000) 1000000 2 (Some 60) None = Some tr \<and>
     (sint (tr_start tr) + 3600) mod 86400 = 0 \<and> sint (tr_end tr) = 1000000"
proof -
  obtain tr where tr: "compute_time_range (- 1000000000000) 1000000 2 (Some 60) None = Some tr"
    by (simp add: compute_time_range_def clamp_offset_def Let_def)
  with calendar_days_range [OF tr] show ?thesis by (simp add: clamp_offset_def)
qed

section \<open>A fresh installation\<close>

lemma fresh_aliases:
  "alias_map_of (sort_key ma_alias_name (t_aliases (fst (sqlite_migrate Q empty_db)))) m =
     (if q_pool Q = None \<and> m \<in> {''gpt-5.5'', ''gpt-5.4'', ''gpt-5.4-mini'', ''gpt-5.3-codex'', ''gpt-5.2''} then Some [] else None)"
  by (cases "q_pool Q")
    (auto simp: sqlite_migrate_def with_conn_upd_def empty_db_def migration_v1_def migration_v2_def
      insert_alias_if_absent_def put_alias_def autoincrement_def sql_upsert_def new_alias_row_def alias_map_of_def Let_def)

definition sample_alias_json :: json_lib where
  "sample_alias_json =
     \<lparr>from_slice = (\<lambda>b. Inr (JObject [(''model'', JString (if b = ''b'' then ''gpt-5.5'' else []))])),
      to_vec = (\<lambda>_. Inr ''x'')\<rparr>"

text \<open>
  C40. A fresh installation refuses five models: the migrations create enabled aliases with an empty target
  for them, so the alias middleware replaces the model of such a request by the empty string, and the
  router answers that the request has no model, whatever channels there are.
\<close>

theorem fresh_install_refuses_alias_models:
  assumes "q_pool Q = None" "model \<in> {''gpt-5.5'', ''gpt-5.4'', ''gpt-5.4-mini'', ''gpt-5.3-codex'', ''gpt-5.2''}"
    and "from_slice (env_json E) (req_body req) = Inr json" "jget ''model'' json = Some (JString model)"
    and "to_vec (env_json E) (jreplace ''model'' (JString []) json) = Inr b"
    and "from_slice (env_json E) b = Inr (jreplace ''model'' (JString []) json)"
  shows "\<exists>req'. alias_on_request (env_json E)
      (alias_map_of (sort_key ma_alias_name (t_aliases (fst (sqlite_migrate Q empty_db))))) req ctx = Inr (req', ctx) \<and>
    (\<exists>msg. router_on_request E st req' ctx = (st, Inl (BadRequest msg)))"
proof -
  let ?m = "alias_map_of (sort_key ma_alias_name (t_aliases (fst (sqlite_migrate Q empty_db))))"
  have hit: "?m model = Some []" unfolding fresh_aliases using assms(1,2) by simp
  have "model \<noteq> []" using assms(2) by auto
  note hit_facts = alias_on_request_hit(1,2) [where J = "env_json E" and req = req and json = json and model = model
      and m = ?m and target = "[]" and b = b, OF assms(3,4) this hit assms(5)]
  have "router_on_request E st (req\<lparr>req_body := b\<rparr>) ctx =
      (st, Inl (BadRequest (''request body missing '' @ quoted ''model'' @ '' field'')))"
    using hit_facts(2) assms(6) by (simp add: router_on_request_def request_model_def)
  with hit_facts(1) [of ctx] show ?thesis by blast
qed

theorem fresh_install_refuses_alias_models_witness:
  "\<exists>req' msg. alias_on_request sample_alias_json
      (alias_map_of (sort_key ma_alias_name (t_aliases (fst (sqlite_migrate sample_sqlite_env empty_db)))))
      \<lparr>req_method = ''POST'', req_path = ''/v1/chat/completions'', req_headers = [], req_body = ''b''\<rparr> sample_ctx
      = Inr (req', sample_ctx) \<and>
    snd (router_on_request (sample_env\<lparr>env_json := sample_alias_json\<rparr>) sample_state req' sample_ctx) = Inl (BadRequest msg)"
proof -
  let ?E = "sample_env\<lparr>env_json := sample_alias_json\<rparr>"
  let ?req = "\<lparr>req_method = ''POST'', req_path = ''/v1/chat/completions'', req_headers = [], req_body = ''b''\<rparr> :: proxy_request"
  have "from_slice (env_json ?E) (req_body ?req) = Inr (JObject [(''model'', JString ''gpt-5.5'')])"
    "to_vec (env_json ?E) (jreplace ''model'' (JString []) (JObject [(''model'', JString ''gpt-5.5'')])) = Inr ''x''"
    "from_slice (env_json ?E) ''x'' = Inr (jreplace ''model'' (JString []) (JObject [(''model'', JString ''gpt-5.5'')]))"
    by (simp_all add: sample_alias_json_def)
  from fresh_install_refuses_alias_models [OF sample_store_ok(2) _ this(1) _ this(2,3), of "''gpt-5.5''" sample_ctx sample_state]
  show ?thesis by fastforce
qed

end
