(* ===== verification/Debug_Log.thy ===== *)
theory Debug_Log
  imports Json
begin

text \<open>
  The two log files below the home directory: \<open>write_schema_debug_log\<close> of \<open>crates/compress/src/lib.rs\<close> and
  \<open>write_consume_log\<close> of \<open>crates/core/src/report.rs\<close>. Both append one line of JSON; the first removes the file
  when it has grown too large. The files are a map from paths to contents, and what the file system
  answers is the argument \<open>log_env\<close>; \<open>lg_written\<close> is the number of bytes after which a write fails.
\<close>

section \<open>Files\<close>

record log_env =
  lg_home :: "string option"
  lg_create_dir :: "string \<Rightarrow> bool"
  lg_metadata :: bool
  lg_remove :: bool
  lg_open :: bool
  lg_written :: "nat option"
  lg_ts :: string

type_synonym files = "string \<rightharpoonup> bytes"

text \<open>\<open>OpenOptions::new().create(true).append(true).open(path)\<close> with \<open>writeln!\<close>; \<open>False\<close> is an error.\<close>

definition append_line :: "log_env \<Rightarrow> string \<Rightarrow> bytes \<Rightarrow> files \<Rightarrow> files \<times> bool" where
  "append_line L path text fs =
     (if \<not> lg_open L then (fs, False)
      else
        let line = text @ [LF]; old = unwrap_or [] (fs path)
        in (case lg_written L of
              None \<Rightarrow> (fs(path \<mapsto> old @ line), True)
            | Some n \<Rightarrow> (fs(path \<mapsto> old @ take n line), False)))"

text \<open>\<open>serde_json::to_string(&entry).unwrap_or_default()\<close>\<close>

definition entry_text :: "json_lib \<Rightarrow> json \<Rightarrow> bytes" where
  "entry_text J entry = (case to_vec J entry of Inl _ \<Rightarrow> [] | Inr s \<Rightarrow> s)"

definition log_dir :: "string \<Rightarrow> string" where
  "log_dir home = path_join (path_join home ''.tokenfleet-ai'') ''agent-proxy''"

definition schema_log_path :: "string \<Rightarrow> string" where
  "schema_log_path home = path_join (log_dir home) ''schema-compress-debug.log''"

section \<open>The log of the compressor\<close>

definition max_log_size :: nat where
  "max_log_size = 200000"

definition schema_log_entry :: "string \<Rightarrow> u64 \<Rightarrow> u64 \<Rightarrow> u64 \<Rightarrow> u64 \<Rightarrow> string \<Rightarrow> string \<Rightarrow> json" where
  "schema_log_entry ts tools_count pre_tokens post_tokens saved before_snapshot after_snapshot =
     JObject [(''after'', JString after_snapshot), (''before'', JString before_snapshot),
       (''post_tokens'', JNumber (PosInt post_tokens)), (''pre_tokens'', JNumber (PosInt pre_tokens)),
       (''saved'', JNumber (PosInt saved)), (''tools_count'', JNumber (PosInt tools_count)), (''ts'', JString ts)]"

definition write_schema_debug_log ::
  "json_lib \<Rightarrow> log_env \<Rightarrow> u64 \<Rightarrow> u64 \<Rightarrow> u64 \<Rightarrow> u64 \<Rightarrow> string \<Rightarrow> string \<Rightarrow> files \<Rightarrow> files" where
  "write_schema_debug_log J L tools_count pre_tokens post_tokens saved before_snapshot after_snapshot fs =
     (case lg_home L of
        None \<Rightarrow> fs
      | Some home \<Rightarrow>
          if \<not> lg_create_dir L (log_dir home) then fs
          else
            let log_path = schema_log_path home;
                too_large = lg_metadata L \<and> is_some_and (\<lambda>d. max_log_size < length d) (fs log_path);
                fs' = (if too_large \<and> lg_remove L then fs(log_path := None) else fs);
                entry = schema_log_entry (lg_ts L) tools_count pre_tokens post_tokens saved before_snapshot after_snapshot
            in fst (append_line L log_path (entry_text J entry) fs'))"

section \<open>The log of the report reader\<close>

definition consume_log_entry :: "string \<Rightarrow> u64 \<Rightarrow> u64 \<Rightarrow> string option \<Rightarrow> json" where
  "consume_log_entry ts n total_saved project_path =
     JObject [(''lines'', JNumber (PosInt n)),
       (''project_path'', case project_path of None \<Rightarrow> JNull | Some p \<Rightarrow> JString p),
       (''total_saved'', JNumber (PosInt total_saved)), (''ts'', JString ts)]"

definition write_consume_log ::
  "json_lib \<Rightarrow> log_env \<Rightarrow> u64 \<Rightarrow> u64 \<Rightarrow> string option \<Rightarrow> files \<Rightarrow> files \<times> bool" where
  "write_consume_log J L n total_saved project_path fs =
     (case lg_home L of
        None \<Rightarrow> (fs, False)
      | Some home \<Rightarrow>
          if \<not> lg_create_dir L (log_dir home) then (fs, False)
          else append_line L (path_join (log_dir home) ''report-consume.log'')
                 (entry_text J (consume_log_entry (lg_ts L) n total_saved project_path)) fs)"

section \<open>Sizes\<close>

definition size_of :: "files \<Rightarrow> string \<Rightarrow> nat" where
  "size_of fs p = length (unwrap_or [] (fs p))"

lemma append_line_size: "size_of (fst (append_line L p text fs)) p \<le> size_of fs p + length text + 1"
  by (auto simp: append_line_def size_of_def Let_def split: option.split)

lemma append_line_other: "q \<noteq> p \<Longrightarrow> fst (append_line L p text fs) q = fs q"
  by (simp add: append_line_def Let_def split: option.split)

text \<open>One write adds a line to a file that had at most the maximal size, if the old file can be removed.\<close>

lemma schema_log_step:
  assumes "lg_metadata L" "lg_remove L" "lg_home L = Some home" "size_of fs (schema_log_path home) \<le> max_log_size + B"
    and "length (entry_text J (schema_log_entry (lg_ts L) n a b s x y)) < B"
  shows "size_of (write_schema_debug_log J L n a b s x y fs) (schema_log_path home) \<le> max_log_size + B"
proof -
  let ?p = "schema_log_path home"
  let ?fs = "if lg_metadata L \<and> is_some_and (\<lambda>d. max_log_size < length d) (fs ?p) \<and> lg_remove L then fs(?p := None) else fs"
  let ?t = "entry_text J (schema_log_entry (lg_ts L) n a b s x y)"
  have "size_of ?fs ?p \<le> max_log_size"
    using assms(1,2) by (cases "fs ?p") (simp_all add: size_of_def)
  with append_line_size [of L ?p ?t ?fs] assms(5) have "size_of (fst (append_line L ?p ?t ?fs)) ?p \<le> max_log_size + B"
    by linarith
  with assms(3,4) show ?thesis by (simp add: write_schema_debug_log_def Let_def)
qed

type_synonym schema_log_call = "log_env \<times> (u64 \<times> u64 \<times> u64 \<times> u64) \<times> string \<times> string"

fun schema_log_calls :: "json_lib \<Rightarrow> schema_log_call list \<Rightarrow> files \<Rightarrow> files" where
  "schema_log_calls J [] fs = fs"
| "schema_log_calls J ((L, (n, a, b, s), x, y) # cs) fs =
     schema_log_calls J cs (write_schema_debug_log J L n a b s x y fs)"

section \<open>Properties\<close>

text \<open>
  The debug log of the compressor stays bounded: over any number of writes, as long as the file system
  lets the old file be measured and removed and every line is shorter than \<open>B\<close> bytes, the file never has
  more than 200000 + \<open>B\<close> bytes, whether the writes succeed or break off.
\<close>

theorem schema_log_bounded:
  assumes "\<forall>(L, (n, a, b, s), x, y)\<in>set cs. lg_metadata L \<and> lg_remove L \<and> lg_home L = Some home \<and>
      length (entry_text J (schema_log_entry (lg_ts L) n a b s x y)) < B"
    and "size_of fs (schema_log_path home) \<le> 200000 + B"
  shows "size_of (schema_log_calls J cs fs) (schema_log_path home) \<le> 200000 + B"
  using assms
proof (induction J cs fs rule: schema_log_calls.induct)
  case (2 J L n a b s x y cs fs)
  have "size_of (write_schema_debug_log J L n a b s x y fs) (schema_log_path home) \<le> 200000 + B"
    using schema_log_step [of L home fs B J n a b s x y] 2(2,3) by (simp add: max_log_size_def)
  with 2(1,2) show ?case by simp
qed simp

definition sample_log_env :: log_env where
  "sample_log_env =
     \<lparr>lg_home = Some ''/h'', lg_create_dir = (\<lambda>_. True), lg_metadata = True, lg_remove = True, lg_open = True,
      lg_written = None, lg_ts = ''now''\<rparr>"

theorem schema_log_bounded_witness:
  "size_of (schema_log_calls \<lparr>from_slice = (\<lambda>_. Inl []), to_vec = (\<lambda>_. Inr ''{}'')\<rparr>
      (replicate 5 (sample_log_env, (1, 2, 1, 1), ''a'', ''b''))
      [schema_log_path ''/h'' \<mapsto> replicate 200001 (CHR ''x'')]) (schema_log_path ''/h'') \<le> 200003"
  using schema_log_bounded [of "replicate 5 (sample_log_env, (1, 2, 1, 1), ''a'', ''b'')" "''/h''"
      "\<lparr>from_slice = (\<lambda>_. Inl []), to_vec = (\<lambda>_. Inr ''{}'')\<rparr>" 3 "[schema_log_path ''/h'' \<mapsto> replicate 200001 (CHR ''x'')]"]
  by (simp add: sample_log_env_def entry_text_def size_of_def)

end
