(* ===== verification/Spec2Isabelle.thy ===== *)
theory Spec2Isabelle
  imports Admin_Props Debug_Log
begin

text \<open>
  Verification of the agent proxy, an HTTP proxy that takes requests of AI agents in one of three API
  formats, selects an upstream channel for the requested model, translates the protocol where the
  channel speaks another one, forwards the request with the channel's key, and records the cost of the
  reply. An admin API changes its configuration while it runs.

  \<^bold>\<open>The program and its theories.\<close> Paths are relative to the root of the repository.

  \<^item> \<open>Prelude\<close>, \<open>F64\<close>, \<open>Json\<close>: what the sources use of the language and its library. Integers of fixed
    width are words, \<open>f64\<close> is IEEE binary64 with rounding, a \<open>Result\<close> is a sum, a panic is \<open>None\<close> or
    \<open>Aborted\<close>. Reading and printing JSON text is a parameter (\<open>json_lib\<close>).
  \<^item> \<open>Core_Types\<close>, \<open>Context\<close>, \<open>Proxy_Error\<close>, \<open>Auth\<close>, \<open>Middleware\<close>: \<open>crates/core\<close> except its server
    (\<open>types.rs\<close>, \<open>extensions.rs\<close>, \<open>compression.rs\<close>, \<open>error.rs\<close>, \<open>config.rs\<close>, \<open>auth.rs\<close>, \<open>middleware.rs\<close>)
    and \<open>apps/server/src/admin_auth.rs\<close>.
  \<^item> \<open>Report\<close>, \<open>Sse\<close>, \<open>Server\<close>: \<open>crates/core/src/report.rs\<close> and \<open>server.rs\<close>. The state of a call,
    \<open>world\<close>, is the request counter, the report cursors, the state behind the middlewares, and the list
    of requests sent upstream so far.
  \<^item> \<open>Calls\<close>: one call of that handler in the steps between which other tasks may run. \<open>Debug_Log\<close>: the two log
    files that \<open>report.rs\<close> and \<open>crates/compress/src/lib.rs\<close> append to.
  \<^item> \<open>Router_Types\<close>, \<open>Model_Router\<close>, \<open>Router_Selection\<close>, \<open>Router_Hooks\<close>: \<open>crates/model-router\<close>. The four
    shared tables of the middleware (channels, health, quota, keys) are the fields of \<open>router_state\<close>.
  \<^item> \<open>Bridge\<close>, \<open>Compress\<close>, \<open>Cost\<close>: the crates of the same names. The transforms of \<open>llm_bridge_core\<close> and
    the compressors of \<open>tokenless_schema\<close> are third-party code and are parameters.
  \<^item> \<open>Circuit_Breaker\<close>, \<open>Rate_Limiter\<close>, \<open>Retry\<close> (over \<open>Keyed\<close>): \<open>crates/resilience\<close>. The server does not
    register these middlewares, so they are verified on their own.
  \<^item> \<open>Storage_Types\<close>: \<open>crates/storage\<close>, its rows, errors and the \<open>Storage\<close> trait as a record of operations.
  \<^item> \<open>Tables\<close>, \<open>Sqlite\<close>, \<open>Sqlite_Cost\<close>: \<open>crates/storage-sqlite/src/lib.rs\<close> and its migrations. A table is
    a list of rows; an operation is a function on \<open>sqlite_db\<close>; \<open>sqlite_storage\<close> is the instance of the
    trait.
  \<^item> \<open>Seed\<close>: \<open>crates/storage-sqlite/src/seed.rs\<close>.
  \<^item> \<open>Health_Probe\<close>, \<open>Admin\<close>: \<open>apps/server/src/health_probe.rs\<close> and \<open>admin.rs\<close>. A handler is a function
    on \<open>proxy_world\<close>, the state it shares with the proxy; \<open>admin_route\<close> is the route table and
    \<open>admin_call\<close> puts the admin key in front of it.
  \<^item> \<open>Deployment\<close>, \<open>Startup\<close>: \<open>apps/server/src/main.rs\<close>. \<open>deployed_proxy\<close> is the proxy it builds,
    \<open>deployed_world\<close> the state it starts with, and \<open>start_up\<close> the whole of \<open>main\<close> up to the listening server, over
    the databases on the disk.
  \<^item> \<open>Proxy_System\<close>, \<open>Concurrent\<close>: the process that runs. A configuration of \<open>Concurrent\<close> is the shared state with
    the calls in flight and the reloads that are under way; \<open>system_step\<close> is one step of one task and
    \<open>system_run\<close> any interleaving of them after a start.

  \<^bold>\<open>What the lemmas show.\<close>

  \<^item> \<^emph>\<open>System.\<close> \<open>Concurrent\<close> proves, for every interleaving, the invariant of the whole state and, with it, that
    every request that leaves the proxy goes to a channel that was enabled, healthy and mapped to the
    model when the router chose it, to an endpoint of that channel and with that channel's key; that a
    call sends at most one request; and that request identifiers are unique. \<open>Calls\<close> has the lemma that ties the
    steps to the handler: a call which nothing interrupts does what \<open>handle_proxy_request\<close> does.
    \<open>Admin_Props\<close> shows that a reload which another one has overtaken can bring a deleted channel back.
  \<^item> \<^emph>\<open>Start.\<close> \<open>Startup\<close>: a start succeeds on every sound database when the surroundings are in order, whatever
    the seed data does, and a later start changes nothing.
  \<^item> \<^emph>\<open>Server.\<close> At most one upstream request per call; no effect of requests that are not authenticated
    or malformed; which headers are forwarded, name by name; that only delivered replies are billed; what the client
    receives; when a call can abort.
  \<^item> \<^emph>\<open>Router.\<close> Selection is sound and complete and follows the preference order of the source; the
    request hook writes the selected endpoint, key, price and upstream model and keeps the rest of the
    context; a failure keeps a channel out of selection until its cooldown ends or its next response
    arrives; quotas are counted. \<open>Router_Hooks\<close> also shows where the two hooks disagree.
  \<^item> \<^emph>\<open>Storage.\<close> \<open>Sqlite_Inv\<close> has the integrity of the database over every reachable database.
    \<open>Storage_Props\<close> shows that the channel operations refine operations on a map, that a written channel
    reads back, how failures escalate, and that aggregates count every record once.
  \<^item> \<^emph>\<open>Seed data.\<close> \<open>Seed_Props\<close>: it is applied once, a refresh applies only files with the announced hash,
    a version is recorded only when all its files are in, and the key, the enabled flag and the forced
    protocol of a channel stay.
  \<^item> \<^emph>\<open>Admin API.\<close> \<open>Admin_Props\<close>: no route without the key, when a change reaches the router, what a report
    covers.
  \<^item> \<^emph>\<open>Other components.\<close> Costs are finite and monotone; a session report is credited once; the usage of
    an event stream has, for each key, the last positive number that was reported; the bridge uses the
    transforms of a table of protocol pairs, for a request and for the response to it; compression changes
    tool definitions only; the breaker opens at its threshold and rejects until the cooldown after the
    last failure has passed; the level of a token bucket stays within its capacity.

  \<^bold>\<open>Interfaces.\<close> \<open>keyed\<close> and \<open>keyed_inv\<close> (\<open>Keyed\<close>) are the contract of a component with one state per
  channel, interpreted by the breaker, the limiter and the health table. \<open>mw_frame\<close> and \<open>mw_keeps\<close>
  (\<open>Middleware\<close>) say what a chain inherits from its members, and \<open>served_keeps\<close> (\<open>Server\<close>) what the handler
  and the steps of a call inherit from chain and recorder; the deployed chain interprets all three. \<open>seed_statements\<close>
  (\<open>Sqlite_Inv\<close>) says what seeding and a refresh inherit from their statements; it is interpreted for the
  integrity of the database, its readable counters, its schema version and the settings of the user. \<open>channel_reader\<close> and
  \<open>channel_store\<close> (\<open>Channel_Store\<close>) are the contract between the storage and its clients, the router and the
  admin API; the SQLite backend interprets it for every database that satisfies \<open>db_ok\<close>.

  \<^bold>\<open>Modelling choices.\<close> Every function is total, and there is no fuel: the loops of the sources run over
  lists. Clocks, files, the network, environment variables and the outcome of taking a database
  connection are arguments of the calls that read them, so a theorem holds for all their values. Concurrency is
  interleaving: a step is the part of a call before the chain, one hook, the hand-over to the upstream, its
  answer, or the billing with the reply; an admin call is one step, its reload up to two more; a task may be dropped
  between two steps. A request that the body limit or the authentication check of the router refuses changes nothing
  and is no step; \<open>build_router\<close> (\<open>Server\<close>) has both layers in their order. The body limit is \<open>tower_http\<close>'s, so its
  decision is the parameter \<open>se_body_limit\<close>; the handler's own checks of the size are modelled. The theorems on \<open>handle_proxy_request\<close> are about a call that runs alone. Integer overflow wraps as in the release build. Foreign
  keys are enforced on a connection exactly when \<open>q_foreign_keys\<close> holds, which is the default of the bundled library;
  the theorems that need it say so. Columns with \<open>AUTOINCREMENT\<close> refuse new rows after the identifier \<open>2 ^ 63 - 1\<close>. Concrete samples (\<open>sample_\<close>) instantiate every parameter; the
  theorems whose names end in \<open>_witness\<close> apply the properties to them.

  \<^bold>\<open>Not modelled.\<close> Sockets, TLS, timeouts and the HTTP framing, deserialisation of admin requests,
  cross-origin headers and the body limit of the admin routes (axum, tokio, reqwest); the log output of
  \<open>tracing\<close> and debug formats; what the file system does to create a directory or open the connection pool
  (only its outcome counts); failures of the disk and of the task that runs a statement; the tables that no
  operation touches; and two tasks inside one hook, one storage operation or one admin handler at the same time.
\<close>

end
